(* ===== verification/Prelude.thy ===== *)
theory Prelude
  imports Main
begin

text \<open>
  Shared vocabulary of the development: Python strings as lists of code points and the
  few \<open>str\<close> methods the scripts call (\<open>strip\<close>, \<open>replace\<close>, \<open>split\<close>, \<open>join\<close>,
  slicing), Python dictionaries as insertion-ordered association lists (\<open>d[k] = v\<close>,
  \<open>d.get(k)\<close>, \<open>d.setdefault(k, []).append(x)\<close>, \<open>d.values()\<close>), the error type
  of the exceptions the scripts can raise, and the generic lemmas the component theories
  share. The collections \<open>pystr_simps\<close> and \<open>dict_simps\<close> gather the equations
  that evaluate these operations on concrete values.
\<close>

named_theorems pystr_simps "equations evaluating the modelled str methods"
named_theorems dict_simps "equations evaluating the modelled dict operations"

section \<open>Python strings\<close>

text \<open>
  A Python \<open>str\<close> is a sequence of Unicode code points; \<open>len\<close> and slicing count code
  points. A code point is a \<open>nat\<close>; literals are written \<open>py ''...''\<close> for ASCII
  text, or as code point lists for the box-drawing characters of the tree renderer.
\<close>

type_synonym codepoint = nat
type_synonym pystr = "codepoint list"

definition py :: "string \<Rightarrow> pystr" where
  "py s = map of_char s"

abbreviation nl :: codepoint where "nl \<equiv> 10"

text \<open>\<open>str.isspace\<close> for one code point: the characters Python's \<open>str.strip()\<close> removes.\<close>

definition py_isspace :: "codepoint \<Rightarrow> bool" where
  "py_isspace c \<longleftrightarrow>
     (9 \<le> c \<and> c \<le> 13) \<or> (28 \<le> c \<and> c \<le> 32) \<or> c = 133 \<or> c = 160 \<or> c = 5760 \<or>
     (8192 \<le> c \<and> c \<le> 8202) \<or> c = 8232 \<or> c = 8233 \<or> c = 8239 \<or> c = 8287 \<or> c = 12288"

definition py_strip :: "pystr \<Rightarrow> pystr" where
  "py_strip s = rev (dropWhile py_isspace (rev (dropWhile py_isspace s)))"

text \<open>\<open>s.lower()\<close> on ASCII letters; other code points are left as they are.\<close>

definition py_lower :: "pystr \<Rightarrow> pystr" where
  "py_lower s = map (\<lambda>c. if 65 \<le> c \<and> c \<le> 90 then c + 32 else c) s"

text \<open>\<open>s.replace(old, new)\<close> for a one-character \<open>old\<close>: every occurrence is replaced.\<close>

definition py_replace :: "codepoint \<Rightarrow> pystr \<Rightarrow> pystr \<Rightarrow> pystr" where
  "py_replace c r s = concat (map (\<lambda>x. if x = c then r else [x]) s)"

text \<open>\<open>s.split(sep)\<close> for a one-character \<open>sep\<close>: never empty; \<open>''.split(sep) == ['']\<close>.\<close>

fun py_split :: "codepoint \<Rightarrow> pystr \<Rightarrow> pystr list" where
  "py_split c [] = [[]]"
| "py_split c (x # xs) =
     (case py_split c xs of
        [] \<Rightarrow> [[x]]
      | w # ws \<Rightarrow> (if x = c then [] # w # ws else (x # w) # ws))"

text \<open>\<open>sep.join(parts)\<close>.\<close>

fun py_join :: "pystr \<Rightarrow> pystr list \<Rightarrow> pystr" where
  "py_join sep [] = []"
| "py_join sep [x] = x"
| "py_join sep (x # y # ys) = x @ sep @ py_join sep (y # ys)"

declare py_def [pystr_simps] py_isspace_def [pystr_simps] py_strip_def [pystr_simps]
  py_replace_def [pystr_simps]

subsection \<open>Lemmas on the string model\<close>

lemma py_split_not_Nil [simp]: "py_split c s \<noteq> []"
  by (induction s) (auto split: list.splits)

lemma py_split_Cons_eq:
  "py_split c (x # xs) =
     (if x = c then [] # py_split c xs
      else (x # hd (py_split c xs)) # tl (py_split c xs))"
  by (cases "py_split c xs") auto

lemma py_split_no_sep [simp]: "c \<notin> set s \<Longrightarrow> py_split c s = [s]"
  by (induction s) (auto simp: py_split_Cons_eq simp del: py_split.simps(2))

lemma py_split_append_sep:
  "c \<notin> set s \<Longrightarrow> py_split c (s @ c # t) = s # py_split c t"
  by (induction s) (auto simp: py_split_Cons_eq simp del: py_split.simps(2))

lemma length_py_split: "length (py_split c s) = Suc (count_list s c)"
  by (induction s) (auto simp: py_split_Cons_eq simp del: py_split.simps(2))

lemma py_join_Cons:
  "py_join sep (x # xs) = (if xs = [] then x else x @ sep @ py_join sep xs)"
  by (cases xs) auto

text \<open>Splitting a joined list of lines gives the lines back (a round trip).\<close>

lemma py_split_join:
  assumes "ls \<noteq> []" and "\<forall>l \<in> set ls. c \<notin> set l"
  shows "py_split c (py_join [c] ls) = ls"
  using assms
proof (induction ls)
  case Nil
  then show ?case by simp
next
  case (Cons l ls)
  then show ?case
    by (cases ls) (simp_all add: py_split_append_sep)
qed

lemma py_join_Cons_Cons: "py_join sep ((x # h) # t) = x # py_join sep (h # t)"
  by (cases t) auto

lemma py_join_split: "py_join [c] (py_split c s) = s"
proof (induction s)
  case Nil
  then show ?case by simp
next
  case (Cons x xs)
  have split: "py_split c xs = hd (py_split c xs) # tl (py_split c xs)"
    by simp
  show ?case
  proof (cases "x = c")
    case True
    with Cons.IH show ?thesis by (simp add: py_join_Cons py_split_Cons_eq del: py_split.simps(2))
  next
    case False
    then have "py_join [c] (py_split c (x # xs)) = x # py_join [c] (py_split c xs)"
      by (subst split) (simp add: py_join_Cons_Cons py_split_Cons_eq del: py_split.simps(2))
    with Cons.IH show ?thesis by simp
  qed
qed

lemma py_join_append:
  "xs \<noteq> [] \<Longrightarrow> ys \<noteq> [] \<Longrightarrow> py_join sep (xs @ ys) = py_join sep xs @ sep @ py_join sep ys"
  by (induction sep xs rule: py_join.induct) (auto simp: py_join_Cons)

lemma py_replace_no_char [simp]: "c \<notin> set s \<Longrightarrow> py_replace c r s = s"
  by (induction s) (auto simp: py_replace_def)

lemma py_replace_removes:
  "c \<notin> set r \<Longrightarrow> c \<notin> set (py_replace c r s)"
  by (auto simp: py_replace_def)

lemma py_replace_length_same:
  "length r = 1 \<Longrightarrow> length (py_replace c r s) = length s"
  by (induction s) (auto simp: py_replace_def)

lemma set_py_strip: "set (py_strip s) \<subseteq> set s"
  by (auto simp: py_strip_def dest!: set_dropWhileD)

lemma py_strip_length: "length (py_strip s) \<le> length s"
  by (simp add: py_strip_def length_dropWhile_le le_trans [OF length_dropWhile_le])

section \<open>Python dictionaries\<close>

text \<open>
  A Python \<open>dict\<close> keeps its keys in insertion order; assigning to a present key keeps
  its position and replaces its value. The model is an association list with that
  update.
\<close>

type_synonym ('k, 'v) pydict = "('k \<times> 'v) list"

fun dict_set :: "('k, 'v) pydict \<Rightarrow> 'k \<Rightarrow> 'v \<Rightarrow> ('k, 'v) pydict" where
  "dict_set [] k v = [(k, v)]"
| "dict_set ((k', v') # d) k v =
     (if k' = k then (k, v) # d else (k', v') # dict_set d k v)"

definition dict_get :: "('k, 'v) pydict \<Rightarrow> 'k \<Rightarrow> 'v option" where
  "dict_get d k = map_of d k"

text \<open>\<open>d.get(k, default)\<close>.\<close>

definition dict_get_default :: "('k, 'v) pydict \<Rightarrow> 'k \<Rightarrow> 'v \<Rightarrow> 'v" where
  "dict_get_default d k x = (case map_of d k of None \<Rightarrow> x | Some v \<Rightarrow> v)"

text \<open>\<open>d.setdefault(k, []).append(x)\<close>, and \<open>d[k].append(x)\<close> on a \<open>defaultdict(list)\<close>.\<close>

fun dict_append :: "('k, 'v list) pydict \<Rightarrow> 'k \<Rightarrow> 'v \<Rightarrow> ('k, 'v list) pydict" where
  "dict_append [] k x = [(k, [x])]"
| "dict_append ((k', xs) # d) k x =
     (if k' = k then (k', xs @ [x]) # d else (k', xs) # dict_append d k x)"

declare dict_get_def [dict_simps] dict_get_default_def [dict_simps]

subsection \<open>Lemmas on the dictionary model\<close>

lemma map_of_dict_set [simp]: "map_of (dict_set d k v) = (map_of d)(k \<mapsto> v)"
  by (induction d) (auto simp: fun_eq_iff)

lemma keys_dict_set [simp]: "map fst (dict_set d k v) =
    (if k \<in> set (map fst d) then map fst d else map fst d @ [k])"
  by (induction d) force+

lemma distinct_dict_set [intro]: "distinct (map fst d) \<Longrightarrow> distinct (map fst (dict_set d k v))"
  by simp

lemma set_dict_set: "set (dict_set d k v) \<subseteq> insert (k, v) (set d)"
  by (induction d) (auto split: if_splits)

lemma dict_set_fresh: "k \<notin> set (map fst d) \<Longrightarrow> dict_set d k v = d @ [(k, v)]"
  by (induction d) auto

lemma map_of_dict_append [simp]:
  "map_of (dict_append d k x) = (map_of d)(k \<mapsto> (case map_of d k of None \<Rightarrow> [x] | Some xs \<Rightarrow> xs @ [x]))"
  by (induction d) (auto simp: fun_eq_iff)

lemma keys_dict_append [simp]: "map fst (dict_append d k x) =
    (if k \<in> set (map fst d) then map fst d else map fst d @ [k])"
  by (induction d) force+

lemma dict_get_default_eq: "dict_get_default d k x = (case dict_get d k of None \<Rightarrow> x | Some v \<Rightarrow> v)"
  by (simp add: dict_get_default_def dict_get_def)

section \<open>Exceptions\<close>

text \<open>
  The exceptions the modelled code can raise and does not catch: an \<open>AttributeError\<close>
  reading \<open>.id\<close> of an element without one, a \<open>RecursionError\<close> when a recursion
  exhausts Python's stack budget, a \<open>ValueError\<close> from \<open>range\<close> with step 0, a
  \<open>NameError\<close> for an unbound global, a \<open>FileNotFoundError\<close>, an \<open>IndexError\<close> from
  indexing an empty list, and the exceptions of the two services the scripts call: a
  \<open>MilvusException\<close> from the vector database and an \<open>APIError\<close> from the embedding API.
\<close>

datatype py_error = AttributeError | RecursionError | ValueError | NameError | FileNotFoundError
  | IndexError | MilvusException | APIError

text \<open>Sequencing of fallible steps, as an exception propagates.\<close>

definition bind_err :: "py_error + 'a \<Rightarrow> ('a \<Rightarrow> py_error + 'b) \<Rightarrow> py_error + 'b" where
  "bind_err r f = (case r of Inl e \<Rightarrow> Inl e | Inr x \<Rightarrow> f x)"

lemma bind_err_simps [simp]:
  "bind_err (Inl e) f = Inl e"
  "bind_err (Inr x) f = f x"
  by (simp_all add: bind_err_def)

text \<open>Running a list of fallible computations in order, stopping at the first error.\<close>

fun seq_err :: "(py_error + 'a) list \<Rightarrow> py_error + 'a list" where
  "seq_err [] = Inr []"
| "seq_err (r # rs) = bind_err r (\<lambda>x. bind_err (seq_err rs) (\<lambda>xs. Inr (x # xs)))"

lemma bind_err_Inr_iff: "bind_err r f = Inr y \<longleftrightarrow> (\<exists>x. r = Inr x \<and> f x = Inr y)"
  by (cases r) auto

lemma seq_err_map_Inr [simp]: "seq_err (map Inr xs) = Inr xs"
  by (induction xs) auto

lemma seq_err_Inr_iff: "seq_err rs = Inr xs \<longleftrightarrow> rs = map Inr xs"
proof (induction rs arbitrary: xs)
  case Nil
  then show ?case by auto
next
  case (Cons r rs)
  show ?case
  proof
    assume "seq_err (r # rs) = Inr xs"
    with Cons.IH show "r # rs = map Inr xs"
      by (cases r) (auto simp: bind_err_Inr_iff)
  next
    assume "r # rs = map Inr xs"
    then show "seq_err (r # rs) = Inr xs" by auto
  qed
qed

lemma seq_err_map_if:
  "seq_err (map (\<lambda>i. if B i then Inl e else Inr (g i)) xs) =
     (if \<exists>x \<in> set xs. B x then Inl e else Inr (map g xs))"
  by (induction xs) auto

lemma seq_err_ok_iff: "(\<exists>xs. seq_err rs = Inr xs) \<longleftrightarrow> (\<forall>r \<in> set rs. \<not> isl r)"
proof (induction rs)
  case Nil
  then show ?case by simp
next
  case (Cons r rs)
  then show ?case
    by (cases r) (auto simp: bind_err_def split: sum.splits)
qed

end
