(* ===== verification/Elements.thy ===== *)
theory Elements
  imports Prelude
begin

text \<open>
  The data the PDF-structuring script (\<open>src/HW-05/parse_file.py\<close>) consumes: the
  elements \<open>partition_pdf\<close> returns. An element has an optional \<open>id\<close> (the code tests
  \<open>hasattr(element, 'id')\<close>), a \<open>category\<close> drawn from a closed set of names, its
  \<open>text\<close>, and a \<open>metadata\<close> object holding the optional \<open>parent_id\<close> the
  structuring pass rewrites and the optional \<open>text_as_html\<close> of a table.
\<close>

datatype category =
    Title | NarrativeText | UncategorizedText | ListItem | Table | TableRow | TableCell
  | Image | FigureCaption | Formula | Address | EmailAddress | PageBreak | PageNumber
  | CodeSnippet | Header | Footer

text \<open>The category's name, as \<open>f"[{element.category}]"\<close> prints it.\<close>

fun category_name :: "category \<Rightarrow> pystr" where
  "category_name Title = py ''Title''"
| "category_name NarrativeText = py ''NarrativeText''"
| "category_name UncategorizedText = py ''UncategorizedText''"
| "category_name ListItem = py ''ListItem''"
| "category_name Table = py ''Table''"
| "category_name TableRow = py ''TableRow''"
| "category_name TableCell = py ''TableCell''"
| "category_name Image = py ''Image''"
| "category_name FigureCaption = py ''FigureCaption''"
| "category_name Formula = py ''Formula''"
| "category_name Address = py ''Address''"
| "category_name EmailAddress = py ''EmailAddress''"
| "category_name PageBreak = py ''PageBreak''"
| "category_name PageNumber = py ''PageNumber''"
| "category_name CodeSnippet = py ''CodeSnippet''"
| "category_name Header = py ''Header''"
| "category_name Footer = py ''Footer''"

type_synonym elem_id = pystr

record metadata =
  parent_id :: "elem_id option"
  text_as_html :: "pystr option"

record element =
  eid :: "elem_id option"
  category :: category
  etext :: pystr
  metadata :: metadata

text \<open>\<open>getattr(element.metadata, 'parent_id', None)\<close>.\<close>

definition parent_of :: "element \<Rightarrow> elem_id option" where
  "parent_of e = parent_id (metadata e)"

text \<open>\<open>element.metadata.parent_id = p\<close>, the one mutation the script performs.\<close>

definition set_parent :: "element \<Rightarrow> elem_id option \<Rightarrow> element" where
  "set_parent e p = e\<lparr>metadata := (metadata e)\<lparr>parent_id := p\<rparr>\<rparr>"

text \<open>\<open>element.category not in ["Header", "Footer"]\<close>.\<close>

definition is_header_footer :: "category \<Rightarrow> bool" where
  "is_header_footer c \<longleftrightarrow> c = Header \<or> c = Footer"

text \<open>
  What an element is apart from the parent link the structuring pass rewrites: its
  identity and classification. Every rewrite of the script keeps this part.
\<close>

definition shape :: "element \<Rightarrow> elem_id option \<times> category" where
  "shape e = (eid e, category e)"

text \<open>
  Test inputs: an element with an id and no table markup, and the scenario of the
  specification (section 8): a Header, then a Title and a paragraph whose parent is the
  Header.
\<close>

definition node :: "string \<Rightarrow> category \<Rightarrow> string \<Rightarrow> string option \<Rightarrow> element" where
  "node i c t p = \<lparr>eid = Some (py i), category = c, etext = py t,
     metadata = \<lparr>parent_id = map_option py p, text_as_html = None\<rparr>\<rparr>"

definition spec_scenario :: "element list" where
  "spec_scenario =
     [node ''1'' Header ''H'' None, node ''2'' Title ''T1'' (Some ''1''),
      node ''3'' NarrativeText ''body'' (Some ''1'')]"

lemmas element_fixtures = node_def spec_scenario_def py_def

lemma category_name_inj: "category_name a = category_name b \<longleftrightarrow> a = b"
  by (cases a; cases b) (simp_all add: py_def)

lemma set_parent_simps [simp]:
  "eid (set_parent e p) = eid e"
  "category (set_parent e p) = category e"
  "etext (set_parent e p) = etext e"
  "parent_of (set_parent e p) = p"
  "text_as_html (metadata (set_parent e p)) = text_as_html (metadata e)"
  "shape (set_parent e p) = shape e"
  by (simp_all add: set_parent_def parent_of_def shape_def)

lemma set_parent_same [simp]: "set_parent e (parent_of e) = e"
  by (simp add: set_parent_def parent_of_def)

lemma set_parent_twice [simp]: "set_parent (set_parent e p) q = set_parent e q"
  by (simp add: set_parent_def)

lemma shape_eq_iff: "shape a = shape b \<longleftrightarrow> eid a = eid b \<and> category a = category b"
  by (simp add: shape_def)

end
