(* ===== verification/Reparent.thy ===== *)
theory Reparent
  imports Elements
begin

text \<open>
  The structuring pass of \<open>elements_to_visual_tree\<close> and \<open>elements_to_markdown\<close>
  (\<open>src/HW-05/parse_file.py\<close>, lines 24--56 and 99--127; the two copies are the same
  code): the map from ids to elements, and the loop that rewrites, in place, the parent
  link of every element whose parent is a page header. A Title under a header becomes a
  root; any other element is moved under the nearest Title before it in document order,
  or becomes a root when there is none. The loop is modelled as it runs, over a list that
  each step updates (\<open>reparent_loop\<close>), and as the two-pass computation the design notes
  describe, every correction computed on a snapshot of the input (\<open>reparent_at\<close>); the
  two are proved equal.
\<close>

section \<open>The element map\<close>

text \<open>
  \<open>{element.id: element for element in elements if hasattr(element, 'id') and cond}\<close>:
  a dictionary comprehension, so a repeated id keeps the position of its first
  occurrence and the value of its last.
\<close>

type_synonym element_map = "(elem_id, element) pydict"

fun element_map_acc :: "(element \<Rightarrow> bool) \<Rightarrow> element_map \<Rightarrow> element list \<Rightarrow> element_map" where
  "element_map_acc P d [] = d"
| "element_map_acc P d (e # es) =
     (case eid e of
        None \<Rightarrow> element_map_acc P d es
      | Some i \<Rightarrow> (if P e then element_map_acc P (dict_set d i e) es else element_map_acc P d es))"

definition element_map_where :: "(element \<Rightarrow> bool) \<Rightarrow> element list \<Rightarrow> element_map" where
  "element_map_where P es = element_map_acc P [] es"

text \<open>Line 25 (and 100): every element with an id.\<close>

definition element_map :: "element list \<Rightarrow> element_map" where
  "element_map es = element_map_where (\<lambda>_. True) es"

text \<open>Line 59 (and 130): every element with an id that is neither a Header nor a Footer.\<close>

definition element_map_kept :: "element list \<Rightarrow> element_map" where
  "element_map_kept es = element_map_where (\<lambda>e. \<not> is_header_footer (category e)) es"

text \<open>Identifiers unique within the input (the data model's invariant).\<close>

definition unique_ids :: "element list \<Rightarrow> bool" where
  "unique_ids es \<longleftrightarrow> distinct (List.map_filter eid es)"

section \<open>The backward scan for the nearest Title\<close>

text \<open>
  \<open>for i in range(idx-1, -1, -1): if elements[i].category == "Title":
  new_parent_id = elements[i].id; break\<close>. Reading \<open>.id\<close> of a Title without one
  raises \<open>AttributeError\<close>.
\<close>

fun scan_back :: "element list \<Rightarrow> nat \<Rightarrow> py_error + elem_id option" where
  "scan_back es 0 = Inr None"
| "scan_back es (Suc i) =
     (if category (es ! i) = Title
      then (case eid (es ! i) of None \<Rightarrow> Inl AttributeError | Some x \<Rightarrow> Inr (Some x))
      else scan_back es i)"

text \<open>The specification of the scan: the last Title among the elements before \<open>idx\<close>.\<close>

definition nearest_title :: "element list \<Rightarrow> nat \<Rightarrow> element option" where
  "nearest_title es idx =
     (let ts = filter (\<lambda>e. category e = Title) (take idx es)
      in if ts = [] then None else Some (last ts))"

section \<open>The loop\<close>

text \<open>
  One iteration, for position \<open>idx\<close> of the current list: the guards are the code's
  three \<open>continue\<close>s (no id; no or empty \<open>parent_id\<close>; parent not in the map), then
  the two rules. The parent is looked up in the map built before the loop; the scan reads
  the current list.
\<close>

definition reparent_step :: "element_map \<Rightarrow> element list \<Rightarrow> nat \<Rightarrow> py_error + element list" where
  "reparent_step m es idx =
     (let e = es ! idx in
      if eid e = None then Inr es
      else (case parent_of e of
              None \<Rightarrow> Inr es
            | Some p \<Rightarrow>
                if p = [] then Inr es
                else (case dict_get m p of
                        None \<Rightarrow> Inr es
                      | Some pe \<Rightarrow>
                          if category pe = Header then
                            (if category e = Title then Inr (es[idx := set_parent e None])
                             else bind_err (scan_back es idx)
                                    (\<lambda>np. Inr (es[idx := set_parent e np])))
                          else Inr es)))"

text \<open>\<open>for idx, element in enumerate(elements)\<close>: \<open>k\<close> iterations from \<open>idx\<close>.\<close>

fun reparent_loop :: "element_map \<Rightarrow> nat \<Rightarrow> nat \<Rightarrow> element list \<Rightarrow> py_error + element list" where
  "reparent_loop m idx 0 es = Inr es"
| "reparent_loop m idx (Suc k) es = bind_err (reparent_step m es idx) (reparent_loop m (Suc idx) k)"

text \<open>The whole pass, with the map of line 25 built before it.\<close>

definition reparent :: "element list \<Rightarrow> py_error + element list" where
  "reparent es = reparent_loop (element_map es) 0 (length es) es"

text \<open>
  The same pass as a pure function of a snapshot: the corrected element at \<open>idx\<close>,
  computed from the input list alone.
\<close>

definition reparent_at :: "element_map \<Rightarrow> element list \<Rightarrow> nat \<Rightarrow> py_error + element" where
  "reparent_at m es idx =
     (let e = es ! idx in
      if eid e = None then Inr e
      else (case parent_of e of
              None \<Rightarrow> Inr e
            | Some p \<Rightarrow>
                if p = [] then Inr e
                else (case dict_get m p of
                        None \<Rightarrow> Inr e
                      | Some pe \<Rightarrow>
                          if category pe = Header then
                            (if category e = Title then Inr (set_parent e None)
                             else bind_err (scan_back es idx) (\<lambda>np. Inr (set_parent e np)))
                          else Inr e)))"

section \<open>What the pass promises\<close>

text \<open>
  The guard of the two rules (lines 33--45): the element has an id, a non-empty
  \<open>parent_id\<close>, and that id names a Header in the map.
\<close>

definition under_header :: "element_map \<Rightarrow> element \<Rightarrow> bool" where
  "under_header m e \<longleftrightarrow>
     eid e \<noteq> None \<and>
     (case parent_of e of
        None \<Rightarrow> False
      | Some p \<Rightarrow> p \<noteq> [] \<and> (case dict_get m p of None \<Rightarrow> False | Some pe \<Rightarrow> category pe = Header))"

text \<open>
  The parent the specification (section 4.1) gives the element at \<open>i\<close>: none for a
  Title under a header, the id of the nearest earlier Title for any other element under
  a header, the old parent otherwise.
\<close>

definition new_parent :: "element_map \<Rightarrow> element list \<Rightarrow> nat \<Rightarrow> elem_id option" where
  "new_parent m es i =
     (let e = es ! i in
      if under_header m e then
        (if category e = Title then None
         else (case nearest_title es i of None \<Rightarrow> None | Some t \<Rightarrow> eid t))
      else parent_of e)"

definition reparent_spec :: "element list \<Rightarrow> element list" where
  "reparent_spec es = map (\<lambda>i. set_parent (es ! i) (new_parent (element_map es) es i)) [0..<length es]"

text \<open>Where the code departs from the specification: the nearest Title has no id.\<close>

definition scan_fails :: "element_map \<Rightarrow> element list \<Rightarrow> nat \<Rightarrow> bool" where
  "scan_fails m es i \<longleftrightarrow>
     under_header m (es ! i) \<and> category (es ! i) \<noteq> Title \<and>
     (case nearest_title es i of None \<Rightarrow> False | Some t \<Rightarrow> eid t = None)"

definition titles_have_ids :: "element list \<Rightarrow> bool" where
  "titles_have_ids es \<longleftrightarrow> (\<forall>i < length es. \<not> scan_fails (element_map es) es i)"

text \<open>The equations that evaluate the pass on a concrete list.\<close>

lemmas reparent_eval = reparent_def reparent_step_def element_map_def element_map_where_def
  parent_of_def set_parent_def dict_get_def under_header_def element_fixtures

section \<open>Lemmas: the element map and the scan\<close>

lemma map_of_element_map_acc:
  "map_of (element_map_acc P d es) k =
     (let xs = filter (\<lambda>e. eid e = Some k \<and> P e) es in if xs = [] then map_of d k else Some (last xs))"
  by (induction es arbitrary: d) (auto simp: Let_def split: option.splits)

lemma dict_get_element_map_where:
  "dict_get (element_map_where P es) k =
     (let xs = filter (\<lambda>e. eid e = Some k \<and> P e) es in if xs = [] then None else Some (last xs))"
  by (simp add: dict_get_def element_map_where_def map_of_element_map_acc Let_def)

lemma element_map_acc_keys:
  "\<forall>(k, v) \<in> set d. eid v = Some k \<Longrightarrow> (k, v) \<in> set (element_map_acc P d es) \<Longrightarrow> eid v = Some k"
proof (induction es arbitrary: d)
  case Nil
  then show ?case by auto
next
  case (Cons e es)
  show ?case
  proof (cases "eid e")
    case None
    with Cons show ?thesis by simp
  next
    case (Some i)
    have "\<forall>(k, v) \<in> set (dict_set d i e). eid v = Some k"
      using Cons.prems(1) Some set_dict_set [of d i e] by blast
    with Cons Some show ?thesis by (auto split: if_splits)
  qed
qed

lemma element_map_where_keys:
  "(k, v) \<in> set (element_map_where P es) \<Longrightarrow> eid v = Some k"
  unfolding element_map_where_def by (rule element_map_acc_keys) auto

lemma element_map_acc_values:
  assumes "distinct (map fst d)" and "set (map fst d) \<inter> set (List.map_filter eid es) = {}"
    and "distinct (List.map_filter eid es)"
  shows "map snd (element_map_acc P d es) = map snd d @ filter (\<lambda>e. eid e \<noteq> None \<and> P e) es"
  using assms
proof (induction es arbitrary: d)
  case Nil
  then show ?case by simp
next
  case (Cons e es)
  show ?case
  proof (cases "eid e")
    case None
    with Cons show ?thesis by (simp add: List.map_filter_simps)
  next
    case (Some i)
    with Cons.prems have fresh: "i \<notin> set (map fst d)"
      by (auto simp: List.map_filter_simps)
    show ?thesis
    proof (cases "P e")
      case True
      have "map snd (element_map_acc P (d @ [(i, e)]) es) = map snd (d @ [(i, e)]) @ filter (\<lambda>e. eid e \<noteq> None \<and> P e) es"
        using Cons.prems Some fresh by (intro Cons.IH) (auto simp: List.map_filter_simps)
      with Some True fresh show ?thesis by (simp add: dict_set_fresh)
    next
      case False
      with Some Cons show ?thesis by (simp add: List.map_filter_simps)
    qed
  qed
qed

lemma element_map_where_values:
  "unique_ids es \<Longrightarrow> map snd (element_map_where P es) = filter (\<lambda>e. eid e \<noteq> None \<and> P e) es"
  by (simp add: element_map_where_def unique_ids_def element_map_acc_values)

lemma scan_back_nearest_title:
  "idx \<le> length es \<Longrightarrow> scan_back es idx =
     (case nearest_title es idx of
        None \<Rightarrow> Inr None
      | Some t \<Rightarrow> (case eid t of None \<Rightarrow> Inl AttributeError | Some x \<Rightarrow> Inr (Some x)))"
  by (induction idx) (auto simp: nearest_title_def Let_def take_Suc_conv_app_nth split: option.splits)

lemma scan_back_shape:
  "map shape es = map shape es' \<Longrightarrow> idx \<le> length es \<Longrightarrow> scan_back es idx = scan_back es' idx"
proof (induction idx)
  case 0
  then show ?case by simp
next
  case (Suc i)
  from Suc.prems have "shape (es ! i) = shape (es' ! i)"
    by (metis Suc_le_eq map_eq_imp_length_eq nth_map)
  with Suc show ?case by (simp add: shape_eq_iff)
qed

lemma reparent_at_cong:
  "map shape es = map shape es' \<Longrightarrow> es ! idx = es' ! idx \<Longrightarrow> idx \<le> length es \<Longrightarrow>
   reparent_at m es idx = reparent_at m es' idx"
proof -
  assume shapes: "map shape es = map shape es'" and at: "es ! idx = es' ! idx"
    and len: "idx \<le> length es"
  from shapes len have sb: "scan_back es idx = scan_back es' idx"
    by (rule scan_back_shape)
  show ?thesis by (simp only: reparent_at_def Let_def at sb)
qed

lemma reparent_step_at:
  "idx < length es \<Longrightarrow> reparent_step m es idx = bind_err (reparent_at m es idx) (\<lambda>e'. Inr (es[idx := e']))"
  by (auto simp: reparent_step_def reparent_at_def Let_def bind_err_def
      split: option.splits sum.splits)

lemma reparent_at_shape:
  "reparent_at m es idx = Inr e' \<Longrightarrow> shape e' = shape (es ! idx)"
  by (auto simp: reparent_at_def Let_def bind_err_Inr_iff split: option.splits if_splits)

section \<open>The loop is the two-pass computation\<close>

lemma reparent_loop_snapshot:
  assumes "idx + k = length es0" and "map shape es = map shape es0" and "drop idx es = drop idx es0"
  shows "reparent_loop m idx k es =
           bind_err (seq_err (map (reparent_at m es0) [idx..<idx + k])) (\<lambda>news. Inr (take idx es @ news))"
  using assms
proof (induction k arbitrary: idx es)
  case 0
  then have "length es = idx" by (metis add_0_right length_map)
  then show ?case by simp
next
  case (Suc k)
  have len: "length es = length es0" using Suc.prems(2) by (metis length_map)
  have lt: "idx < length es" using Suc.prems(1) len by simp
  have at: "es ! idx = es0 ! idx"
    using Suc.prems(3) lt len by (metis hd_drop_conv_nth)
  have same: "reparent_at m es idx = reparent_at m es0 idx"
    using Suc.prems(2) at lt by (intro reparent_at_cong) simp_all
  have upt: "[idx..<Suc (idx + k)] = idx # [Suc idx..<Suc (idx + k)]"
    using upt_conv_Cons [of idx "Suc (idx + k)"] by simp
  show ?case
  proof (cases "reparent_at m es0 idx")
    case (Inl err)
    with same lt show ?thesis by (simp add: reparent_step_at upt del: upt_Suc)
  next
    case (Inr e')
    let ?es1 = "es[idx := e']"
    have shape1: "map shape ?es1 = map shape es0"
    proof -
      have "map shape ?es1 = (map shape es)[idx := shape e']"
        by (simp add: map_update)
      also have "\<dots> = (map shape es)[idx := map shape es ! idx]"
        using reparent_at_shape [OF Inr] at lt by simp
      also have "\<dots> = map shape es0"
        using Suc.prems(2) by simp
      finally show ?thesis .
    qed
    have drop1: "drop (Suc idx) ?es1 = drop (Suc idx) es0"
    proof -
      have "drop (Suc idx) es = drop (Suc idx) es0"
        using Suc.prems(3) by (metis drop_drop plus_1_eq_Suc)
      then show ?thesis by (simp add: drop_update_cancel)
    qed
    have IH: "reparent_loop m (Suc idx) k ?es1 =
        bind_err (seq_err (map (reparent_at m es0) [Suc idx..<Suc idx + k]))
          (\<lambda>news. Inr (take (Suc idx) ?es1 @ news))"
      using Suc.prems(1) shape1 drop1 by (intro Suc.IH) simp_all
    have take1: "take (Suc idx) ?es1 = take idx es @ [e']"
      using lt by (simp add: take_Suc_conv_app_nth)
    show ?thesis
      using same Inr lt IH take1
      by (simp add: reparent_step_at upt bind_err_def del: upt_Suc split: sum.splits)
  qed
qed

lemma reparent_snapshot:
  "reparent es = seq_err (map (reparent_at (element_map es) es) [0..<length es])"
proof -
  have "reparent es = bind_err (seq_err (map (reparent_at (element_map es) es) [0..<0 + length es]))
           (\<lambda>news. Inr (take 0 es @ news))"
    unfolding reparent_def by (rule reparent_loop_snapshot) simp_all
  then show ?thesis by (simp add: bind_err_def split: sum.splits)
qed

section \<open>The pass refines its specification\<close>

lemma reparent_at_spec:
  assumes "i < length es"
  shows "reparent_at m es i =
    (if scan_fails m es i then Inl AttributeError else Inr (set_parent (es ! i) (new_parent m es i)))"
proof -
  have sb: "scan_back es i =
     (case nearest_title es i of
        None \<Rightarrow> Inr None
      | Some t \<Rightarrow> (case eid t of None \<Rightarrow> Inl AttributeError | Some x \<Rightarrow> Inr (Some x)))"
    using assms by (simp add: scan_back_nearest_title)
  show ?thesis
    unfolding reparent_at_def scan_fails_def new_parent_def under_header_def Let_def sb
    by (auto split: option.splits)
qed

lemma reparent_eq_spec:
  "reparent es = (if titles_have_ids es then Inr (reparent_spec es) else Inl AttributeError)"
proof -
  let ?m = "element_map es"
  have eq: "map (reparent_at ?m es) [0..<length es] =
        map (\<lambda>i. if scan_fails ?m es i then Inl AttributeError
                  else Inr (set_parent (es ! i) (new_parent ?m es i))) [0..<length es]"
    by (rule map_cong) (simp_all add: reparent_at_spec)
  show ?thesis
    unfolding reparent_snapshot eq seq_err_map_if
    by (simp add: titles_have_ids_def reparent_spec_def)
qed

lemma reparent_Inr_spec: "reparent es = Inr es' \<Longrightarrow> es' = reparent_spec es \<and> titles_have_ids es"
  by (simp add: reparent_eq_spec split: if_splits)

lemma reparent_spec_length [simp]: "length (reparent_spec es) = length es"
  by (simp add: reparent_spec_def)

lemma reparent_spec_nth:
  "i < length es \<Longrightarrow> reparent_spec es ! i = set_parent (es ! i) (new_parent (element_map es) es i)"
  by (simp add: reparent_spec_def)

lemma reparent_spec_shape: "map shape (reparent_spec es) = map shape es"
  by (rule nth_equalityI) (simp_all add: reparent_spec_nth)

lemma set_map_filter_eid: "set (List.map_filter eid es) = {x. \<exists>e \<in> set es. eid e = Some x}"
  by (induction es) (auto split: option.splits)

lemma unique_ids_filter:
  "unique_ids es \<Longrightarrow> t \<in> set es \<Longrightarrow> eid t = Some x \<Longrightarrow> filter (\<lambda>e. eid e = Some x) es = [t]"
proof (induction es)
  case Nil
  then show ?case by simp
next
  case (Cons a es)
  have dist: "distinct (List.map_filter eid (a # es))"
    using Cons.prems(1) by (simp add: unique_ids_def)
  then have u: "unique_ids es"
    by (simp add: unique_ids_def split: option.splits)
  show ?case
  proof (cases "a = t")
    case True
    with dist Cons.prems(3) have "\<forall>e \<in> set es. eid e \<noteq> Some x"
      by (auto simp: set_map_filter_eid)
    with True Cons.prems(3) show ?thesis by (simp add: filter_empty_conv)
  next
    case False
    with Cons.prems have t: "t \<in> set es" by simp
    with dist Cons.prems(3) have "eid a \<noteq> Some x"
      by (auto simp: set_map_filter_eid)
    with Cons.IH [OF u t Cons.prems(3)] show ?thesis by simp
  qed
qed

lemma element_map_get_unique:
  "unique_ids es \<Longrightarrow> t \<in> set es \<Longrightarrow> eid t = Some x \<Longrightarrow> dict_get (element_map es) x = Some t"
  by (simp add: element_map_def dict_get_element_map_where unique_ids_filter)

lemma element_map_get_shape:
  "map_option shape (dict_get (element_map es) k) =
     (let xs = filter (\<lambda>s. fst s = Some k) (map shape es) in if xs = [] then None else Some (last xs))"
proof -
  have "filter (\<lambda>s. fst s = Some k) (map shape es) = map shape (filter (\<lambda>e. eid e = Some k) es)"
    by (simp add: filter_map o_def shape_def)
  then show ?thesis
    by (simp add: element_map_def dict_get_element_map_where Let_def last_map)
qed

lemma under_header_category:
  "under_header m e \<longleftrightarrow>
     eid e \<noteq> None \<and>
     (case parent_of e of None \<Rightarrow> False
      | Some p \<Rightarrow> p \<noteq> [] \<and> map_option (snd \<circ> shape) (dict_get m p) = Some Header)"
  by (auto simp: under_header_def shape_def split: option.splits)

lemma under_header_shape:
  "map shape es = map shape es' \<Longrightarrow> under_header (element_map es) e = under_header (element_map es') e"
proof -
  assume eq: "map shape es = map shape es'"
  have "map_option (snd \<circ> shape) (dict_get (element_map es) p) =
        map_option (snd \<circ> shape) (dict_get (element_map es') p)" for p
    using element_map_get_shape [of es p] element_map_get_shape [of es' p] eq
    by (metis option.map_comp)
  then show ?thesis unfolding under_header_category by (simp only:)
qed

lemma nearest_title_Some:
  assumes "nearest_title es i = Some t"
  shows "t \<in> set (take i es) \<and> category t = Title"
proof -
  let ?ts = "filter (\<lambda>e. category e = Title) (take i es)"
  from assms have ne: "?ts \<noteq> []" and t: "t = last ?ts"
    by (simp_all add: nearest_title_def Let_def split: if_splits)
  from last_in_set [OF ne] t have "t \<in> set ?ts" by simp
  then show ?thesis by simp
qed

text \<open>After the pass no element with an id is under a header any more.\<close>

lemma reparent_spec_not_under_header:
  assumes u: "unique_ids es" and i: "i < length es"
  shows "\<not> under_header (element_map es) (reparent_spec es ! i)"
proof -
  let ?m = "element_map es"
  show ?thesis
  proof (cases "under_header ?m (es ! i)")
    case False
    then show ?thesis
      using i by (simp add: reparent_spec_nth new_parent_def)
  next
    case True
    show ?thesis
    proof (cases "category (es ! i) = Title \<or> nearest_title es i = None")
      case True
      with \<open>under_header ?m (es ! i)\<close> i show ?thesis
        by (auto simp: reparent_spec_nth new_parent_def under_header_def)
    next
      case False
      then obtain t where t: "nearest_title es i = Some t" and nt: "category (es ! i) \<noteq> Title"
        by auto
      then have tin: "t \<in> set es" and tt: "category t = Title"
        using nearest_title_Some [OF t] by (auto dest: in_set_takeD)
      show ?thesis
      proof (cases "eid t")
        case None
        with True nt t i show ?thesis
          by (simp add: reparent_spec_nth new_parent_def under_header_def)
      next
        case (Some x)
        with u tin have "dict_get ?m x = Some t" by (rule element_map_get_unique)
        with Some True nt t tt i show ?thesis
          by (simp add: reparent_spec_nth new_parent_def under_header_def)
      qed
    qed
  qed
qed

text \<open>C2: The in-place loop, which rewrites each element of the list it is scanning, computes the same result as the two-pass reading of the design notes: every correction computed from a snapshot of the input, the results collected in order, stopping at the first error.\<close>

theorem reparent_two_pass:
  "reparent es = seq_err (map (reparent_at (element_map es) es) [0..<length es])"
  by (rule reparent_snapshot)

text \<open>C1: The structuring pass refines its specification: on every input it either returns the list in which each element under a header has the parent section 4.1 gives it (no parent for a Title, the nearest earlier Title otherwise) and every other element is unchanged, or, exactly when the nearest earlier Title of such an element has no id, raises AttributeError.\<close>

theorem reparent_refines:
  "reparent es = (if titles_have_ids es then Inr (reparent_spec es) else Inl AttributeError)"
  by (rule reparent_eq_spec)

section \<open>The rules of the specification\<close>

lemma reparent_no_header_children:
  "\<forall>i < length es. \<not> under_header (element_map es) (es ! i) \<Longrightarrow> reparent es = Inr es"
proof -
  assume none: "\<forall>i < length es. \<not> under_header (element_map es) (es ! i)"
  then have "titles_have_ids es"
    by (simp add: titles_have_ids_def scan_fails_def)
  moreover have "reparent_spec es = es"
    using none by (intro nth_equalityI) (simp_all add: reparent_spec_nth new_parent_def)
  ultimately show ?thesis by (simp add: reparent_eq_spec)
qed

text \<open>C3: A Title whose parent is a page header has no parent after the pass.\<close>

theorem reparent_title_to_root:
  assumes "reparent es = Inr es'" and "i < length es"
    and "under_header (element_map es) (es ! i)" and "category (es ! i) = Title"
  shows "parent_of (es' ! i) = None"
  using assms by (auto dest!: reparent_Inr_spec simp: reparent_spec_nth new_parent_def)

text \<open>C4: Any other element whose parent is a page header gets, as its new parent, the id of the nearest Title before it in document order, or none when no Title precedes it.\<close>

theorem reparent_to_nearest_title:
  assumes "reparent es = Inr es'" and "i < length es"
    and "under_header (element_map es) (es ! i)" and "category (es ! i) \<noteq> Title"
  shows "parent_of (es' ! i) = (case nearest_title es i of None \<Rightarrow> None | Some t \<Rightarrow> eid t)"
  using assms by (auto dest!: reparent_Inr_spec simp: reparent_spec_nth new_parent_def)

text \<open>C5: An element whose parent is not a page header (no id, no or empty parent id, a parent id naming no element, or a parent that is not a Header) is left exactly as it was.\<close>

theorem reparent_keeps_others:
  assumes "reparent es = Inr es'" and "i < length es"
    and "\<not> under_header (element_map es) (es ! i)"
  shows "es' ! i = es ! i"
  using assms by (auto dest!: reparent_Inr_spec simp: reparent_spec_nth new_parent_def)

text \<open>C6: The pass returns normally exactly when no element under a header has, as its nearest earlier Title, a Title without an id; otherwise it raises.\<close>

theorem reparent_total: "(\<exists>es'. reparent es = Inr es') \<longleftrightarrow> titles_have_ids es"
  by (simp add: reparent_eq_spec)

section \<open>The specification's scenario\<close>

text \<open>
  The input of section 8: the Title under the Header becomes a root and the paragraph
  moves under the Title, the nearest Title before it.
\<close>

lemma reparent_spec_scenario:
  "reparent spec_scenario = Inr
     [node ''1'' Header ''H'' None, node ''2'' Title ''T1'' None,
      node ''3'' NarrativeText ''body'' (Some ''2'')]"
  by (simp add: reparent_eval)

theorem reparent_title_to_root_witness:
  "reparent spec_scenario = Inr
     [node ''1'' Header ''H'' None, node ''2'' Title ''T1'' None,
      node ''3'' NarrativeText ''body'' (Some ''2'')] \<and>
   1 < length spec_scenario \<and> under_header (element_map spec_scenario) (spec_scenario ! 1) \<and>
   category (spec_scenario ! 1) = Title \<and>
   parent_of ([node ''1'' Header ''H'' None, node ''2'' Title ''T1'' None,
      node ''3'' NarrativeText ''body'' (Some ''2'')] ! 1) = None"
proof -
  have h: "under_header (element_map spec_scenario) (spec_scenario ! 1)"
    by (simp add: reparent_eval)
  show ?thesis
    using reparent_title_to_root [OF reparent_spec_scenario, of 1] h reparent_spec_scenario
    by (simp add: element_fixtures)
qed

theorem reparent_to_nearest_title_witness:
  "under_header (element_map spec_scenario) (spec_scenario ! 2) \<and>
   category (spec_scenario ! 2) \<noteq> Title \<and>
   parent_of ([node ''1'' Header ''H'' None, node ''2'' Title ''T1'' None,
      node ''3'' NarrativeText ''body'' (Some ''2'')] ! 2) =
     (case nearest_title spec_scenario 2 of None \<Rightarrow> None | Some t \<Rightarrow> eid t)"
proof -
  have h: "under_header (element_map spec_scenario) (spec_scenario ! 2)"
    by (simp add: reparent_eval)
  show ?thesis
    using reparent_to_nearest_title [OF reparent_spec_scenario, of 2] h
    by (simp add: element_fixtures)
qed

theorem reparent_keeps_others_witness:
  "\<not> under_header (element_map spec_scenario) (spec_scenario ! 0) \<and>
   [node ''1'' Header ''H'' None, node ''2'' Title ''T1'' None,
      node ''3'' NarrativeText ''body'' (Some ''2'')] ! 0 = spec_scenario ! 0"
proof -
  have h: "\<not> under_header (element_map spec_scenario) (spec_scenario ! 0)"
    by (simp add: reparent_eval)
  show ?thesis
    using reparent_keeps_others [OF reparent_spec_scenario, of 0] h
    by (simp add: element_fixtures)
qed

theorem reparent_total_witness: "titles_have_ids spec_scenario"
  using reparent_total [of spec_scenario] reparent_spec_scenario by blast

theorem reparent_refines_witness:
  "reparent spec_scenario = Inr (reparent_spec spec_scenario) \<and> titles_have_ids spec_scenario"
  using reparent_refines [of spec_scenario] reparent_spec_scenario
  by (simp split: if_splits)

end
