(* ===== verification/Forest_Index.thy ===== *)
theory Forest_Index
  imports Reparent
begin

text \<open>
  The parent-to-children index both renderers read (\<open>src/HW-05/parse_file.py\<close>,
  lines 61--64 and 132--136): for every element of the element map, in the map's order,
  \<open>parent_child_map.setdefault(parent_id, []).append(element)\<close>. The key \<open>None\<close>
  collects the roots. \<open>prepare\<close> is the preprocessing of lines 24--59: with
  \<open>ignore_header_footer\<close> the re-parenting pass and the map without Headers and Footers,
  otherwise the map of every element with an id.
\<close>

type_synonym pcmap = "(elem_id option, element list) pydict"

fun index_acc :: "pcmap \<Rightarrow> element list \<Rightarrow> pcmap" where
  "index_acc d [] = d"
| "index_acc d (e # es) = index_acc (dict_append d (parent_of e) e) es"

text \<open>\<open>for element in element_map.values(): ...\<close>\<close>

definition parent_child_map :: "element_map \<Rightarrow> pcmap" where
  "parent_child_map m = index_acc [] (map snd m)"

text \<open>
  Lines 24--59: the element map the index is built from, and the element list as the
  pass leaves it (mutated in place when \<open>ignore_header_footer\<close> is set).
\<close>

definition prepare :: "bool \<Rightarrow> element list \<Rightarrow> py_error + element list \<times> element_map" where
  "prepare ignore es =
     (if ignore then bind_err (reparent es) (\<lambda>es'. Inr (es', element_map_kept es'))
      else Inr (es, element_map es))"

text \<open>The children list of a key, \<open>parent_child_map.get(key, [])\<close>.\<close>

definition children :: "pcmap \<Rightarrow> elem_id option \<Rightarrow> element list" where
  "children pcm k = dict_get_default pcm k []"

text \<open>The elements an index built with exclusion may hold.\<close>

definition kept :: "bool \<Rightarrow> element \<Rightarrow> bool" where
  "kept ignore e \<longleftrightarrow> eid e \<noteq> None \<and> (ignore \<longrightarrow> \<not> is_header_footer (category e))"

text \<open>A key of the index that no element of the map carries as its id: its children are
  reachable from no root.\<close>

definition orphan_key :: "element_map \<Rightarrow> elem_id \<Rightarrow> bool" where
  "orphan_key m k \<longleftrightarrow> (\<forall>v \<in> set (map snd m). eid v \<noteq> Some k)"

text \<open>A paragraph whose parent is a page footer.\<close>

definition footer_example :: "element list" where
  "footer_example = [node ''f'' Footer ''F'' None, node ''p'' NarrativeText ''x'' (Some ''f'')]"

lemmas forest_eval = prepare_def parent_child_map_def element_map_kept_def children_def
  dict_get_default_def is_header_footer_def orphan_key_def footer_example_def

section \<open>Lemmas\<close>

lemma map_of_index_acc:
  "map_of (index_acc d vs) p =
     (let ys = filter (\<lambda>e. parent_of e = p) vs
      in case map_of d p of None \<Rightarrow> (if ys = [] then None else Some ys) | Some xs \<Rightarrow> Some (xs @ ys))"
  by (induction vs arbitrary: d) (auto simp: Let_def split: option.splits)

lemma children_parent_child_map:
  "children (parent_child_map m) p = filter (\<lambda>e. parent_of e = p) (map snd m)"
  by (simp add: children_def dict_get_default_def parent_child_map_def map_of_index_acc Let_def)

lemma keys_index_acc:
  "k \<in> set (map fst (index_acc d vs)) \<Longrightarrow> k \<in> set (map fst d) \<or> (\<exists>e \<in> set vs. parent_of e = k)"
proof (induction vs arbitrary: d)
  case Nil
  then show ?case by simp
next
  case (Cons e vs)
  from Cons.prems have "k \<in> set (map fst (index_acc (dict_append d (parent_of e) e) vs))"
    by simp
  then have "k \<in> set (map fst (dict_append d (parent_of e) e)) \<or> (\<exists>e \<in> set vs. parent_of e = k)"
    by (rule Cons.IH)
  then show ?case by (auto split: if_splits)
qed

lemma parent_child_map_key:
  "(k, xs) \<in> set (parent_child_map m) \<Longrightarrow> \<exists>e \<in> set (map snd m). parent_of e = k"
proof -
  assume "(k, xs) \<in> set (parent_child_map m)"
  then have "k \<in> set (map fst (index_acc [] (map snd m)))"
    by (force simp: parent_child_map_def)
  with keys_index_acc [of k "[]" "map snd m"] show ?thesis by simp
qed

lemma parent_child_map_value:
  "(k, xs) \<in> set (parent_child_map m) \<Longrightarrow> xs = children (parent_child_map m) k"
proof -
  assume mem: "(k, xs) \<in> set (parent_child_map m)"
  have "distinct (map fst (parent_child_map m))"
  proof -
    have "distinct (map fst d) \<Longrightarrow> distinct (map fst (index_acc d vs))" for d vs
      by (induction vs arbitrary: d) simp_all
    then show ?thesis by (simp add: parent_child_map_def)
  qed
  with mem show ?thesis by (simp add: children_def dict_get_default_def)
qed

lemma element_map_acc_mem:
  assumes "\<forall>v \<in> set (map snd d). v \<in> set es0 \<and> eid v \<noteq> None \<and> P v" and "set es \<subseteq> set es0"
    and "v \<in> set (map snd (element_map_acc P d es))"
  shows "v \<in> set es0 \<and> eid v \<noteq> None \<and> P v"
  using assms
proof (induction es arbitrary: d)
  case Nil
  then show ?case by force
next
  case (Cons a es)
  have "\<forall>v \<in> set (map snd (dict_set d i a)). v \<in> set es0 \<and> eid v \<noteq> None \<and> P v"
    if "eid a = Some i" "P a" for i
    using Cons.prems(1,2) that set_dict_set [of d i a] by fastforce
  with Cons show ?case by (auto split: option.splits if_splits)
qed

lemma element_map_where_mem:
  "e \<in> set (map snd (element_map_where P es)) \<Longrightarrow> e \<in> set es \<and> eid e \<noteq> None \<and> P e"
  unfolding element_map_where_def by (rule element_map_acc_mem) simp_all

lemma element_map_where_pair_mem:
  "(k, e) \<in> set (element_map_where P es) \<Longrightarrow> e \<in> set es \<and> eid e \<noteq> None \<and> P e"
  by (rule element_map_where_mem) force

lemma unique_ids_shape: "map shape es = map shape es' \<Longrightarrow> unique_ids es = unique_ids es'"
proof -
  have "List.map_filter eid xs = List.map_filter fst (map shape xs)" for xs
    by (induction xs) (simp_all add: shape_def split: option.splits)
  then show "map shape es = map shape es' \<Longrightarrow> unique_ids es = unique_ids es'"
    by (simp add: unique_ids_def)
qed

lemma element_map_acc_cong:
  "(\<And>e. eid e \<noteq> None \<Longrightarrow> P e = Q e) \<Longrightarrow> element_map_acc P d es = element_map_acc Q d es"
  by (induction es arbitrary: d) (auto split: option.splits)

lemma element_map_kept_eq:
  "element_map_where (kept ignore) es = (if ignore then element_map_kept es else element_map es)"
  unfolding element_map_kept_def element_map_def element_map_where_def
  by (cases ignore) (auto intro!: element_map_acc_cong simp: kept_def)

lemma prepare_Inr:
  assumes "prepare ignore es = Inr (es', m)"
  shows "map shape es' = map shape es \<and> m = element_map_where (kept ignore) es'"
  using assms
  by (auto simp: prepare_def bind_err_Inr_iff element_map_kept_eq dest!: reparent_Inr_spec
      intro: reparent_spec_shape split: if_splits)

lemma unique_ids_prepare:
  "prepare ignore es = Inr (es', m) \<Longrightarrow> unique_ids es' = unique_ids es"
  by (metis prepare_Inr unique_ids_shape)

lemma prepare_index_mem:
  assumes "prepare ignore es = Inr (es', m)" and "(k, xs) \<in> set (parent_child_map m)" and "e \<in> set xs"
  shows "e \<in> set es' \<and> kept ignore e \<and> parent_of e = k"
proof -
  from assms(2) have "xs = children (parent_child_map m) k"
    by (rule parent_child_map_value)
  also have "\<dots> = filter (\<lambda>e. parent_of e = k) (map snd m)"
    by (rule children_parent_child_map)
  finally have "xs = filter (\<lambda>e. parent_of e = k) (map snd m)" .
  with assms(3) have "e \<in> set (map snd m)" and "parent_of e = k" by auto
  with prepare_Inr [OF assms(1)] show ?thesis by (auto dest: element_map_where_pair_mem)
qed

lemma unique_ids_same:
  "unique_ids es \<Longrightarrow> a \<in> set es \<Longrightarrow> b \<in> set es \<Longrightarrow> eid a = Some k \<Longrightarrow> eid b = Some k \<Longrightarrow> a = b"
proof -
  assume u: "unique_ids es" and a: "a \<in> set es" and b: "b \<in> set es"
    and ak: "eid a = Some k" and bk: "eid b = Some k"
  from u a ak have "filter (\<lambda>e. eid e = Some k) es = [a]" by (rule unique_ids_filter)
  moreover from b bk have "b \<in> set (filter (\<lambda>e. eid e = Some k) es)" by simp
  ultimately show "a = b" by simp
qed

section \<open>Properties of the index\<close>

lemma children_prepare:
  assumes "unique_ids es" and "prepare ignore es = Inr (es', m)"
  shows "children (parent_child_map m) p = filter (\<lambda>e. kept ignore e \<and> parent_of e = p) es'"
proof -
  from assms have u: "unique_ids es'" by (simp add: unique_ids_prepare)
  have "map snd m = filter (\<lambda>e. eid e \<noteq> None \<and> kept ignore e) es'"
    using prepare_Inr [OF assms(2)] element_map_where_values [OF u] by simp
  then show ?thesis
    by (simp add: children_parent_child_map kept_def conj_ac)
qed

text \<open>C7: The children of every key, in the index the renderers read, are exactly the kept
  elements with that parent, in their order in the element list: sibling order is document
  order.\<close>

theorem forest_children_order:
  assumes "unique_ids es" and "prepare ignore es = Inr (es', m)"
  shows "children (parent_child_map m) p = filter (\<lambda>e. kept ignore e \<and> parent_of e = p) es'"
  using assms by (rule children_prepare)

text \<open>C8: With exclusion enabled, no Header or Footer is a member of any children list of the
  index, and every member is an element of the (corrected) input.\<close>

theorem forest_excludes_header_footer:
  assumes "prepare True es = Inr (es', m)" and "(k, xs) \<in> set (parent_child_map m)" and "e \<in> set xs"
  shows "\<not> is_header_footer (category e) \<and> e \<in> set es'"
  using prepare_index_mem [OF assms] by (simp add: kept_def)

text \<open>C9: With exclusion enabled and unique ids, no non-empty key of the index is the id of a
  Header: every element that hung under a header has been moved.\<close>

theorem forest_no_header_key:
  assumes u: "unique_ids es" and p: "prepare True es = Inr (es', m)"
    and key: "(Some k, xs) \<in> set (parent_child_map m)" and ne: "k \<noteq> []"
    and h: "h \<in> set es'" and hk: "eid h = Some k"
  shows "category h \<noteq> Header"
proof -
  from p obtain r where r: "reparent es = Inr es'" and m: "m = element_map_kept es'"
    by (auto simp: prepare_def bind_err_Inr_iff)
  from r have es': "es' = reparent_spec es" by (simp add: reparent_Inr_spec)
  have shapes: "map shape es = map shape es'" by (simp add: es' reparent_spec_shape)
  from key obtain e where e: "e \<in> set (map snd m)" and pe: "parent_of e = Some k"
    by (auto dest: parent_child_map_key)
  have "e \<in> set es' \<and> eid e \<noteq> None"
    using e m element_map_where_mem [of e "\<lambda>e. \<not> is_header_footer (category e)" es']
    by (simp add: element_map_kept_def)
  then have "e \<in> set es'" and eid: "eid e \<noteq> None" by simp_all
  then obtain i where i: "i < length es" and ei: "e = reparent_spec es ! i"
    by (auto simp: es' in_set_conv_nth)
  have "\<not> under_header (element_map es') e"
    using reparent_spec_not_under_header [OF u i] under_header_shape [OF shapes] ei by simp
  moreover have "dict_get (element_map es') k = Some h"
  proof -
    have "unique_ids es'" using u shapes unique_ids_shape by blast
    then show ?thesis using h hk by (rule element_map_get_unique)
  qed
  ultimately show ?thesis using eid pe ne by (simp add: under_header_def)
qed

text \<open>C10: A kept element whose parent is a Footer stays keyed under the Footer's id, which the
  index holds no element for: the exclusion of Footers orphans their children, where the
  specification expects the rest of the hierarchy to be preserved.\<close>

theorem forest_footer_children_orphaned:
  assumes "unique_ids es" and "prepare True es = Inr (es', m)"
    and "f \<in> set es'" and "category f = Footer" and "eid f = Some k"
    and "e \<in> set es'" and "kept True e" and "parent_of e = Some k"
  shows "e \<in> set (children (parent_child_map m) (Some k)) \<and> orphan_key m k"
proof -
  have u: "unique_ids es'" using assms(1,2) by (simp add: unique_ids_prepare)
  have m: "m = element_map_where (kept True) es'" using prepare_Inr [OF assms(2)] by simp
  have "eid v \<noteq> Some k" if v: "v \<in> set (map snd m)" for v
  proof
    assume vk: "eid v = Some k"
    from v m have "v \<in> set es'" and "kept True v" by (auto dest: element_map_where_pair_mem)
    with u assms(3,5) vk have "v = f" by (metis unique_ids_same)
    with \<open>kept True v\<close> assms(4) show False by (simp add: kept_def is_header_footer_def)
  qed
  then show ?thesis
    using children_prepare [OF assms(1,2)] assms(6-8) by (auto simp: orphan_key_def)
qed

text \<open>C11: An element whose parent id names no element at all is not a root, as the
  specification's error handling says it should be: it is keyed under the missing id, an
  orphan key.\<close>

theorem forest_dangling_parent:
  assumes "unique_ids es" and "prepare ignore es = Inr (es', m)"
    and "e \<in> set es'" and "kept ignore e" and "parent_of e = Some p" and "\<forall>h \<in> set es. eid h \<noteq> Some p"
  shows "e \<notin> set (children (parent_child_map m) None) \<and>
         e \<in> set (children (parent_child_map m) (Some p)) \<and> orphan_key m p"
proof -
  have "map shape es' = map shape es" using prepare_Inr [OF assms(2)] by simp
  then have "\<forall>h \<in> set es'. eid h \<noteq> Some p"
    using assms(6) by (metis (no_types, lifting) imageE image_eqI list.set_map prod.inject shape_def)
  moreover have "v \<in> set (map snd m) \<Longrightarrow> v \<in> set es'" for v
    using prepare_Inr [OF assms(2)] by (auto dest: element_map_where_pair_mem)
  ultimately show ?thesis
    using children_prepare [OF assms(1,2)] assms(3-5) by (auto simp: orphan_key_def)
qed

section \<open>Witnesses\<close>

lemma footer_example_prepare:
  "prepare True footer_example = Inr (footer_example, element_map_kept footer_example)"
proof -
  have "reparent footer_example = Inr footer_example"
    by (simp add: reparent_eval footer_example_def)
  then show ?thesis by (simp add: prepare_def)
qed

lemma spec_scenario_prepare:
  "prepare True spec_scenario =
     Inr ([node ''1'' Header ''H'' None, node ''2'' Title ''T1'' None,
           node ''3'' NarrativeText ''body'' (Some ''2'')],
          element_map_kept [node ''1'' Header ''H'' None, node ''2'' Title ''T1'' None,
           node ''3'' NarrativeText ''body'' (Some ''2'')])"
  by (simp add: reparent_spec_scenario prepare_def)

lemma unique_ids_spec_scenario: "unique_ids spec_scenario"
  by (simp add: unique_ids_def element_fixtures)

lemma unique_ids_footer_example: "unique_ids footer_example"
  by (simp add: unique_ids_def footer_example_def element_fixtures)

theorem forest_children_order_witness:
  "children (parent_child_map (element_map_kept [node ''1'' Header ''H'' None, node ''2'' Title ''T1'' None,
           node ''3'' NarrativeText ''body'' (Some ''2'')])) (Some (py ''2'')) =
   [node ''3'' NarrativeText ''body'' (Some ''2'')]"
  using forest_children_order [OF unique_ids_spec_scenario spec_scenario_prepare, of "Some (py ''2'')"]
  by (simp add: kept_def is_header_footer_def reparent_eval)

theorem forest_excludes_header_footer_witness:
  "\<not> is_header_footer (category (node ''2'' Title ''T1'' None))"
  using forest_excludes_header_footer [OF spec_scenario_prepare, of None "[node ''2'' Title ''T1'' None]"]
  by (simp add: forest_eval reparent_eval)

theorem forest_no_header_key_witness:
  "category (node ''2'' Title ''T1'' None) \<noteq> Header"
  using forest_no_header_key [OF unique_ids_spec_scenario spec_scenario_prepare,
      of "py ''2''" "[node ''3'' NarrativeText ''body'' (Some ''2'')]" "node ''2'' Title ''T1'' None"]
  by (simp add: forest_eval reparent_eval)

theorem forest_footer_children_orphaned_witness:
  "node ''p'' NarrativeText ''x'' (Some ''f'') \<in>
     set (children (parent_child_map (element_map_kept footer_example)) (Some (py ''f''))) \<and>
   orphan_key (element_map_kept footer_example) (py ''f'')"
  using forest_footer_children_orphaned [OF unique_ids_footer_example footer_example_prepare,
      of "node ''f'' Footer ''F'' None" "py ''f''" "node ''p'' NarrativeText ''x'' (Some ''f'')"]
  by (simp add: footer_example_def kept_def is_header_footer_def reparent_eval)

theorem forest_dangling_parent_witness:
  "node ''p'' NarrativeText ''x'' (Some ''f'') \<notin>
     set (children (parent_child_map (element_map_kept [node ''p'' NarrativeText ''x'' (Some ''f'')])) None)"
proof -
  have p: "prepare True [node ''p'' NarrativeText ''x'' (Some ''f'')] =
     Inr ([node ''p'' NarrativeText ''x'' (Some ''f'')], element_map_kept [node ''p'' NarrativeText ''x'' (Some ''f'')])"
    by (simp add: prepare_def reparent_eval)
  have u: "unique_ids [node ''p'' NarrativeText ''x'' (Some ''f'')]"
    by (simp add: unique_ids_def element_fixtures)
  show ?thesis
    using forest_dangling_parent [OF u p, of "node ''p'' NarrativeText ''x'' (Some ''f'')" "py ''f''"]
    by (simp add: kept_def is_header_footer_def reparent_eval)
qed

end
