(* ===== verification/Forest_Paths.thy ===== *)
theory Forest_Paths
  imports Forest_Index
begin

text \<open>
  Why both renderers' recursions over the index end. Each renders a node, then recurses
  into \<open>parent_child_map.get(node.id, [])\<close>; a run of the recursion follows a path from a
  root down child links. Because the element map has one element per id and every element
  has one parent link, such a path never repeats a node, so it is no longer than the map,
  and a fuel (recursion budget) of the map's size is always enough. This holds for every
  input, cycles in the parent links included: a cycle is never reachable from a root.
\<close>

text \<open>
  An element map as the dictionary comprehension builds it: distinct keys, each the id of
  its value.
\<close>

definition well_keyed :: "element_map \<Rightarrow> bool" where
  "well_keyed m \<longleftrightarrow> distinct (map fst m) \<and> (\<forall>(k, v) \<in> set m. eid v = Some k)"

text \<open>
  A path of the recursion: a root, then a child of the previous node at each step. On such
  a path no node repeats, so it is no longer than the map.
\<close>

definition is_chain :: "element_map \<Rightarrow> element list \<Rightarrow> bool" where
  "is_chain m path \<longleftrightarrow>
     path \<noteq> [] \<and> distinct path \<and> set path \<subseteq> set (map snd m) \<and> parent_of (hd path) = None \<and>
     (\<forall>j. Suc j < length path \<longrightarrow> parent_of (path ! Suc j) = eid (path ! j))"

section \<open>Lemmas\<close>

lemma well_keyed_element_map_where: "well_keyed (element_map_where P es)"
proof -
  have "distinct (map fst d) \<Longrightarrow> distinct (map fst (element_map_acc P d es))" for d
    by (induction es arbitrary: d) (auto split: option.splits)
  then show ?thesis
    by (auto simp: well_keyed_def element_map_where_def intro: element_map_where_keys [unfolded element_map_where_def])
qed

lemma length_element_map_where: "length (element_map_where P es) \<le> length es"
proof -
  have "length (element_map_acc P d es) \<le> length d + length es" for d
  proof (induction es arbitrary: d)
    case Nil
    then show ?case by simp
  next
    case (Cons e es)
    have len: "length (dict_set d i e) \<le> Suc (length d)" for d i
      by (induction d) auto
    show ?case
    proof (cases "eid e")
      case None
      with Cons.IH [of d] show ?thesis by simp
    next
      case (Some i)
      with Cons.IH [of d] Cons.IH [of "dict_set d i e"] len [of d i] show ?thesis by simp
    qed
  qed
  from this [of "[]"] show ?thesis by (simp add: element_map_where_def)
qed

lemma well_keyed_eid_inj:
  assumes "well_keyed m" and "a \<in> set (map snd m)" and "b \<in> set (map snd m)" and "eid a = eid b"
  shows "a = b"
proof -
  from assms(2) obtain k where ka: "(k, a) \<in> set m" by auto
  from assms(3) obtain k' where kb: "(k', b) \<in> set m" by auto
  have "eid a = Some k" and "eid b = Some k'" using assms(1) ka kb by (auto simp: well_keyed_def)
  with assms(4) have "k = k'" by simp
  with assms(1) ka kb show ?thesis by (auto simp: well_keyed_def intro: eq_key_imp_eq_value)
qed

lemma well_keyed_eid: "well_keyed m \<Longrightarrow> a \<in> set (map snd m) \<Longrightarrow> eid a \<noteq> None"
  by (auto simp: well_keyed_def)

lemma is_chain_length: "is_chain m path \<Longrightarrow> length path \<le> length m"
proof -
  assume c: "is_chain m path"
  then have "length path = card (set path)" by (simp add: is_chain_def distinct_card)
  also have "\<dots> \<le> card (set (map snd m))" using c by (simp add: is_chain_def card_mono)
  also have "\<dots> \<le> length m" using card_length [of "map snd m"] by simp
  finally show ?thesis .
qed

lemma is_chain_extend:
  assumes wk: "well_keyed m" and c: "is_chain m path"
    and child: "x \<in> set (children (parent_child_map m) (eid (last path)))"
  shows "is_chain m (path @ [x])"
proof -
  have ne: "path \<noteq> []" using c by (simp add: is_chain_def)
  from child have xm: "x \<in> set (map snd m)" and px: "parent_of x = eid (last path)"
    by (simp_all add: children_parent_child_map)
  have last_in: "last path \<in> set (map snd m)" using c ne by (auto simp: is_chain_def)
  have "x \<notin> set path"
  proof
    assume "x \<in> set path"
    then obtain j where j: "j < length path" and xj: "path ! j = x" by (auto simp: in_set_conv_nth)
    show False
    proof (cases j)
      case 0
      with xj ne c have "parent_of x = None" by (simp add: is_chain_def hd_conv_nth)
      with px well_keyed_eid [OF wk last_in] show False by simp
    next
      case (Suc j')
      from c have "\<forall>j. Suc j < length path \<longrightarrow> parent_of (path ! Suc j) = eid (path ! j)"
        by (simp add: is_chain_def)
      with Suc j xj have "parent_of x = eid (path ! j')" by blast
      with px have "eid (path ! j') = eid (last path)" by simp
      moreover have "path ! j' \<in> set (map snd m)" using c Suc j by (auto simp: is_chain_def)
      ultimately have "path ! j' = last path" using wk last_in by (blast intro: well_keyed_eid_inj)
      then have "path ! j' = path ! (length path - 1)" using ne by (simp add: last_conv_nth)
      then have "j' = length path - 1" using c Suc j by (simp add: is_chain_def nth_eq_iff_index_eq)
      with Suc j show False by simp
    qed
  qed
  moreover have "\<forall>j. Suc j < length (path @ [x]) \<longrightarrow>
      parent_of ((path @ [x]) ! Suc j) = eid ((path @ [x]) ! j)"
  proof (intro allI impI)
    fix j assume "Suc j < length (path @ [x])"
    then consider "Suc j < length path" | "Suc j = length path" by fastforce
    then show "parent_of ((path @ [x]) ! Suc j) = eid ((path @ [x]) ! j)"
    proof cases
      case 1
      with c show ?thesis by (simp add: is_chain_def nth_append)
    next
      case 2
      then have "j = length path - 1" by simp
      with 2 px ne show ?thesis by (simp add: nth_append last_conv_nth)
    qed
  qed
  ultimately show ?thesis using c xm ne by (simp add: is_chain_def)
qed


lemma is_chain_root: "r \<in> set (children (parent_child_map m) None) \<Longrightarrow> is_chain m [r]"
  by (simp add: is_chain_def children_parent_child_map)

text \<open>The map a successful preprocessing hands to the renderers: well keyed, and no larger
  than the input.\<close>

lemma prepare_map_bound:
  assumes "prepare ignore es = Inr (es', m)"
  shows "well_keyed m \<and> length m \<le> length es"
proof -
  from prepare_Inr [OF assms] have m: "m = element_map_where (kept ignore) es'"
    and len: "length es' = length es" by (auto dest: map_eq_imp_length_eq)
  then show ?thesis
    using length_element_map_where [of "kept ignore" es'] well_keyed_element_map_where by simp
qed

lemma prepare_ok:
  "(\<exists>r. prepare ignore es = Inr r) \<longleftrightarrow> (ignore \<longrightarrow> titles_have_ids es)"
  by (simp add: prepare_def reparent_eq_spec)

text \<open>The index both renderers build for a single kept root.\<close>

lemma single_root_index:
  assumes "eid r = Some i" and "parent_of r = None" and "kept ignore r"
  shows "prepare ignore [r] = Inr ([r], [(i, r)])" and "parent_child_map [(i, r)] = [(None, [r])]"
    and "children [(None, [r])] (Some i) = []" and "children [(None, [r])] None = [r]"
proof -
  have "prepare ignore [r] = Inr ([r], element_map_where (kept ignore) [r])"
  proof (cases ignore)
    case True
    have "reparent [r] = Inr [r]"
      using assms(2) by (intro reparent_no_header_children) (simp add: under_header_def)
    with True show ?thesis by (simp add: prepare_def element_map_kept_eq)
  next
    case False
    then show ?thesis by (simp add: prepare_def element_map_kept_eq)
  qed
  moreover have "element_map_where (kept ignore) [r] = [(i, r)]"
    using assms(1,3) by (simp add: element_map_where_def)
  ultimately show "prepare ignore [r] = Inr ([r], [(i, r)])" by simp
  show "parent_child_map [(i, r)] = [(None, [r])]"
    using assms(2) by (simp add: parent_child_map_def)
  show "children [(None, [r])] (Some i) = []" and "children [(None, [r])] None = [r]"
    by (simp_all add: children_def dict_get_default_def)
qed

lemma titles_have_ids_spec_scenario: "titles_have_ids spec_scenario"
  using reparent_Inr_spec [OF reparent_spec_scenario] by simp

end
