(* ===== verification/Tree_Text.thy ===== *)
theory Tree_Text
  imports Forest_Paths
begin

text \<open>
  The tree-text renderer of \<open>elements_to_visual_tree\<close> (\<open>src/HW-05/parse_file.py\<close>,
  lines 66--93): \<open>_build_node\<close> prints one line for an element, box-drawing connector
  and bracketed category first, then renders its children with a longer prefix, splits
  each child's string at newlines and joins all lines again; the roots are rendered in
  order and joined. The recursion is a Python recursion: it is given a fuel argument, the
  number of \<open>_build_node\<close> frames Python still allows, and running out is a
  \<open>RecursionError\<close>. The theorems show that the fuel never runs out when it is at least
  the number of elements, whatever the input.
\<close>

section \<open>One line\<close>

definition max_length :: nat where
  "max_length = 45"

text \<open>Lines 71--72: newlines become spaces, the text is stripped and cut at 45 code points.\<close>

definition display_text :: "pystr \<Rightarrow> pystr" where
  "display_text t =
     (let raw_text = py_strip (py_replace nl [32] t)
      in if length raw_text > max_length then take max_length raw_text @ py ''...'' else raw_text)"

text \<open>Line 73: \<open>f"[{element.category}] {display_text}"\<close>.\<close>

definition node_line :: "element \<Rightarrow> pystr" where
  "node_line e = py ''['' @ category_name (category e) @ py ''] '' @ display_text (etext e)"

text \<open>
  The connectors of lines 76 and 79, as code points: U+2514 U+2500 U+2500 and a space for
  the last sibling, U+251C U+2500 U+2500 and a space otherwise; the continuation is four
  spaces below a last sibling and U+2502 with three spaces otherwise.
\<close>

definition connector :: "bool \<Rightarrow> pystr" where
  "connector is_last = (if is_last then [9492, 9472, 9472, 32] else [9500, 9472, 9472, 32])"

definition extension :: "bool \<Rightarrow> pystr" where
  "extension is_last = (if is_last then [32, 32, 32, 32] else [9474, 32, 32, 32])"

section \<open>The recursion\<close>

text \<open>
  \<open>_build_node(element, prefix, is_last)\<close> with \<open>fuel\<close> frames left, and the loop
  \<open>for i, child in enumerate(children)\<close> over its children (\<open>i == len(children)-1\<close>
  holds exactly for the child with no successor). \<open>parent_child_map.get(element.id, [])\<close>
  reads \<open>.id\<close>, which raises for an element without one.
\<close>

fun build_node :: "nat \<Rightarrow> pcmap \<Rightarrow> element \<Rightarrow> pystr \<Rightarrow> bool \<Rightarrow> py_error + pystr"
and build_children :: "nat \<Rightarrow> pcmap \<Rightarrow> pystr \<Rightarrow> element list \<Rightarrow> py_error + pystr list" where
  "build_node 0 pcm e prefix is_last = Inl RecursionError"
| "build_node (Suc fuel) pcm e prefix is_last =
     (case eid e of
        None \<Rightarrow> Inl AttributeError
      | Some i \<Rightarrow>
          bind_err (build_children fuel pcm (prefix @ extension is_last) (children pcm (Some i)))
            (\<lambda>child_lines. Inr (py_join [nl] ((prefix @ connector is_last @ node_line e) # child_lines))))"
| "build_children fuel pcm prefix [] = Inr []"
| "build_children fuel pcm prefix (c # cs) =
     bind_err (build_node fuel pcm c prefix (cs = []))
       (\<lambda>s. bind_err (build_children fuel pcm prefix cs) (\<lambda>rest. Inr (py_split nl s @ rest)))"

text \<open>Lines 88--91: every root, \<open>is_last\<close> for the last one; the strings are collected.\<close>

fun build_roots :: "nat \<Rightarrow> pcmap \<Rightarrow> element list \<Rightarrow> py_error + pystr list" where
  "build_roots fuel pcm [] = Inr []"
| "build_roots fuel pcm (r # rs) =
     bind_err (build_node fuel pcm r [] (rs = []))
       (\<lambda>s. bind_err (build_roots fuel pcm rs) (\<lambda>ss. Inr (s # ss)))"

text \<open>
  The whole function: preprocessing, index, rendering, \<open>'\n'.join(full_output)\<close>. It
  also returns the element list, which the Python has mutated in place for its caller.
\<close>

definition elements_to_visual_tree ::
  "nat \<Rightarrow> element list \<Rightarrow> bool \<Rightarrow> py_error + pystr \<times> element list" where
  "elements_to_visual_tree fuel es ignore_header_footer =
     bind_err (prepare ignore_header_footer es)
       (\<lambda>(es', m). let pcm = parent_child_map m in
          bind_err (build_roots fuel pcm (children pcm None))
            (\<lambda>full_output. Inr (py_join [nl] full_output, es')))"

section \<open>The reference rendering: lists of lines\<close>

text \<open>
  The same traversal collecting lines in a list, without joining and splitting strings:
  what the code's \<open>'\n'.join\<close> and \<open>split('\n')\<close> are meant to compute.
\<close>

fun node_lines :: "nat \<Rightarrow> pcmap \<Rightarrow> element \<Rightarrow> pystr \<Rightarrow> bool \<Rightarrow> py_error + pystr list"
and children_lines :: "nat \<Rightarrow> pcmap \<Rightarrow> pystr \<Rightarrow> element list \<Rightarrow> py_error + pystr list" where
  "node_lines 0 pcm e prefix is_last = Inl RecursionError"
| "node_lines (Suc fuel) pcm e prefix is_last =
     (case eid e of
        None \<Rightarrow> Inl AttributeError
      | Some i \<Rightarrow>
          bind_err (children_lines fuel pcm (prefix @ extension is_last) (children pcm (Some i)))
            (\<lambda>ls. Inr ((prefix @ connector is_last @ node_line e) # ls)))"
| "children_lines fuel pcm prefix [] = Inr []"
| "children_lines fuel pcm prefix (c # cs) =
     bind_err (node_lines fuel pcm c prefix (cs = []))
       (\<lambda>ls. bind_err (children_lines fuel pcm prefix cs) (\<lambda>rest. Inr (ls @ rest)))"

lemmas tree_text_eval = display_text_def node_line_def connector_def extension_def max_length_def
  elements_to_visual_tree_def

section \<open>Lemmas: lines\<close>

lemma nl_notin_category_name [simp]: "nl \<notin> set (category_name c)"
  by (cases c) (simp_all add: py_def)

lemma nl_notin_display_text [simp]: "nl \<notin> set (display_text t)"
proof -
  have "nl \<notin> set (py_replace nl [32] t)" by (rule py_replace_removes) simp
  then have "nl \<notin> set (py_strip (py_replace nl [32] t))" using set_py_strip by blast
  then show ?thesis by (auto simp: display_text_def Let_def py_def dest: in_set_takeD)
qed

lemma nl_notin_node_line [simp]: "nl \<notin> set (node_line e)"
  by (simp add: node_line_def py_def)

lemma nl_notin_connector [simp]: "nl \<notin> set (connector b)"
  by (simp add: connector_def)

lemma nl_notin_extension [simp]: "nl \<notin> set (extension b)"
  by (simp add: extension_def)

lemma length_display_text: "length (display_text t) \<le> max_length + 3"
proof -
  let ?raw = "py_strip (py_replace nl [32] t)"
  show ?thesis
    by (cases "length ?raw > max_length") (simp_all add: display_text_def Let_def py_def)
qed

lemma build_node_lines:
  "nl \<notin> set p \<Longrightarrow>
     build_node fuel pcm e p b = map_sum id (py_join [nl]) (node_lines fuel pcm e p b) \<and>
     (\<forall>ls. node_lines fuel pcm e p b = Inr ls \<longrightarrow> ls \<noteq> [] \<and> (\<forall>l \<in> set ls. nl \<notin> set l))"
  "nl \<notin> set p \<Longrightarrow>
     build_children fuel pcm p cs = children_lines fuel pcm p cs \<and>
     (\<forall>ls. children_lines fuel pcm p cs = Inr ls \<longrightarrow> (\<forall>l \<in> set ls. nl \<notin> set l))"
proof (induction fuel pcm e p b and fuel pcm p cs rule: build_node_build_children.induct)
  case (1 pcm e prefix is_last)
  then show ?case by simp
next
  case (2 fuel pcm e prefix is_last)
  show ?case
  proof (cases "eid e")
    case None
    then show ?thesis by simp
  next
    case (Some i)
    have "nl \<notin> set (prefix @ extension is_last)" using "2.prems" by simp
    with "2.IH" [OF Some] show ?thesis
      using Some "2.prems" by (auto simp: bind_err_def split: sum.splits)
  qed
next
  case (3 fuel pcm prefix)
  then show ?case by simp
next
  case (4 fuel pcm prefix c cs)
  show ?case
  proof (cases "node_lines fuel pcm c prefix (cs = [])")
    case (Inl err)
    with "4.IH"(1) [OF "4.prems"] show ?thesis by simp
  next
    case (Inr ls)
    with "4.IH"(1) [OF "4.prems"] have b: "build_node fuel pcm c prefix (cs = []) = Inr (py_join [nl] ls)"
      and ls: "ls \<noteq> []" "\<forall>l \<in> set ls. nl \<notin> set l" by auto
    from ls have split: "py_split nl (py_join [nl] ls) = ls" by (rule py_split_join)
    have IH2: "build_children fuel pcm prefix cs = children_lines fuel pcm prefix cs \<and>
        (\<forall>ls. children_lines fuel pcm prefix cs = Inr ls \<longrightarrow> (\<forall>l \<in> set ls. nl \<notin> set l))"
      using "4.IH"(2) [OF "4.prems"] .
    show ?thesis
      using Inr b split ls IH2 by (auto simp: bind_err_def split: sum.splits)
  qed
qed

section \<open>Lemmas: the recursion returns\<close>

lemma build_children_ok:
  "\<forall>c \<in> set cs. \<forall>b. \<exists>s. build_node fuel pcm c p b = Inr s \<Longrightarrow> \<exists>ls. build_children fuel pcm p cs = Inr ls"
proof (induction cs)
  case Nil
  then show ?case by simp
next
  case (Cons c cs)
  then have "\<exists>s. build_node fuel pcm c p (cs = []) = Inr s" by simp
  then obtain s where "build_node fuel pcm c p (cs = []) = Inr s" by blast
  with Cons show ?case by auto
qed

lemma build_roots_ok:
  "\<forall>c \<in> set rs. \<forall>b. \<exists>s. build_node fuel pcm c [] b = Inr s \<Longrightarrow> \<exists>ss. build_roots fuel pcm rs = Inr ss"
proof (induction rs)
  case Nil
  then show ?case by simp
next
  case (Cons r rs)
  then have "\<exists>s. build_node fuel pcm r [] (rs = []) = Inr s" by simp
  then obtain s where "build_node fuel pcm r [] (rs = []) = Inr s" by blast
  with Cons show ?case by auto
qed

lemma build_node_enough_fuel:
  "well_keyed m \<Longrightarrow> is_chain m path \<Longrightarrow> length m < length path + fuel \<Longrightarrow>
     \<exists>s. build_node fuel (parent_child_map m) (last path) p b = Inr s"
proof (induction fuel arbitrary: path p b)
  case 0
  with is_chain_length [OF "0.prems"(2)] show ?case by simp
next
  case (Suc fuel)
  have ne: "path \<noteq> []" using Suc.prems(2) by (simp add: is_chain_def)
  have "last path \<in> set (map snd m)" using Suc.prems(2) ne by (auto simp: is_chain_def)
  then obtain i where i: "eid (last path) = Some i"
    using well_keyed_eid [OF Suc.prems(1)] by auto
  have "\<forall>c \<in> set (children (parent_child_map m) (Some i)). \<forall>b'.
      \<exists>s. build_node fuel (parent_child_map m) c (p @ extension b) b' = Inr s"
  proof (intro ballI allI)
    fix c b' assume c: "c \<in> set (children (parent_child_map m) (Some i))"
    have "is_chain m (path @ [c])"
      using is_chain_extend [OF Suc.prems(1,2)] c i by simp
    moreover have "length m < length (path @ [c]) + fuel" using Suc.prems(3) by simp
    ultimately show "\<exists>s. build_node fuel (parent_child_map m) c (p @ extension b) b' = Inr s"
      using Suc.IH [OF Suc.prems(1)] by fastforce
  qed
  then obtain ls where "build_children fuel (parent_child_map m) (p @ extension b)
      (children (parent_child_map m) (Some i)) = Inr ls"
    using build_children_ok by blast
  with i show ?case by simp
qed

section \<open>Properties of the renderer\<close>

lemma build_roots_enough_fuel:
  assumes wk: "well_keyed m" and f: "length m \<le> fuel"
  shows "\<exists>ss. build_roots fuel (parent_child_map m) (children (parent_child_map m) None) = Inr ss"
proof -
  have "\<exists>s. build_node fuel (parent_child_map m) r [] b = Inr s"
    if r: "r \<in> set (children (parent_child_map m) None)" for r b
  proof -
    from r have "is_chain m [r]" by (rule is_chain_root)
    moreover have "length m < length [r] + fuel" using f by simp
    ultimately show ?thesis using build_node_enough_fuel [OF wk] by fastforce
  qed
  then show ?thesis by (intro build_roots_ok) blast
qed

text \<open>C12: The renderer never runs out of recursion budget when it has at least as many frames as there are elements: with that much fuel it returns normally exactly when the preprocessing does, that is unless exclusion is enabled and some element under a header has an id-less nearest Title. Cycles in the parent links cannot make it loop: a path of the recursion never repeats a node.\<close>

theorem visual_tree_enough_fuel:
  assumes "length es \<le> fuel"
  shows "(\<exists>r. elements_to_visual_tree fuel es ignore = Inr r) \<longleftrightarrow> (ignore \<longrightarrow> titles_have_ids es)"
proof
  assume "\<exists>r. elements_to_visual_tree fuel es ignore = Inr r"
  then have "\<exists>r. prepare ignore es = Inr r"
    by (auto simp: elements_to_visual_tree_def bind_err_Inr_iff)
  then show "ignore \<longrightarrow> titles_have_ids es" using prepare_ok by blast
next
  assume "ignore \<longrightarrow> titles_have_ids es"
  then obtain es' m where p: "prepare ignore es = Inr (es', m)"
    using prepare_ok by fastforce
  from prepare_map_bound [OF p] assms have "well_keyed m" and "length m \<le> fuel" by simp_all
  then obtain ss where "build_roots fuel (parent_child_map m) (children (parent_child_map m) None) = Inr ss"
    using build_roots_enough_fuel by blast
  with p show "\<exists>r. elements_to_visual_tree fuel es ignore = Inr r"
    by (simp add: elements_to_visual_tree_def)
qed

text \<open>C13: A rendered subtree is its lines in pre-order, one per node, joined with newlines, and no line contains a newline (the text is flattened by line 71's \<open>replace('\n', ' ')\<close>): splitting the output at newlines, as the parent's \<open>split('\n')\<close> does, gives back exactly one line per node.\<close>

theorem build_node_one_line_per_node:
  assumes "nl \<notin> set p" and "build_node fuel pcm e p b = Inr s"
  shows "\<exists>ls. node_lines fuel pcm e p b = Inr ls \<and> s = py_join [nl] ls \<and> py_split nl s = ls"
proof -
  from build_node_lines(1) [OF assms(1)] assms(2) obtain ls where
    l: "node_lines fuel pcm e p b = Inr ls" and s: "s = py_join [nl] ls"
    and ls: "ls \<noteq> []" "\<forall>l \<in> set ls. nl \<notin> set l"
    by (cases "node_lines fuel pcm e p b") auto
  from ls have "py_split nl (py_join [nl] ls) = ls" by (rule py_split_join)
  with l s show ?thesis by blast
qed

text \<open>C14: A single kept root with no children renders as exactly one line, the last-sibling connector followed by \<open>[Category] text\<close>.\<close>

theorem visual_tree_single_root:
  assumes "eid r = Some i" and "parent_of r = None" and "kept ignore r"
  shows "elements_to_visual_tree (Suc fuel) [r] ignore = Inr (connector True @ node_line r, [r])"
  using single_root_index [OF assms] assms(1) by (simp add: elements_to_visual_tree_def)

text \<open>C15: A displayed text is at most 48 code points long (45 and the ellipsis) and contains no newline.\<close>

theorem display_text_bounds:
  "length (display_text t) \<le> 48 \<and> nl \<notin> set (display_text t)"
  using length_display_text [of t] by (simp add: max_length_def)

lemma py_strip_no_space: "\<forall>c \<in> set t. \<not> py_isspace c \<Longrightarrow> py_strip t = t"
proof -
  have drop: "\<forall>c \<in> set xs. \<not> py_isspace c \<Longrightarrow> dropWhile py_isspace xs = xs" for xs
    by (induction xs) auto
  assume t: "\<forall>c \<in> set t. \<not> py_isspace c"
  then have "dropWhile py_isspace t = t" by (rule drop)
  moreover from t have "dropWhile py_isspace (rev t) = rev t" by (intro drop) simp
  ultimately show ?thesis by (simp add: py_strip_def)
qed

text \<open>C16: A 50-code-point text without whitespace is displayed as its first 45 code points followed by an ellipsis.\<close>

theorem display_text_truncates:
  assumes "length t = 50" and "\<forall>c \<in> set t. \<not> py_isspace c"
  shows "display_text t = take 45 t @ py ''...''"
proof -
  have "py_isspace nl" by (simp add: py_isspace_def)
  then have "nl \<notin> set t" using assms(2) by blast
  then have "py_replace nl [32] t = t" by simp
  with assms show ?thesis by (simp add: display_text_def py_strip_no_space max_length_def)
qed

section \<open>Witnesses\<close>

theorem visual_tree_enough_fuel_witness:
  "length spec_scenario \<le> 3 \<and> (\<exists>r. elements_to_visual_tree 3 spec_scenario True = Inr r)"
proof -
  have len: "length spec_scenario \<le> 3" by (simp add: spec_scenario_def)
  show ?thesis
    using visual_tree_enough_fuel [OF len, of True] titles_have_ids_spec_scenario len by simp
qed

theorem build_node_one_line_per_node_witness:
  "\<exists>s ls. build_node 1 [] ((node ''a'' Title ''A'' None)\<lparr>etext := [65, nl, 66]\<rparr>) [] True = Inr s \<and>
     node_lines 1 [] ((node ''a'' Title ''A'' None)\<lparr>etext := [65, nl, 66]\<rparr>) [] True = Inr ls \<and>
     length ls = 1 \<and> py_split nl s = ls"
proof -
  let ?e = "(node ''a'' Title ''A'' None)\<lparr>etext := [65, nl, 66]\<rparr>"
  obtain s where b: "build_node 1 [] ?e [] True = Inr s"
    by (simp add: node_def children_def dict_get_default_def dict_get_def)
  from build_node_one_line_per_node [OF _ b] obtain ls where
    l: "node_lines 1 [] ?e [] True = Inr ls" and "py_split nl s = ls" by auto
  moreover from l have "length ls = 1"
    by (auto simp: node_def children_def dict_get_default_def dict_get_def)
  ultimately show ?thesis using b by blast
qed

theorem visual_tree_single_root_witness:
  "elements_to_visual_tree 1 [node ''a'' Title ''A'' None] True =
     Inr (connector True @ node_line (node ''a'' Title ''A'' None), [node ''a'' Title ''A'' None])"
proof -
  have "eid (node ''a'' Title ''A'' None) = Some (py ''a'')"
    and "parent_of (node ''a'' Title ''A'' None) = None"
    and "kept True (node ''a'' Title ''A'' None)"
    by (simp_all add: node_def parent_of_def kept_def is_header_footer_def)
  from visual_tree_single_root [OF this, of 0] show ?thesis by simp
qed

theorem display_text_truncates_witness:
  "display_text (replicate 50 97) = replicate 45 97 @ py ''...''"
proof -
  have "length (replicate 50 (97::nat)) = 50" by simp
  moreover have "\<forall>c \<in> set (replicate 50 (97::nat)). \<not> py_isspace c"
    by (simp add: py_isspace_def)
  ultimately show ?thesis using display_text_truncates by simp
qed

end
