(* ===== verification/Html_Table.thy ===== *)
theory Html_Table
  imports Prelude
begin

text \<open>
  What \<open>_handle_table\<close> (\<open>src/HW-05/parse_file.py\<close>, lines 179--184) asks of
  BeautifulSoup: the rows of the \<open>text_as_html\<close> markup (\<open>soup.find_all('tr')\<close>), the
  cells of each row (\<open>tr.find_all(['td', 'th'])\<close>) and each cell's text with every text
  piece stripped (\<open>td.get_text(strip=True)\<close>). BeautifulSoup is a library, not code of
  the repository, so this theory models it from the specification (section 4.5) for the
  markup \<open>partition_pdf\<close> produces: flat tables, tags \<open><...>\<close>, no nested tables and no
  character entities. Markup is split into tag and text tokens; a scan over the tokens
  collects the rows. A round trip shows the reading is right: printing rows of stripped,
  tag-free cells as a table and reading it back gives the rows.
\<close>

datatype html_token = TagOpen pystr | TagClose pystr | HText pystr

abbreviation lt :: codepoint where "lt \<equiv> 60"
abbreviation gt :: codepoint where "gt \<equiv> 62"

text \<open>Tag names compare case-insensitively.\<close>

definition tag_name :: "pystr \<Rightarrow> pystr" where
  "tag_name body = py_lower (takeWhile (\<lambda>c. \<not> py_isspace c \<and> c \<noteq> 47) body)"

definition tag_token :: "pystr \<Rightarrow> html_token" where
  "tag_token body =
     (if body \<noteq> [] \<and> hd body = 47 then TagClose (tag_name (tl body)) else TagOpen (tag_name body))"

text \<open>A \<open><\<close> with no \<open>>\<close> after it is text, as in \<open>html.parser\<close>.\<close>

function html_tokens :: "pystr \<Rightarrow> html_token list" where
  "html_tokens [] = []"
| "html_tokens (c # s) =
     (if c = lt \<and> gt \<in> set s
      then tag_token (takeWhile (\<lambda>x. x \<noteq> gt) s) # html_tokens (tl (dropWhile (\<lambda>x. x \<noteq> gt) s))
      else if c = lt then [HText (c # s)]
      else HText (c # takeWhile (\<lambda>x. x \<noteq> lt) s) # html_tokens (dropWhile (\<lambda>x. x \<noteq> lt) s))"
  by pat_completeness auto
termination
proof (relation "measure length")
  fix c s
  assume "c = lt \<and> gt \<in> set s"
  then have "dropWhile (\<lambda>x. x \<noteq> gt) s \<noteq> []" by (simp add: dropWhile_eq_Nil_conv)
  then show "(tl (dropWhile (\<lambda>x. x \<noteq> gt) s), c # s) \<in> measure length"
    using length_dropWhile_le [of "\<lambda>x. x \<noteq> gt" s] by simp
next
  fix c s
  show "(dropWhile (\<lambda>x. x \<noteq> lt) s, c # s) \<in> measure length"
    using length_dropWhile_le [of "\<lambda>x. x \<noteq> lt" s] by simp
qed simp

text \<open>
  The scan: the rows read so far, the open row and the open cell. A \<open>tr\<close> opens a row,
  a \<open>td\<close> or \<open>th\<close> opens a cell, text inside a cell is stripped and appended, the closing
  tags close them; an unclosed cell or row is closed at the end. Rows are read in
  document order, cells in row order.
\<close>

definition is_cell_tag :: "pystr \<Rightarrow> bool" where
  "is_cell_tag t \<longleftrightarrow> t = py ''td'' \<or> t = py ''th''"

fun close_cell :: "pystr list option \<Rightarrow> pystr option \<Rightarrow> pystr list option" where
  "close_cell (Some row) (Some cell) = Some (row @ [cell])"
| "close_cell row cell = row"

fun close_row :: "pystr list list \<Rightarrow> pystr list option \<Rightarrow> pystr list list" where
  "close_row rows (Some row) = rows @ [row]"
| "close_row rows None = rows"

fun scan_rows :: "html_token list \<Rightarrow> pystr list list \<Rightarrow> pystr list option \<Rightarrow> pystr option \<Rightarrow> pystr list list" where
  "scan_rows [] rows row cell = close_row rows (close_cell row cell)"
| "scan_rows (TagOpen t # ts) rows row cell =
     (if t = py ''tr'' then scan_rows ts (close_row rows (close_cell row cell)) (Some []) None
      else if is_cell_tag t \<and> row \<noteq> None then scan_rows ts rows (close_cell row cell) (Some [])
      else scan_rows ts rows row cell)"
| "scan_rows (TagClose t # ts) rows row cell =
     (if t = py ''tr'' then scan_rows ts (close_row rows (close_cell row cell)) None None
      else if is_cell_tag t then scan_rows ts rows (close_cell row cell) None
      else scan_rows ts rows row cell)"
| "scan_rows (HText x # ts) rows row cell =
     scan_rows ts rows row (map_option (\<lambda>c. c @ py_strip x) cell)"

definition html_rows :: "pystr \<Rightarrow> pystr list list" where
  "html_rows h = scan_rows (html_tokens h) [] None None"

text \<open>Printing rows as a table, the inverse the round trip is stated against.\<close>

definition html_cell :: "pystr \<Rightarrow> pystr" where
  "html_cell c = py ''<td>'' @ c @ py ''</td>''"

definition html_row :: "pystr list \<Rightarrow> pystr" where
  "html_row r = py ''<tr>'' @ concat (map html_cell r) @ py ''</tr>''"

definition table_html :: "pystr list list \<Rightarrow> pystr" where
  "table_html rows = py ''<table>'' @ concat (map html_row rows) @ py ''</table>''"

definition cell_tokens :: "pystr \<Rightarrow> html_token list" where
  "cell_tokens c = TagOpen (py ''td'') # (if c = [] then [] else [HText c]) @ [TagClose (py ''td'')]"

definition row_tokens :: "pystr list \<Rightarrow> html_token list" where
  "row_tokens r = TagOpen (py ''tr'') # concat (map cell_tokens r) @ [TagClose (py ''tr'')]"

lemmas html_eval = html_rows_def tag_token_def tag_name_def py_lower_def is_cell_tag_def
  py_def py_strip_def py_isspace_def

section \<open>Reading printed tables back\<close>

lemma takeWhile_upto_sep: "x \<notin> set b \<Longrightarrow> takeWhile (\<lambda>y. y \<noteq> x) (b @ x # r) = b"
  by (induction b) auto

lemma dropWhile_upto_sep: "x \<notin> set b \<Longrightarrow> dropWhile (\<lambda>y. y \<noteq> x) (b @ x # r) = x # r"
  by (induction b) auto

lemma html_tokens_tag: "gt \<notin> set b \<Longrightarrow> html_tokens (lt # b @ gt # r) = tag_token b # html_tokens r"
  by (simp add: takeWhile_upto_sep dropWhile_upto_sep)

lemma html_tokens_text:
  "c \<noteq> [] \<Longrightarrow> lt \<notin> set c \<Longrightarrow> html_tokens (c @ lt # r) = HText c # html_tokens (lt # r)"
  by (cases c) (simp_all add: takeWhile_upto_sep dropWhile_upto_sep)

lemma tag_names:
  "py ''td'' \<noteq> py ''tr''" "py ''table'' \<noteq> py ''tr''" "is_cell_tag (py ''td'')"
  "\<not> is_cell_tag (py ''tr'')" "\<not> is_cell_tag (py ''table'')"
  by (simp_all add: is_cell_tag_def py_def)

lemma html_tokens_lit:
  "html_tokens (py ''<td>'' @ r) = TagOpen (py ''td'') # html_tokens r"
  "html_tokens (py ''</td>'' @ r) = TagClose (py ''td'') # html_tokens r"
  "html_tokens (py ''<tr>'' @ r) = TagOpen (py ''tr'') # html_tokens r"
  "html_tokens (py ''</tr>'' @ r) = TagClose (py ''tr'') # html_tokens r"
  "html_tokens (py ''<table>'' @ r) = TagOpen (py ''table'') # html_tokens r"
  "html_tokens (py ''</table>'' @ r) = TagClose (py ''table'') # html_tokens r"
  using html_tokens_tag [of "py ''td''" r] html_tokens_tag [of "py ''/td''" r]
    html_tokens_tag [of "py ''tr''" r] html_tokens_tag [of "py ''/tr''" r]
    html_tokens_tag [of "py ''table''" r] html_tokens_tag [of "py ''/table''" r]
  by (simp_all add: tag_token_def tag_name_def py_lower_def py_def py_isspace_def)

lemma html_tokens_cell:
  assumes "lt \<notin> set c"
  shows "html_tokens (html_cell c @ r) = cell_tokens c @ html_tokens r"
proof -
  have "py ''</td>'' @ r = lt # py ''/td>'' @ r" by (simp add: py_def)
  then have "c \<noteq> [] \<Longrightarrow> html_tokens (c @ py ''</td>'' @ r) = HText c # html_tokens (py ''</td>'' @ r)"
    using html_tokens_text [of c] assms by simp
  then show ?thesis
    by (cases "c = []") (simp_all add: html_cell_def cell_tokens_def html_tokens_lit)
qed

lemma html_tokens_cells:
  "\<forall>c \<in> set cs. lt \<notin> set c \<Longrightarrow>
   html_tokens (concat (map html_cell cs) @ r) = concat (map cell_tokens cs) @ html_tokens r"
  by (induction cs) (simp_all add: html_tokens_cell)

lemma html_tokens_rows:
  "\<forall>row \<in> set rows. \<forall>c \<in> set row. lt \<notin> set c \<Longrightarrow>
   html_tokens (concat (map html_row rows) @ r) = concat (map row_tokens rows) @ html_tokens r"
  by (induction rows) (simp_all add: html_row_def row_tokens_def html_tokens_lit html_tokens_cells)

lemma scan_rows_cells:
  "\<forall>c \<in> set cs. py_strip c = c \<Longrightarrow>
   scan_rows (concat (map cell_tokens cs) @ ts) rows (Some row) None = scan_rows ts rows (Some (row @ cs)) None"
  by (induction cs arbitrary: row) (simp_all add: cell_tokens_def tag_names)

lemma scan_rows_rows:
  "\<forall>row \<in> set rs. \<forall>c \<in> set row. py_strip c = c \<Longrightarrow>
   scan_rows (concat (map row_tokens rs) @ ts) rows None None = scan_rows ts (rows @ rs) None None"
  by (induction rs arbitrary: rows) (simp_all add: row_tokens_def scan_rows_cells tag_names)

text \<open>Reading a printed table back gives its rows, for cells that are already stripped and contain no \<open><\<close>.\<close>

lemma html_rows_table_html:
  assumes "\<forall>row \<in> set rows. \<forall>c \<in> set row. lt \<notin> set c \<and> py_strip c = c"
  shows "html_rows (table_html rows) = rows"
proof -
  from assms have "html_tokens (table_html rows) =
      TagOpen (py ''table'') # concat (map row_tokens rows) @ [TagClose (py ''table'')]"
    using html_tokens_lit(6) [where r = "[]"]
    by (simp add: table_html_def html_tokens_lit html_tokens_rows)
  with assms show ?thesis
    by (simp add: html_rows_def scan_rows_rows tag_names)
qed

end
