(* ===== verification/Markdown.thy ===== *)
theory Markdown
  imports Forest_Paths Html_Table
begin

text \<open>
  The Markdown renderer of \<open>elements_to_markdown\<close> (\<open>src/HW-05/parse_file.py\<close>,
  lines 95--226). Its preprocessing (lines 99--136) is the one of the tree renderer,
  \<open>prepare\<close> and \<open>parent_child_map\<close> (the \<open>defaultdict(list)\<close> of line 133 is read only
  through \<open>get(key, [])\<close>, so it behaves as the \<open>setdefault\<close> dictionary). The list
  \<open>markdown_lines\<close> that \<open>_build_markdown\<close> extends is threaded through the recursion as
  a state: \<open>build_md\<close> takes the lines emitted so far and returns them extended.
  \<open>_handle_table\<close> is \<open>handle_table\<close>: its HTML branch reads the rows with the
  \<open>Html_Table\<close> model of BeautifulSoup, its fallback branch collects TableRow and
  TableCell children from the index. As in the tree renderer the recursion carries fuel,
  one unit per Python frame of \<open>_build_markdown\<close>, and an element without id raises
  \<open>AttributeError\<close> where the code reads \<open>node.id\<close>.
\<close>

text \<open>\<open>indent = "  " * level\<close>.\<close>

definition md_indent :: "nat \<Rightarrow> pystr" where
  "md_indent level = concat (replicate level (py ''  ''))"

text \<open>Lines 145--146: a blank line before a block unless the last line is blank.\<close>

definition md_sep_blank :: "pystr list \<Rightarrow> pystr list" where
  "md_sep_blank ls = (if ls \<noteq> [] \<and> last ls \<noteq> [] then ls @ [[]] else ls)"

text \<open>\<open>"| " + " | ".join(cells) + " |"\<close>, lines 184 and 208.\<close>

definition format_row :: "pystr list \<Rightarrow> pystr" where
  "format_row cells = py ''| '' @ py_join (py '' | '') cells @ py '' |''"

text \<open>Line 189: one \<open>---\<close> per piece of \<open>rows[0].split('|')\<close>.\<close>

definition separator :: "pystr \<Rightarrow> pystr" where
  "separator row0 = format_row (replicate (length (py_split 124 row0)) (py ''---''))"

text \<open>
  Lines 179--194, the HTML branch: the rows with at least one cell, the separator after
  the first, joined with \<open>f"{indent}\n"\<close>; a single row is indented; no row, no line.
  The HTML model is total, so the \<open>except\<close> of line 195 is never taken.
\<close>

definition html_table_lines :: "pystr \<Rightarrow> pystr \<Rightarrow> pystr list" where
  "html_table_lines indent h =
     (let rows = map format_row (filter (\<lambda>cells. cells \<noteq> []) (html_rows h)) in
      if rows = [] then []
      else if length rows = 1 then [indent @ hd rows]
      else [py_join (indent @ [nl]) (hd rows # separator (hd rows) # tl rows)])"

text \<open>Lines 203--208: the stripped texts of a row's TableCell children, as a row.\<close>

definition row_cells :: "pcmap \<Rightarrow> element \<Rightarrow> py_error + pystr" where
  "row_cells pcm row =
     (case eid row of
        None \<Rightarrow> Inl AttributeError
      | Some i \<Rightarrow> Inr (format_row (map (\<lambda>c. py_strip (etext c))
                        (filter (\<lambda>c. category c = TableCell) (children pcm (Some i))))))"

text \<open>
  Lines 199--217, the fallback: the rows of the TableRow children, joined with
  \<open>f"{indent}\n"\<close>, between two blank lines. The separator of line 211 is computed and
  never used, so it does not appear here.
\<close>

definition fallback_table_lines :: "pcmap \<Rightarrow> element \<Rightarrow> pystr \<Rightarrow> py_error + pystr list" where
  "fallback_table_lines pcm t indent =
     (case eid t of
        None \<Rightarrow> Inl AttributeError
      | Some i \<Rightarrow>
          bind_err (seq_err (map (row_cells pcm) (filter (\<lambda>r. category r = TableRow) (children pcm (Some i)))))
            (\<lambda>rows. Inr (if rows = [] then [] else [[], py_join (indent @ [nl]) rows, []])))"

text \<open>\<open>_handle_table\<close>: the HTML branch when \<open>text_as_html\<close> is a non-empty string.\<close>

definition handle_table :: "pcmap \<Rightarrow> element \<Rightarrow> pystr \<Rightarrow> py_error + pystr list" where
  "handle_table pcm t indent =
     (case text_as_html (metadata t) of
        Some h \<Rightarrow> (if h \<noteq> [] then Inr (html_table_lines indent h) else fallback_table_lines pcm t indent)
      | None \<Rightarrow> fallback_table_lines pcm t indent)"

text \<open>Line 154--155: the text, stripped, with hard line breaks.\<close>

definition md_text :: "element \<Rightarrow> pystr" where
  "md_text e = py_replace nl (py ''  '' @ [nl]) (py_strip (etext e))"

text \<open>Lines 157--162: a Title is a heading and a blank line, anything else a list item.\<close>

definition md_block :: "element \<Rightarrow> pystr \<Rightarrow> pystr list" where
  "md_block e indent =
     (if category e = Title then [indent @ py ''## '' @ md_text e, []] else [indent @ py ''- '' @ md_text e])"

text \<open>\<open>_build_markdown\<close> (lines 141--166) and its loop over the children (lines 165--166).\<close>

fun build_md :: "nat \<Rightarrow> pcmap \<Rightarrow> element \<Rightarrow> nat \<Rightarrow> pystr list \<Rightarrow> py_error + pystr list"
and build_md_children :: "nat \<Rightarrow> pcmap \<Rightarrow> element list \<Rightarrow> nat \<Rightarrow> pystr list \<Rightarrow> py_error + pystr list" where
  "build_md 0 pcm nd level ls = Inl RecursionError"
| "build_md (Suc fuel) pcm nd level ls =
     (let ls1 = md_sep_blank ls; indent = md_indent level in
      if category nd = Table then bind_err (handle_table pcm nd indent) (\<lambda>t. Inr (ls1 @ t))
      else (case eid nd of
              None \<Rightarrow> Inl AttributeError
            | Some i \<Rightarrow> build_md_children fuel pcm (children pcm (Some i)) (Suc level) (ls1 @ md_block nd indent)))"
| "build_md_children fuel pcm [] level ls = Inr ls"
| "build_md_children fuel pcm (c # cs) level ls =
     bind_err (build_md fuel pcm c level ls) (\<lambda>ls'. build_md_children fuel pcm cs level ls')"

text \<open>
  Lines 99--224: the lines emitted for the roots at level 0, with the element list the
  preprocessing mutated; line 226 joins them.
\<close>

definition markdown_lines :: "nat \<Rightarrow> element list \<Rightarrow> bool \<Rightarrow> py_error + pystr list \<times> element list" where
  "markdown_lines fuel es ignore_header_footer =
     bind_err (prepare ignore_header_footer es)
       (\<lambda>(es', m). let pcm = parent_child_map m in
          bind_err (build_md_children fuel pcm (children pcm None) 0 []) (\<lambda>ls. Inr (ls, es')))"

definition elements_to_markdown :: "nat \<Rightarrow> element list \<Rightarrow> bool \<Rightarrow> py_error + pystr \<times> element list" where
  "elements_to_markdown fuel es ignore_header_footer =
     map_sum id (\<lambda>(ls, es'). (py_join [nl] ls, es')) (markdown_lines fuel es ignore_header_footer)"

text \<open>Test inputs: a Table carrying the markup of the specification (section 8).\<close>

definition spec_table_html :: pystr where
  "spec_table_html = py ''<table><tr><td>A</td><td>B</td></tr><tr><td>1</td><td>2</td></tr></table>''"

definition table_node :: "string \<Rightarrow> pystr option \<Rightarrow> string option \<Rightarrow> element" where
  "table_node i h p = \<lparr>eid = Some (py i), category = Table, etext = [],
     metadata = \<lparr>parent_id = map_option py p, text_as_html = h\<rparr>\<rparr>"

text \<open>
  A paragraph followed by a Table without markup whose rows and cells are elements: the
  fallback branch of \<open>_handle_table\<close>.
\<close>

definition fallback_example :: "element list" where
  "fallback_example =
     [node ''p'' NarrativeText ''p'' None, table_node ''t'' None None,
      node ''r1'' TableRow '''' (Some ''t''), node ''a'' TableCell ''A'' (Some ''r1''),
      node ''b'' TableCell ''B'' (Some ''r1''), node ''r2'' TableRow '''' (Some ''t''),
      node ''c'' TableCell ''1'' (Some ''r2''), node ''d'' TableCell ''2'' (Some ''r2'')]"

text \<open>
  The specification's blank-line rule (section 4.4): no two consecutive emitted lines are
  blank. A table renders through its markup when it has a non-empty one.
\<close>

fun no_blank_run :: "pystr list \<Rightarrow> bool" where
  "no_blank_run (a # b # r) \<longleftrightarrow> \<not> (a = [] \<and> b = []) \<and> no_blank_run (b # r)"
| "no_blank_run _ \<longleftrightarrow> True"

definition has_table_markup :: "element \<Rightarrow> bool" where
  "has_table_markup e \<longleftrightarrow>
     (category e = Table \<longrightarrow> (case text_as_html (metadata e) of Some h \<Rightarrow> h \<noteq> [] | None \<Rightarrow> False))"

lemmas md_eval = markdown_lines_def elements_to_markdown_def md_indent_def md_sep_blank_def
  format_row_def separator_def html_table_lines_def row_cells_def fallback_table_lines_def
  handle_table_def md_text_def md_block_def table_node_def

section \<open>Totality and fuel\<close>

lemma elements_to_markdown_ok:
  "(\<exists>r. elements_to_markdown fuel es ignore = Inr r) \<longleftrightarrow> (\<exists>r. markdown_lines fuel es ignore = Inr r)"
  by (cases "markdown_lines fuel es ignore") (auto simp: elements_to_markdown_def)

lemma build_md_children_ok:
  "\<forall>c \<in> set cs. \<forall>ls. \<exists>r. build_md fuel pcm c level ls = Inr r \<Longrightarrow>
   \<exists>r. build_md_children fuel pcm cs level ls = Inr r"
proof (induction cs arbitrary: ls)
  case (Cons c cs)
  from Cons.prems have "\<exists>r. build_md fuel pcm c level ls = Inr r" by simp
  then obtain ls' where "build_md fuel pcm c level ls = Inr ls'" by blast
  with Cons show ?case by simp
qed simp

text \<open>Every element of an index built from a well-keyed map has an id.\<close>

lemma children_have_ids:
  "well_keyed m \<Longrightarrow> e \<in> set (children (parent_child_map m) k) \<Longrightarrow> eid e \<noteq> None"
  using well_keyed_eid by (auto simp: children_parent_child_map)

lemma fallback_table_lines_ok:
  assumes "well_keyed m" and "eid t = Some i"
  shows "\<exists>r. fallback_table_lines (parent_child_map m) t indent = Inr r"
proof -
  let ?rows = "filter (\<lambda>r. category r = TableRow) (children (parent_child_map m) (Some i))"
  have "\<forall>r \<in> set ?rows. eid r \<noteq> None" using children_have_ids [OF assms(1)] by auto
  then have "\<forall>r \<in> set (map (row_cells (parent_child_map m)) ?rows). \<not> isl r"
    by (fastforce simp: row_cells_def split: option.splits)
  then obtain rows where "seq_err (map (row_cells (parent_child_map m)) ?rows) = Inr rows"
    using seq_err_ok_iff by blast
  with assms(2) show ?thesis by (simp add: fallback_table_lines_def)
qed

lemma handle_table_ok:
  "well_keyed m \<Longrightarrow> eid t = Some i \<Longrightarrow> \<exists>r. handle_table (parent_child_map m) t indent = Inr r"
  using fallback_table_lines_ok [of m t i indent] by (simp add: handle_table_def split: option.splits)

lemma build_md_enough_fuel:
  "well_keyed m \<Longrightarrow> is_chain m path \<Longrightarrow> length m < length path + fuel \<Longrightarrow>
     \<exists>r. build_md fuel (parent_child_map m) (last path) level ls = Inr r"
proof (induction fuel arbitrary: path level ls)
  case 0
  with is_chain_length [OF "0.prems"(2)] show ?case by simp
next
  case (Suc fuel)
  have "path \<noteq> []" using Suc.prems(2) by (simp add: is_chain_def)
  with Suc.prems(2) have "last path \<in> set (map snd m)" by (auto simp: is_chain_def)
  then obtain i where i: "eid (last path) = Some i"
    using well_keyed_eid [OF Suc.prems(1)] by auto
  have "\<forall>c \<in> set (children (parent_child_map m) (Some i)). \<forall>ls.
      \<exists>r. build_md fuel (parent_child_map m) c (Suc level) ls = Inr r"
  proof (intro ballI allI)
    fix c ls assume c: "c \<in> set (children (parent_child_map m) (Some i))"
    have "is_chain m (path @ [c])"
      using is_chain_extend [OF Suc.prems(1,2)] c i by simp
    moreover have "length m < length (path @ [c]) + fuel" using Suc.prems(3) by simp
    ultimately show "\<exists>r. build_md fuel (parent_child_map m) c (Suc level) ls = Inr r"
      using Suc.IH [OF Suc.prems(1)] by fastforce
  qed
  then have "\<exists>r. build_md_children fuel (parent_child_map m) (children (parent_child_map m) (Some i))
      (Suc level) ls' = Inr r" for ls'
    by (rule build_md_children_ok)
  moreover have "\<exists>r. handle_table (parent_child_map m) (last path) (md_indent level) = Inr r"
    using handle_table_ok [OF Suc.prems(1) i] .
  ultimately show ?case using i by (auto simp: Let_def)
qed

lemma build_md_roots_enough_fuel:
  assumes wk: "well_keyed m" and f: "length m \<le> fuel"
  shows "\<exists>r. build_md_children fuel (parent_child_map m) (children (parent_child_map m) None) 0 ls = Inr r"
proof (rule build_md_children_ok, intro ballI allI)
  fix r ls assume r: "r \<in> set (children (parent_child_map m) None)"
  then have "is_chain m [r]" by (rule is_chain_root)
  moreover have "length m < length [r] + fuel" using f by simp
  ultimately show "\<exists>x. build_md fuel (parent_child_map m) r 0 ls = Inr x"
    using build_md_enough_fuel [OF wk] by fastforce
qed

text \<open>C17: With fuel at least the number of elements the Markdown renderer returns normally exactly when the preprocessing does: the recursion of \<open>_build_markdown\<close> never exhausts its budget, even on cyclic parent links, and table handling never fails on elements of the index.\<close>

theorem markdown_enough_fuel:
  assumes "length es \<le> fuel"
  shows "(\<exists>r. elements_to_markdown fuel es ignore = Inr r) \<longleftrightarrow> (ignore \<longrightarrow> titles_have_ids es)"
proof
  assume "\<exists>r. elements_to_markdown fuel es ignore = Inr r"
  then have "\<exists>r. markdown_lines fuel es ignore = Inr r" by (simp only: elements_to_markdown_ok)
  then have "\<exists>r. prepare ignore es = Inr r" by (auto simp: markdown_lines_def bind_err_Inr_iff)
  then show "ignore \<longrightarrow> titles_have_ids es" using prepare_ok by blast
next
  assume "ignore \<longrightarrow> titles_have_ids es"
  then obtain es' m where p: "prepare ignore es = Inr (es', m)"
    using prepare_ok by fastforce
  from prepare_map_bound [OF p] assms have "well_keyed m" and "length m \<le> fuel" by simp_all
  then obtain ls where "build_md_children fuel (parent_child_map m) (children (parent_child_map m) None) 0 [] = Inr ls"
    using build_md_roots_enough_fuel by blast
  with p have "\<exists>r. markdown_lines fuel es ignore = Inr r" by (simp add: markdown_lines_def)
  then show "\<exists>r. elements_to_markdown fuel es ignore = Inr r" by (simp only: elements_to_markdown_ok)
qed

section \<open>The blank-line rule\<close>

lemma no_blank_run_Cons: "no_blank_run (x # xs) \<longleftrightarrow> (xs \<noteq> [] \<longrightarrow> \<not> (x = [] \<and> hd xs = [])) \<and> no_blank_run xs"
  by (cases xs) auto

lemma no_blank_run_append:
  "no_blank_run (xs @ ys) \<longleftrightarrow>
     no_blank_run xs \<and> no_blank_run ys \<and> \<not> (xs \<noteq> [] \<and> ys \<noteq> [] \<and> last xs = [] \<and> hd ys = [])"
  by (induction xs) (auto simp: no_blank_run_Cons)

lemma no_blank_run_nonempty: "\<forall>x \<in> set xs. x \<noteq> [] \<Longrightarrow> no_blank_run xs"
  by (induction xs) (auto simp: no_blank_run_Cons)

lemma md_sep_blank_append:
  "no_blank_run ls \<Longrightarrow> no_blank_run ys \<Longrightarrow> (ys = [] \<or> hd ys \<noteq> []) \<Longrightarrow> no_blank_run (md_sep_blank ls @ ys)"
  by (auto simp: md_sep_blank_def no_blank_run_append)

lemma format_row_not_Nil [simp]: "format_row cells \<noteq> []"
  by (simp add: format_row_def py_def)

lemma py_join_Cons_not_Nil: "x \<noteq> [] \<Longrightarrow> py_join sep (x # xs) \<noteq> []"
  by (cases xs) simp_all

lemma html_table_lines_not_blank: "\<forall>x \<in> set (html_table_lines indent h). x \<noteq> []"
proof -
  define rows where "rows = map format_row (filter (\<lambda>cells. cells \<noteq> []) (html_rows h))"
  have "\<forall>r \<in> set rows. r \<noteq> []" by (simp add: rows_def)
  then have "rows \<noteq> [] \<Longrightarrow> hd rows \<noteq> []" by simp
  then show ?thesis
    unfolding html_table_lines_def Let_def rows_def [symmetric] by (simp add: py_join_Cons_not_Nil)
qed

lemma md_block_no_blank_run: "no_blank_run (md_block e indent) \<and> hd (md_block e indent) \<noteq> []"
  by (simp add: md_block_def py_def)

lemma handle_table_markup:
  "has_table_markup t \<Longrightarrow> category t = Table \<Longrightarrow> handle_table pcm t indent = Inr r \<Longrightarrow> \<forall>x \<in> set r. x \<noteq> []"
  using html_table_lines_not_blank
  by (auto simp: has_table_markup_def handle_table_def split: option.splits if_splits)

lemma build_md_no_blank_run:
  shows "build_md fuel pcm nd level ls = Inr ls' \<Longrightarrow> has_table_markup nd \<Longrightarrow> no_blank_run ls \<Longrightarrow>
         \<forall>k. \<forall>e \<in> set (children pcm k). has_table_markup e \<Longrightarrow> no_blank_run ls'"
    and "build_md_children fuel pcm cs level ls = Inr ls' \<Longrightarrow> \<forall>c \<in> set cs. has_table_markup c \<Longrightarrow>
         no_blank_run ls \<Longrightarrow> \<forall>k. \<forall>e \<in> set (children pcm k). has_table_markup e \<Longrightarrow> no_blank_run ls'"
proof (induction fuel pcm nd level ls and fuel pcm cs level ls arbitrary: ls' and ls'
    rule: build_md_build_md_children.induct)
  case (2 fuel pcm nd level ls)
  show ?case
  proof (cases "category nd = Table")
    case True
    with "2.prems"(1) obtain t where t: "handle_table pcm nd (md_indent level) = Inr t"
      and ls': "ls' = md_sep_blank ls @ t" by (auto simp: Let_def bind_err_Inr_iff)
    from handle_table_markup [OF "2.prems"(2) True t] have ne: "\<forall>x \<in> set t. x \<noteq> []" .
    then have "t = [] \<or> hd t \<noteq> []" by (cases t) auto
    then show ?thesis
      unfolding ls' by (rule md_sep_blank_append [OF "2.prems"(3) no_blank_run_nonempty [OF ne]])
  next
    case False
    with "2.prems"(1) obtain i where i: "eid nd = Some i"
      and run: "build_md_children fuel pcm (children pcm (Some i)) (Suc level)
                  (md_sep_blank ls @ md_block nd (md_indent level)) = Inr ls'"
      by (auto simp: Let_def split: option.splits)
    have "no_blank_run (md_sep_blank ls @ md_block nd (md_indent level))"
      using md_block_no_blank_run "2.prems"(3) by (intro md_sep_blank_append) auto
    moreover from "2.prems"(4) have "\<forall>c \<in> set (children pcm (Some i)). has_table_markup c" by blast
    ultimately show ?thesis using "2.IH" [OF _ _ False i run] "2.prems"(4) by (simp add: Let_def)
  qed
qed (auto simp: bind_err_Inr_iff)

lemma has_table_markup_set_parent [simp]: "has_table_markup (set_parent e p) = has_table_markup e"
  by (simp add: has_table_markup_def)

text \<open>The preprocessing only rewrites parent links: every element it returns is an input element.\<close>

lemma prepare_elements:
  assumes "prepare ignore es = Inr (es', m)" and "e' \<in> set es'"
  shows "\<exists>e \<in> set es. \<exists>p. e' = set_parent e p"
proof (cases ignore)
  case True
  with assms(1) have "es' = reparent_spec es"
    by (auto simp: prepare_def bind_err_Inr_iff dest!: reparent_Inr_spec)
  with assms(2) obtain i where "i < length es" and "e' = reparent_spec es ! i"
    by (auto simp: in_set_conv_nth)
  then show ?thesis by (auto simp: reparent_spec_nth)
next
  case False
  with assms have "e' \<in> set es" by (simp add: prepare_def)
  then show ?thesis by (metis set_parent_same)
qed

lemma prepare_children_markup:
  assumes p: "prepare ignore es = Inr (es', m)" and es: "\<forall>e \<in> set es. has_table_markup e"
  shows "\<forall>k. \<forall>e \<in> set (children (parent_child_map m) k). has_table_markup e"
proof (intro allI ballI)
  fix k e assume "e \<in> set (children (parent_child_map m) k)"
  then have "e \<in> set (map snd m)" by (simp add: children_parent_child_map)
  with prepare_Inr [OF p] have "e \<in> set es'" by (auto dest: element_map_where_pair_mem)
  then obtain e0 p where "e0 \<in> set es" and "e = set_parent e0 p" using prepare_elements [OF p] by blast
  with es show "has_table_markup e" by simp
qed

section \<open>Tables\<close>

lemma count_list_py_join:
  "\<forall>x \<in> set xs. c \<notin> set x \<Longrightarrow> count_list (py_join sep xs) c = (length xs - 1) * count_list sep c"
  by (induction sep xs rule: py_join.induct) (simp_all add: count_list_0_iff)

lemma spec_table_html_rows: "html_rows spec_table_html = [[py ''A'', py ''B''], [py ''1'', py ''2'']]"
  by (simp add: spec_table_html_def html_eval)

lemma spec_table_lines:
  "html_table_lines [] spec_table_html =
     [py ''| A | B |'' @ [nl] @ py ''| --- | --- | --- | --- |'' @ [nl] @ py ''| 1 | 2 |'']"
  by (simp add: html_table_lines_def spec_table_html_rows format_row_def separator_def py_def)

lemma spec_table_html_not_Nil: "spec_table_html \<noteq> []"
  by (simp add: spec_table_html_def py_def)

lemma md_sep_blank_ends_blank: "ls \<noteq> [] \<Longrightarrow> md_sep_blank ls \<noteq> [] \<and> last (md_sep_blank ls) = []"
  by (simp add: md_sep_blank_def)

text \<open>The fallback branch of a Table with at least one TableRow child, all with ids.\<close>

lemma fallback_table_lines_rows:
  assumes "eid t = Some i" and "r \<in> set (children pcm (Some i))" and "category r = TableRow"
    and "\<forall>r \<in> set (children pcm (Some i)). category r = TableRow \<longrightarrow> eid r \<noteq> None"
  shows "\<exists>x. fallback_table_lines pcm t indent = Inr [[], x, []]"
proof -
  let ?rows = "filter (\<lambda>r. category r = TableRow) (children pcm (Some i))"
  have "\<forall>r \<in> set (map (row_cells pcm) ?rows). \<not> isl r"
    using assms(4) by (fastforce simp: row_cells_def split: option.splits)
  then obtain rows where sr: "seq_err (map (row_cells pcm) ?rows) = Inr rows"
    using seq_err_ok_iff by blast
  have "?rows \<noteq> []" using assms(2,3) by (auto simp: filter_empty_conv)
  with sr have "rows \<noteq> []" by (auto simp: seq_err_Inr_iff)
  with sr assms(1) show ?thesis by (simp add: fallback_table_lines_def)
qed

section \<open>Properties of the renderer\<close>

text \<open>C18: Markdown rendering never emits two consecutive blank lines (specification, sections 4.4 and 8), on every input in which each Table carries a non-empty \<open>text_as_html\<close> markup.\<close>

theorem markdown_no_blank_run:
  assumes "\<forall>e \<in> set es. has_table_markup e" and "markdown_lines fuel es ignore = Inr (ls, es')"
  shows "no_blank_run ls"
proof -
  from assms(2) obtain m where p: "prepare ignore es = Inr (es', m)"
    and b: "build_md_children fuel (parent_child_map m) (children (parent_child_map m) None) 0 [] = Inr ls"
    by (auto simp: markdown_lines_def bind_err_Inr_iff Let_def)
  from prepare_children_markup [OF p assms(1)] b show ?thesis
    by (auto intro: build_md_no_blank_run(2))
qed

text \<open>C19: The header separator built from a row of \<open>n\<close> cells without \<open>|\<close> has \<open>n + 2\<close> cells: \<open>rows[0].split('|')\<close> also counts the empty pieces before the first and after the last bar.\<close>

theorem separator_columns:
  assumes "cells \<noteq> []" and "\<forall>c \<in> set cells. 124 \<notin> set c"
  shows "separator (format_row cells) = format_row (replicate (length cells + 2) (py ''---''))"
proof -
  have "count_list (format_row cells) 124 = length cells + 1"
    using assms count_list_py_join [of cells 124 "py '' | ''"] by (simp add: format_row_def py_def)
  then show ?thesis by (simp add: separator_def length_py_split)
qed

text \<open>C20: A Table without \<open>text_as_html\<close> markup whose TableRow children all have ids renders through the fallback branch of \<open>_handle_table\<close>, which opens its lines with a blank line (line 216) after \<open>_build_markdown\<close> has already ensured one (lines 145--146): whenever anything was emitted before the table, the Markdown contains two consecutive blank lines, against the specification's blank-line rule. C18's markup hypothesis is therefore needed.\<close>

theorem markdown_fallback_double_blank:
  assumes "category t = Table" and "text_as_html (metadata t) = None" and "eid t = Some i"
    and "r \<in> set (children pcm (Some i))" and "category r = TableRow"
    and "\<forall>r \<in> set (children pcm (Some i)). category r = TableRow \<longrightarrow> eid r \<noteq> None"
    and "ls \<noteq> []"
  shows "\<exists>ls'. build_md (Suc fuel) pcm t level ls = Inr ls' \<and> \<not> no_blank_run ls'"
proof -
  obtain x where f: "fallback_table_lines pcm t (md_indent level) = Inr [[], x, []]"
    using fallback_table_lines_rows [OF assms(3-6)] by blast
  have "build_md (Suc fuel) pcm t level ls = Inr (md_sep_blank ls @ [[], x, []])"
    using assms(1,2) f by (simp add: handle_table_def)
  moreover have "\<not> no_blank_run (md_sep_blank ls @ [[], x, []])"
    using md_sep_blank_ends_blank [OF assms(7)] by (simp add: no_blank_run_append)
  ultimately show ?thesis by blast
qed

text \<open>C21: A single kept root without children that is not a Table renders as its block at level 0: \<open>## text\<close> and a blank line for a Title, \<open>- text\<close> otherwise.\<close>

theorem markdown_single_root:
  assumes "eid r = Some i" and "parent_of r = None" and "kept ignore r" and "category r \<noteq> Table"
  shows "markdown_lines (Suc fuel) [r] ignore = Inr (md_block r [], [r])"
  using single_root_index [OF assms(1-3)] assms(1,4)
  by (simp add: markdown_lines_def md_sep_blank_def md_indent_def)

section \<open>Witnesses\<close>

lemma markdown_spec_scenario:
  "markdown_lines 2 spec_scenario True =
     Inr ([py ''## T1'', [], py ''  - body''],
          [node ''1'' Header ''H'' None, node ''2'' Title ''T1'' None, node ''3'' NarrativeText ''body'' (Some ''2'')])"
  unfolding markdown_lines_def spec_scenario_prepare
  by (simp add: forest_eval reparent_eval md_eval py_strip_def py_replace_def py_isspace_def
      numeral_2_eq_2)

theorem markdown_enough_fuel_witness:
  "length spec_scenario \<le> 3 \<and> (\<exists>r. elements_to_markdown 3 spec_scenario True = Inr r)"
proof -
  have len: "length spec_scenario \<le> 3" by (simp add: spec_scenario_def)
  show ?thesis
    using markdown_enough_fuel [OF len, of True] titles_have_ids_spec_scenario len by simp
qed

theorem markdown_no_blank_run_witness:
  "no_blank_run [py ''## T1'', [], py ''  - body'']"
proof -
  have "\<forall>e \<in> set spec_scenario. has_table_markup e"
    by (simp add: spec_scenario_def node_def has_table_markup_def)
  from markdown_no_blank_run [OF this markdown_spec_scenario] show ?thesis .
qed

theorem separator_columns_witness:
  "separator (format_row [py ''A'', py ''B'']) = format_row (replicate 4 (py ''---''))"
  using separator_columns [of "[py ''A'', py ''B'']"] by (simp add: py_def numeral_eq_Suc)

theorem markdown_single_root_witness:
  "markdown_lines 1 [node ''a'' Title ''A'' None] True =
     Inr (md_block (node ''a'' Title ''A'' None) [], [node ''a'' Title ''A'' None])"
proof -
  have "eid (node ''a'' Title ''A'' None) = Some (py ''a'')"
    and "parent_of (node ''a'' Title ''A'' None) = None"
    and "kept True (node ''a'' Title ''A'' None)"
    and "category (node ''a'' Title ''A'' None) \<noteq> Table"
    by (simp_all add: node_def parent_of_def kept_def is_header_footer_def)
  from markdown_single_root [OF this, of 0] show ?thesis by simp
qed

theorem markdown_fallback_double_blank_witness:
  "\<exists>ls'. build_md 1 [(Some (py ''t''), [node ''r'' TableRow '''' (Some ''t'')])] (table_node ''t'' None None) 0
      [py ''- p''] = Inr ls' \<and> \<not> no_blank_run ls'"
proof -
  let ?r = "node ''r'' TableRow '''' (Some ''t'')"
  let ?pcm = "[(Some (py ''t''), [?r])]"
  have c: "children ?pcm (Some (py ''t'')) = [?r]"
    by (simp add: children_def dict_get_default_def dict_get_def)
  have t: "category (table_node ''t'' None None) = Table" "text_as_html (metadata (table_node ''t'' None None)) = None"
      "eid (table_node ''t'' None None) = Some (py ''t'')"
    by (simp_all add: table_node_def)
  have r: "?r \<in> set (children ?pcm (Some (py ''t'')))" "category ?r = TableRow"
      "\<forall>r \<in> set (children ?pcm (Some (py ''t''))). category r = TableRow \<longrightarrow> eid r \<noteq> None"
    by (simp_all add: c) (simp_all add: node_def)
  have "[py ''- p''] \<noteq> []" by simp
  from markdown_fallback_double_blank [OF t r this, of 0 0] show ?thesis by simp
qed

end
