(* ===== verification/Create_Db.thy ===== *)
theory Create_Db
  imports Prelude
begin

text \<open>
  The knowledge-base builder \<open>src/HW-03/create_db.py\<close>: it reads a CSV of financial terms,
  embeds them in batches of 1000 with an embedding API and inserts each batch into a
  Milvus collection, unless the collection already exists. The embedding API is a
  parameter, a function from a batch of texts to its vectors that may fail
  (\<open>APIError\<close>). The Milvus client is an explicit state, a dictionary from collection
  names to collections; its operations are modelled from the pymilvus documentation
  (the library is not repository code): \<open>insert\<close> checks every row against the schema,
  the vector dimension and \<open>max_length=100\<close> of \<open>term_name\<close>, and rejects the whole batch
  with a \<open>MilvusException\<close> otherwise. The script's own code is modelled as it is
  written: the NA handling of lines 24--29, the batch loop of lines 72--110 as a
  recursion over the batch starts that threads the client and the token count, and the
  guarded build of lines 35--121. An exception ends the script, but what was inserted
  before it stays in the database file, so a run's outcome is the exception it raised,
  if any, together with the client state it leaves.
\<close>

section \<open>The Milvus client\<close>

type_synonym 'v vector = "'v list"

record 'v collection =
  coll_dim :: nat
  coll_rows :: "('v vector \<times> pystr) list"
  coll_indexed :: bool
  coll_loaded :: bool

type_synonym 'v milvus = "(pystr, 'v collection) pydict"

definition has_collection :: "'v milvus \<Rightarrow> pystr \<Rightarrow> bool" where
  "has_collection c name \<longleftrightarrow> dict_get c name \<noteq> None"

text \<open>Lines 39--49: an empty collection with the schema's vector dimension.\<close>

definition create_collection :: "'v milvus \<Rightarrow> pystr \<Rightarrow> nat \<Rightarrow> py_error + 'v milvus" where
  "create_collection c name dim =
     (if has_collection c name then Inl MilvusException
      else Inr (dict_set c name \<lparr>coll_dim = dim, coll_rows = [], coll_indexed = False, coll_loaded = False\<rparr>))"

definition create_index :: "'v milvus \<Rightarrow> pystr \<Rightarrow> py_error + 'v milvus" where
  "create_index c name =
     (case dict_get c name of
        None \<Rightarrow> Inl MilvusException
      | Some col \<Rightarrow> Inr (dict_set c name (col\<lparr>coll_indexed := True\<rparr>)))"

definition load_collection :: "'v milvus \<Rightarrow> pystr \<Rightarrow> py_error + 'v milvus" where
  "load_collection c name =
     (case dict_get c name of
        None \<Rightarrow> Inl MilvusException
      | Some col \<Rightarrow> Inr (dict_set c name (col\<lparr>coll_loaded := True\<rparr>)))"

text \<open>\<open>FieldSchema(name="term_name", dtype=DataType.VARCHAR, max_length=100)\<close>.\<close>

definition term_max_length :: nat where
  "term_max_length = 100"

definition row_ok :: "nat \<Rightarrow> 'v vector \<times> pystr \<Rightarrow> bool" where
  "row_ok dim r \<longleftrightarrow> length (fst r) = dim \<and> length (snd r) \<le> term_max_length"

definition milvus_insert :: "'v milvus \<Rightarrow> pystr \<Rightarrow> ('v vector \<times> pystr) list \<Rightarrow> py_error + 'v milvus" where
  "milvus_insert c name rows =
     (case dict_get c name of
        None \<Rightarrow> Inl MilvusException
      | Some col \<Rightarrow>
          if list_all (row_ok (coll_dim col)) rows
          then Inr (dict_set c name (col\<lparr>coll_rows := coll_rows col @ rows\<rparr>))
          else Inl MilvusException)"

text \<open>The terms a collection holds, in insertion order.\<close>

definition collection_terms :: "'v milvus \<Rightarrow> pystr \<Rightarrow> pystr list" where
  "collection_terms c name = (case dict_get c name of None \<Rightarrow> [] | Some col \<Rightarrow> map snd (coll_rows col))"

section \<open>Reading the terms\<close>

text \<open>
  \<open>pd.read_csv(..., dtype=str)\<close> reads every cell that is one of pandas' default NA
  strings as a missing value; \<open>df.fillna("NA")\<close> (line 29) then writes \<open>"NA"\<close> in its
  place. The CSV tokenizer itself is not modelled: a row is given as its cells.
\<close>

definition pandas_na_values :: "pystr list" where
  "pandas_na_values = map py
     ['''', ''#N/A'', ''#N/A N/A'', ''#NA'', ''-1.#IND'', ''-1.#QNAN'', ''-NaN'', ''-nan'',
      ''1.#IND'', ''1.#QNAN'', ''<NA>'', ''N/A'', ''NA'', ''NULL'', ''NaN'', ''None'', ''n/a'',
      ''nan'', ''null'']"

definition read_cell :: "pystr \<Rightarrow> pystr option" where
  "read_cell s = (if s \<in> set pandas_na_values then None else Some s)"

definition fill_na :: "pystr option \<Rightarrow> pystr" where
  "fill_na x = (case x of None \<Rightarrow> py ''NA'' | Some s \<Rightarrow> s)"

text \<open>Line 62, \<open>df['term_name'].tolist()\<close>: the first cell of every row.\<close>

definition read_terms :: "(pystr \<times> pystr) list \<Rightarrow> pystr list" where
  "read_terms rows = map (\<lambda>r. fill_na (read_cell (fst r))) rows"

section \<open>The batch loop\<close>

text \<open>\<open>range(start, stop, step)\<close> for a non-negative range; step 0 raises \<open>ValueError\<close>.\<close>

function range_from :: "nat \<Rightarrow> nat \<Rightarrow> nat \<Rightarrow> nat list" where
  "range_from a b s = (if s = 0 \<or> b \<le> a then [] else a # range_from (a + s) b s)"
  by pat_completeness auto
termination
  by (relation "measure (\<lambda>(a, b, s). b - a)") auto

definition py_range :: "nat \<Rightarrow> nat \<Rightarrow> nat \<Rightarrow> py_error + nat list" where
  "py_range a b s = (if s = 0 then Inl ValueError else Inr (range_from a b s))"

text \<open>\<open>terms[i:i + batch_size]\<close> (line 75).\<close>

definition batch :: "pystr list \<Rightarrow> nat \<Rightarrow> nat \<Rightarrow> pystr list" where
  "batch terms bs i = take bs (drop i terms)"

text \<open>\<open>str.split()\<close>: the maximal runs of non-whitespace.\<close>

fun py_split_ws :: "pystr \<Rightarrow> pystr list" where
  "py_split_ws [] = []"
| "py_split_ws (x # xs) =
     (if py_isspace x then py_split_ws xs
      else (case py_split_ws xs of
              [] \<Rightarrow> [[x]]
            | w # ws \<Rightarrow> (if xs \<noteq> [] \<and> \<not> py_isspace (hd xs) then (x # w) # ws else [x] # w # ws)))"

text \<open>Line 90: two tokens per word.\<close>

definition batch_tokens :: "pystr list \<Rightarrow> nat" where
  "batch_tokens ts = sum_list (map (\<lambda>t. length (py_split_ws t) * 2) ts)"

type_synonym 'v embedder = "pystr list \<Rightarrow> py_error + 'v vector list"

record 'v run =
  client :: "'v milvus"
  total_tokens :: nat

text \<open>
  Lines 74--110, one iteration per batch start: embed the batch (an API failure
  propagates), pair vectors and terms with \<open>zip\<close> (line 86, which drops the surplus of the
  longer list), count tokens, log \<open>insert_data[0]\<close> (line 100, an \<open>IndexError\<close> when no row
  was paired), then insert; a failed insert is logged and the loop goes on (lines 103--110).
\<close>

fun insert_loop :: "'v embedder \<Rightarrow> pystr \<Rightarrow> pystr list \<Rightarrow> nat \<Rightarrow> nat list \<Rightarrow> 'v run \<Rightarrow> py_error option \<times> 'v run" where
  "insert_loop emb name terms bs [] st = (None, st)"
| "insert_loop emb name terms bs (i # is) st =
     (let bt = batch terms bs i in
      case emb bt of
        Inl e \<Rightarrow> (Some e, st)
      | Inr vectors \<Rightarrow>
          (let data = zip vectors bt;
               st' = st\<lparr>total_tokens := total_tokens st + batch_tokens bt\<rparr>
           in if data = [] then (Some IndexError, st')
              else (case milvus_insert (client st') name data of
                      Inl _ \<Rightarrow> insert_loop emb name terms bs is st'
                    | Inr c' \<Rightarrow> insert_loop emb name terms bs is (st'\<lparr>client := c'\<rparr>))))"

section \<open>The script\<close>

definition collection_name :: pystr where
  "collection_name = py ''financial_concepts''"

definition batch_size :: nat where
  "batch_size = 1000"

text \<open>
  Lines 35--121: the vector dimension is read from a probe embedding (line 38, before the
  existence check); an existing collection is left alone (lines 47 and 120--121);
  otherwise the collection and its index are created, the batches inserted and the
  collection loaded.
\<close>

definition build_db :: "'v embedder \<Rightarrow> 'v milvus \<Rightarrow> pystr list \<Rightarrow> py_error option \<times> 'v milvus" where
  "build_db emb c terms =
     (case emb [py ''dummy''] of
        Inl e \<Rightarrow> (Some e, c)
      | Inr vs \<Rightarrow>
          if vs = [] then (Some IndexError, c)
          else if has_collection c collection_name then (None, c)
          else (case create_collection c collection_name (length (hd vs)) of
                  Inl e \<Rightarrow> (Some e, c)
                | Inr c1 \<Rightarrow>
                    (case create_index c1 collection_name of
                       Inl e \<Rightarrow> (Some e, c1)
                     | Inr c2 \<Rightarrow>
                         (case py_range 0 (length terms) batch_size of
                            Inl e \<Rightarrow> (Some e, c2)
                          | Inr starts \<Rightarrow>
                              (case insert_loop emb collection_name terms batch_size starts
                                      \<lparr>client = c2, total_tokens = 0\<rparr> of
                                 (Some e, st) \<Rightarrow> (Some e, client st)
                               | (None, st) \<Rightarrow>
                                   (case load_collection (client st) collection_name of
                                      Inl e \<Rightarrow> (Some e, client st)
                                    | Inr c3 \<Rightarrow> (None, c3)))))))"

text \<open>Lines 17--62: the file check, the CSV rows, the terms, the build.\<close>

definition create_db :: "bool \<Rightarrow> (pystr \<times> pystr) list \<Rightarrow> 'v embedder \<Rightarrow> 'v milvus \<Rightarrow> py_error option \<times> 'v milvus" where
  "create_db file_exists rows emb c =
     (if \<not> file_exists then (Some FileNotFoundError, c) else build_db emb c (read_terms rows))"

section \<open>What a run needs and leaves\<close>

text \<open>The embedding API answers a batch with one vector of dimension \<open>d\<close> per text.\<close>

definition embeds_batch :: "'v embedder \<Rightarrow> nat \<Rightarrow> pystr list \<Rightarrow> bool" where
  "embeds_batch emb d bt \<longleftrightarrow>
     (case emb bt of Inl _ \<Rightarrow> False | Inr vs \<Rightarrow> length vs = length bt \<and> list_all (\<lambda>v. length v = d) vs)"

text \<open>Every term fits the \<open>term_name\<close> field.\<close>

definition terms_fit :: "pystr list \<Rightarrow> bool" where
  "terms_fit ts \<longleftrightarrow> list_all (\<lambda>t. length t \<le> term_max_length) ts"

definition collection_ready :: "'v milvus \<Rightarrow> pystr \<Rightarrow> bool" where
  "collection_ready c name \<longleftrightarrow>
     (case dict_get c name of None \<Rightarrow> False | Some col \<Rightarrow> coll_indexed col \<and> coll_loaded col)"

text \<open>An embedding API that returns one vector of dimension 1 per text.\<close>

definition unit_embedder :: "nat embedder" where
  "unit_embedder ts = Inr (map (\<lambda>_. [0]) ts)"

text \<open>An embedding API that answers the probe and fails on everything else.\<close>

definition failing_embedder :: "nat embedder" where
  "failing_embedder ts = (if ts = [py ''dummy''] then Inr [[0]] else Inl APIError)"

section \<open>Lemmas: ranges, batches and the loop\<close>

declare range_from.simps [simp del]

lemma range_from_Nil [simp]: "s = 0 \<or> b \<le> a \<Longrightarrow> range_from a b s = []"
  by (simp add: range_from.simps)

lemma range_from_Cons: "0 < s \<Longrightarrow> a < b \<Longrightarrow> range_from a b s = a # range_from (a + s) b s"
  by (simp add: range_from.simps)

lemma set_range_from: "i \<in> set (range_from a b s) \<Longrightarrow> a \<le> i \<and> i < b"
proof (induction a b s rule: range_from.induct)
  case (1 a b s)
  then show ?case
    by (cases "s = 0 \<or> b \<le> a") (auto simp: range_from_Cons)
qed

lemma div_round_up_step:
  assumes "0 < s" and "0 < k"
  shows "Suc ((k - s + s - 1) div s) = (k + s - 1) div s"
proof -
  have "(k - s + s - 1) div s = (k - 1) div s"
  proof (cases "s \<le> k")
    case False
    then show ?thesis by simp
  qed simp
  moreover have "(k + s - 1) div s = Suc ((k - 1) div s)"
    using assms div_add_self2 [of s "k - 1"] by (simp add: Suc_diff_le)
  ultimately show ?thesis by simp
qed

lemma length_range_from: "0 < s \<Longrightarrow> length (range_from a b s) = (b - a + s - 1) div s"
proof (induction a b s rule: range_from.induct)
  case (1 a b s)
  show ?case
  proof (cases "b \<le> a")
    case False
    with "1.prems" have "length (range_from a b s) = Suc ((b - (a + s) + s - 1) div s)"
      using "1.IH" by (simp add: range_from_Cons)
    also have "\<dots> = (b - a + s - 1) div s"
      using div_round_up_step [OF "1.prems", of "b - a"] False by (simp add: diff_diff_add)
    finally show ?thesis .
  qed (use "1.prems" in simp)
qed

lemma range_from_split:
  "i \<in> set (range_from a b s) \<Longrightarrow> range_from a b s = range_from a i s @ range_from i b s"
proof (induction a b s rule: range_from.induct)
  case (1 a b s)
  then have s: "0 < s" and ab: "a < b" by (auto split: if_splits simp: range_from.simps)
  show ?case
  proof (cases "i = a")
    case False
    with "1.prems" s ab have i: "i \<in> set (range_from (a + s) b s)" by (simp add: range_from_Cons)
    then have "a + s \<le> i" by (simp add: set_range_from)
    with "1.IH" [OF _ i] s ab show ?thesis by (simp add: range_from_Cons)
  qed simp
qed

lemma range_from_multiple: "i \<in> set (range_from a b s) \<Longrightarrow> \<exists>k. i = a + k * s"
proof (induction a b s rule: range_from.induct)
  case (1 a b s)
  then have s: "0 < s" and ab: "a < b" by (auto split: if_splits simp: range_from.simps)
  show ?case
  proof (cases "i = a")
    case False
    with "1.prems" s ab have "i \<in> set (range_from (a + s) b s)" by (simp add: range_from_Cons)
    with "1.IH" s ab obtain k where "i = a + s + k * s" by auto
    then have "i = a + Suc k * s" by simp
    then show ?thesis ..
  qed auto
qed

lemma concat_batches_from:
  "0 < s \<Longrightarrow> b = length ts \<Longrightarrow> concat (map (batch ts s) (range_from a b s)) = drop a ts"
proof (induction a b s rule: range_from.induct)
  case (1 a b s)
  show ?case
  proof (cases "b \<le> a")
    case False
    have "take s (drop a ts) @ drop (a + s) ts = drop a ts"
      by (metis append_take_drop_id drop_drop add.commute)
    with False "1.IH" "1.prems" show ?thesis
      by (simp add: range_from_Cons batch_def)
  qed (use "1.prems" in simp)
qed

lemma concat_batches: "0 < s \<Longrightarrow> concat (map (batch ts s) (range_from 0 (length ts) s)) = ts"
  using concat_batches_from [of s "length ts" ts 0] by simp

lemma concat_batches_upto:
  "0 < s \<Longrightarrow> concat (map (batch ts s) (range_from a (a + k * s) s)) = take (k * s) (drop a ts)"
proof (induction k arbitrary: a)
  case (Suc k)
  have "range_from a (a + Suc k * s) s = a # range_from (a + s) (a + s + k * s) s"
    using Suc.prems by (simp add: range_from_Cons add.assoc)
  with Suc show ?case
    by (simp add: batch_def take_add add.commute)
qed simp

lemma has_collection_dict_set [simp]: "has_collection (dict_set c n col) m \<longleftrightarrow> m = n \<or> has_collection c m"
  by (auto simp: has_collection_def dict_get_def)

lemma dict_get_dict_set_same [simp]: "dict_get (dict_set c n col) n = Some col"
  by (simp add: dict_get_def)

lemma milvus_insert_Inr:
  "milvus_insert c n rows = Inr c' \<Longrightarrow>
     \<exists>col. dict_get c n = Some col \<and> c' = dict_set c n (col\<lparr>coll_rows := coll_rows col @ rows\<rparr>)"
  by (auto simp: milvus_insert_def split: option.splits if_splits)

lemma milvus_insert_has_collection:
  "milvus_insert c n rows = Inr c' \<Longrightarrow> has_collection c' m \<longleftrightarrow> has_collection c m"
  by (auto dest!: milvus_insert_Inr simp: has_collection_def dict_get_def split: if_splits)

text \<open>A run never removes a collection.\<close>

lemma insert_loop_keeps:
  "has_collection (client st) n \<Longrightarrow> insert_loop emb n terms bs is st = (r, st') \<Longrightarrow> has_collection (client st') n"
  by (induction emb n terms bs "is" st rule: insert_loop.induct)
    (auto simp: Let_def milvus_insert_has_collection split: sum.splits if_splits)

lemma insert_loop_append:
  "insert_loop emb n terms bs (xs @ ys) st =
     (case insert_loop emb n terms bs xs st of (None, st') \<Rightarrow> insert_loop emb n terms bs ys st' | r \<Rightarrow> r)"
  by (induction xs arbitrary: st) (auto simp: Let_def split: sum.splits prod.splits option.splits)

lemma row_ok_zip:
  assumes "embeds_batch emb d bt" and "emb bt = Inr vs" and "terms_fit bt"
  shows "list_all (row_ok d) (zip vs bt)" and "map snd (zip vs bt) = bt"
  using assms
  by (auto simp: embeds_batch_def terms_fit_def row_ok_def list_all_iff dest: set_zip_leftD set_zip_rightD)

lemma insert_loop_good:
  assumes "dict_get (client st) n = Some col"
    and "\<forall>i \<in> set is. embeds_batch emb (coll_dim col) (batch terms bs i) \<and> batch terms bs i \<noteq> [] \<and>
           terms_fit (batch terms bs i)"
  shows "\<exists>st' col'. insert_loop emb n terms bs is st = (None, st') \<and> dict_get (client st') n = Some col' \<and>
           coll_dim col' = coll_dim col \<and> coll_indexed col' = coll_indexed col \<and>
           map snd (coll_rows col') = map snd (coll_rows col) @ concat (map (batch terms bs) is)"
  using assms
proof (induction "is" arbitrary: st col)
  case (Cons i "is")
  let ?bt = "batch terms bs i"
  from Cons.prems(2) have good: "embeds_batch emb (coll_dim col) ?bt" and ne: "?bt \<noteq> []"
    and fit: "terms_fit ?bt" by auto
  then obtain vs where vs: "emb ?bt = Inr vs" and len: "length vs = length ?bt"
    by (auto simp: embeds_batch_def split: sum.splits)
  have ok: "list_all (row_ok (coll_dim col)) (zip vs ?bt)" and sn: "map snd (zip vs ?bt) = ?bt"
    using row_ok_zip [OF good vs fit] by simp_all
  from ne len have "zip vs ?bt \<noteq> []" by (cases vs) auto
  moreover define col1 where "col1 = col\<lparr>coll_rows := coll_rows col @ zip vs ?bt\<rparr>"
  moreover define st1 where "st1 = st\<lparr>total_tokens := total_tokens st + batch_tokens ?bt,
      client := dict_set (client st) n col1\<rparr>"
  ultimately have step: "insert_loop emb n terms bs (i # is) st = insert_loop emb n terms bs is st1"
    using vs ok Cons.prems(1) by (simp add: Let_def milvus_insert_def)
  have "dict_get (client st1) n = Some col1" by (simp add: st1_def)
  from Cons.IH [OF this] Cons.prems(2) obtain st' col' where
    "insert_loop emb n terms bs is st1 = (None, st')" and "dict_get (client st') n = Some col'"
    and "coll_dim col' = coll_dim col1" and "coll_indexed col' = coll_indexed col1"
    and "map snd (coll_rows col') = map snd (coll_rows col1) @ concat (map (batch terms bs) is)"
    by (auto simp: col1_def)
  with step sn show ?case by (auto simp: col1_def)
qed simp

lemma batch_not_Nil: "0 < bs \<Longrightarrow> i < length ts \<Longrightarrow> batch ts bs i \<noteq> []"
  by (simp add: batch_def)

lemma terms_fit_batch: "terms_fit ts \<Longrightarrow> terms_fit (batch ts bs i)"
  by (auto simp: terms_fit_def batch_def list_all_iff dest: in_set_takeD in_set_dropD)

lemma has_collection_create_index:
  "create_index c n = Inr c' \<Longrightarrow> has_collection c' m \<longleftrightarrow> has_collection c m"
  by (auto simp: create_index_def has_collection_def dict_get_def split: option.splits if_splits)

lemma has_collection_load:
  "load_collection c n = Inr c' \<Longrightarrow> has_collection c' m \<longleftrightarrow> has_collection c m"
  by (auto simp: load_collection_def has_collection_def dict_get_def split: option.splits if_splits)

lemma py_range_batch_size: "py_range 0 n batch_size = Inr (range_from 0 n batch_size)"
  by (simp add: py_range_def batch_size_def)

text \<open>The state a fresh run reaches before its first batch.\<close>

lemma build_db_fresh:
  assumes "\<not> has_collection c collection_name" and "emb [py ''dummy''] = Inr (v # vs)"
  shows "build_db emb c terms =
     (let col = \<lparr>coll_dim = length v, coll_rows = [], coll_indexed = True, coll_loaded = False\<rparr>;
          c2 = dict_set (dict_set c collection_name (col\<lparr>coll_indexed := False\<rparr>)) collection_name col in
      case insert_loop emb collection_name terms batch_size (range_from 0 (length terms) batch_size)
             \<lparr>client = c2, total_tokens = 0\<rparr> of
        (Some e, st) \<Rightarrow> (Some e, client st)
      | (None, st) \<Rightarrow> (case load_collection (client st) collection_name of
                         Inl e \<Rightarrow> (Some e, client st) | Inr c3 \<Rightarrow> (None, c3)))"
  using assms
  by (simp add: build_db_def create_collection_def create_index_def py_range_batch_size Let_def)

lemma build_db_has_collection:
  assumes "emb [py ''dummy''] = Inr (v # vs)" and "build_db emb c terms = (r, c')"
  shows "has_collection c' collection_name"
proof (cases "has_collection c collection_name")
  case True
  with assms show ?thesis by (simp add: build_db_def)
next
  case False
  let ?col = "\<lparr>coll_dim = length v, coll_rows = [], coll_indexed = True, coll_loaded = False\<rparr>"
  let ?c2 = "dict_set (dict_set c collection_name (?col\<lparr>coll_indexed := False\<rparr>)) collection_name ?col"
  obtain r1 st where loop: "insert_loop emb collection_name terms batch_size
      (range_from 0 (length terms) batch_size) \<lparr>client = ?c2, total_tokens = 0\<rparr> = (r1, st)"
    by fastforce
  have "has_collection (client st) collection_name"
    using insert_loop_keeps [OF _ loop] by simp
  with assms build_db_fresh [of c emb v vs terms, OF False assms(1)] loop show ?thesis
    by (auto simp: Let_def has_collection_load split: option.splits sum.splits)
qed

section \<open>Properties of the builder\<close>

text \<open>C22: From a database without the collection, with an embedding API that answers every batch with one vector of the probe's dimension per term, and terms that fit the schema, the script succeeds and leaves an indexed, loaded collection holding every term exactly once, in CSV order.\<close>

theorem build_db_inserts_all:
  assumes "\<not> has_collection c collection_name" and "emb [py ''dummy''] = Inr (v # vs)"
    and "\<forall>i \<in> set (range_from 0 (length terms) batch_size). embeds_batch emb (length v) (batch terms batch_size i)"
    and "terms_fit terms"
  shows "\<exists>c'. build_db emb c terms = (None, c') \<and> collection_terms c' collection_name = terms \<and>
           collection_ready c' collection_name"
proof -
  let ?col = "\<lparr>coll_dim = length v, coll_rows = [], coll_indexed = True, coll_loaded = False\<rparr>"
  let ?c2 = "dict_set (dict_set c collection_name (?col\<lparr>coll_indexed := False\<rparr>)) collection_name ?col"
  let ?starts = "range_from 0 (length terms) batch_size"
  have bs: "0 < batch_size" by (simp add: batch_size_def)
  have "\<forall>i \<in> set ?starts. embeds_batch emb (coll_dim ?col) (batch terms batch_size i) \<and>
      batch terms batch_size i \<noteq> [] \<and> terms_fit (batch terms batch_size i)"
    using assms(3,4) bs by (auto simp: terms_fit_batch batch_not_Nil dest: set_range_from)
  moreover have "dict_get (client \<lparr>client = ?c2, total_tokens = 0\<rparr>) collection_name = Some ?col" by simp
  ultimately obtain st col' where
    loop: "insert_loop emb collection_name terms batch_size ?starts \<lparr>client = ?c2, total_tokens = 0\<rparr> = (None, st)"
    and col': "dict_get (client st) collection_name = Some col'" and "coll_indexed col'"
    and rows: "map snd (coll_rows col') = concat (map (batch terms batch_size) ?starts)"
    using insert_loop_good [of "\<lparr>client = ?c2, total_tokens = 0\<rparr>" collection_name ?col ?starts emb terms
      batch_size] by auto
  moreover from rows bs have "map snd (coll_rows col') = terms" by (simp add: concat_batches)
  ultimately show ?thesis
    using build_db_fresh [of c emb v vs terms, OF assms(1,2)]
    by (simp add: load_collection_def collection_terms_def collection_ready_def)
qed

text \<open>C23: The loop runs once per batch: \<open>range(0, total_terms, batch_size)\<close> has \<open>(total_terms + batch_size - 1) // batch_size\<close> starts, the \<open>total_batches\<close> of line 65 the progress log divides by, and every batch holds between 1 and \<open>batch_size\<close> terms.\<close>

theorem batches_count:
  "length (range_from 0 (length ts) batch_size) = (length ts + batch_size - 1) div batch_size \<and>
   (\<forall>i \<in> set (range_from 0 (length ts) batch_size).
      0 < length (batch ts batch_size i) \<and> length (batch ts batch_size i) \<le> batch_size)"
proof -
  have bs: "0 < batch_size" by (simp add: batch_size_def)
  then show ?thesis
    using length_range_from [OF bs, of 0 "length ts"]
    by (auto simp: batch_def dest: set_range_from)
qed

text \<open>C24: A second run changes nothing, whatever the first run did and whatever terms the second one reads: once the probe embedding succeeds, the first run leaves the collection in place (even when a later batch failed), and the second run skips all insertion.\<close>

theorem build_db_rerun_noop:
  assumes "emb [py ''dummy''] = Inr (v # vs)" and "build_db emb c terms = (r, c')"
  shows "build_db emb c' terms' = (None, c')"
  using build_db_has_collection [OF assms] assms(1) by (simp add: build_db_def)

text \<open>C25: When the embedding API fails on the batch starting at \<open>i\<close> after succeeding on every batch before it, the script raises that error and leaves a collection holding exactly the first \<open>i\<close> terms; by C24 no later run adds the others.\<close>

theorem build_db_partial:
  assumes "\<not> has_collection c collection_name" and "emb [py ''dummy''] = Inr (v # vs)"
    and i: "i \<in> set (range_from 0 (length terms) batch_size)"
    and "\<forall>j \<in> set (range_from 0 i batch_size). embeds_batch emb (length v) (batch terms batch_size j)"
    and "terms_fit terms" and fail: "emb (batch terms batch_size i) = Inl e"
  shows "\<exists>c'. build_db emb c terms = (Some e, c') \<and> has_collection c' collection_name \<and>
           collection_terms c' collection_name = take i terms"
proof -
  let ?col = "\<lparr>coll_dim = length v, coll_rows = [], coll_indexed = True, coll_loaded = False\<rparr>"
  let ?c2 = "dict_set (dict_set c collection_name (?col\<lparr>coll_indexed := False\<rparr>)) collection_name ?col"
  have bs: "0 < batch_size" by (simp add: batch_size_def)
  from set_range_from [OF i] have il: "i < length terms" by simp
  have split: "range_from 0 (length terms) batch_size =
      range_from 0 i batch_size @ i # range_from (i + batch_size) (length terms) batch_size"
    using range_from_split [OF i] range_from_Cons [OF bs il] by simp
  have "\<forall>j \<in> set (range_from 0 i batch_size). embeds_batch emb (coll_dim ?col) (batch terms batch_size j) \<and>
      batch terms batch_size j \<noteq> [] \<and> terms_fit (batch terms batch_size j)"
    using assms(4,5) bs il by (auto simp: terms_fit_batch batch_not_Nil dest: set_range_from)
  moreover have "dict_get (client \<lparr>client = ?c2, total_tokens = 0\<rparr>) collection_name = Some ?col" by simp
  ultimately obtain st col' where
    loop: "insert_loop emb collection_name terms batch_size (range_from 0 i batch_size)
             \<lparr>client = ?c2, total_tokens = 0\<rparr> = (None, st)"
    and col': "dict_get (client st) collection_name = Some col'"
    and rows: "map snd (coll_rows col') = concat (map (batch terms batch_size) (range_from 0 i batch_size))"
    using insert_loop_good [of "\<lparr>client = ?c2, total_tokens = 0\<rparr>" collection_name ?col
      "range_from 0 i batch_size" emb terms batch_size] by auto
  obtain k where k: "i = k * batch_size" using range_from_multiple [OF i] by auto
  from rows concat_batches_upto [OF bs, of terms 0 k] k have "map snd (coll_rows col') = take i terms"
    by simp
  with loop col' fail show ?thesis
    using build_db_fresh [of c emb v vs terms, OF assms(1,2)]
    by (simp add: split insert_loop_append collection_terms_def has_collection_def)
qed

text \<open>C26: A batch holding a term longer than the schema's 100 code points is rejected by Milvus as a whole; the exception is logged and swallowed, so every term of that batch is silently left out and the loop goes on with the next batch.\<close>

theorem insert_loop_drops_rejected_batch:
  assumes "emb (batch terms bs i) = Inr vs" and "length vs = length (batch terms bs i)"
    and "batch terms bs i \<noteq> []" and "\<not> terms_fit (batch terms bs i)"
  shows "insert_loop emb n terms bs (i # is) st =
     insert_loop emb n terms bs is (st\<lparr>total_tokens := total_tokens st + batch_tokens (batch terms bs i)\<rparr>)"
proof -
  let ?bt = "batch terms bs i"
  from assms(4) obtain k where k: "k < length ?bt" and long: "term_max_length < length (?bt ! k)"
    by (auto simp: terms_fit_def list_all_length)
  with assms(2) have "(vs ! k, ?bt ! k) \<in> set (zip vs ?bt)" by (auto simp: in_set_zip)
  moreover from long have "\<not> row_ok d (vs ! k, ?bt ! k)" for d by (simp add: row_ok_def)
  ultimately have "\<not> list_all (row_ok d) (zip vs ?bt)" for d by (auto simp: list_all_iff)
  then have "\<exists>x. milvus_insert (client st) n (zip vs ?bt) = Inl x"
    by (simp add: milvus_insert_def split: option.splits)
  moreover from assms(2,3) have "zip vs ?bt \<noteq> []" by (cases vs) auto
  ultimately show ?thesis using assms(1) by (auto simp: Let_def)
qed

section \<open>Witnesses\<close>

theorem build_db_inserts_all_witness:
  "\<exists>c'. build_db unit_embedder [] [py ''AAA'', py ''AAI''] = (None, c') \<and>
     collection_terms c' collection_name = [py ''AAA'', py ''AAI''] \<and> collection_ready c' collection_name"
proof -
  have "\<not> has_collection ([] :: nat milvus) collection_name" by (simp add: has_collection_def dict_get_def)
  moreover have "unit_embedder [py ''dummy''] = Inr ([0] # [])" by (simp add: unit_embedder_def)
  moreover have "\<forall>i \<in> set (range_from 0 (length [py ''AAA'', py ''AAI'']) batch_size).
      embeds_batch unit_embedder (length [0::nat]) (batch [py ''AAA'', py ''AAI''] batch_size i)"
    by (simp add: batch_size_def range_from_Cons embeds_batch_def unit_embedder_def batch_def)
  moreover have "terms_fit [py ''AAA'', py ''AAI'']" by (simp add: terms_fit_def term_max_length_def py_def)
  ultimately show ?thesis by (rule build_db_inserts_all)
qed

theorem batches_count_witness:
  "length (range_from 0 2500 batch_size) = 3"
  using batches_count [of "replicate 2500 (py ''t'')"] by (simp add: batch_size_def)

theorem build_db_rerun_noop_witness:
  "build_db unit_embedder (snd (build_db unit_embedder [] [py ''AAA''])) [py ''AAI''] =
     (None, snd (build_db unit_embedder [] [py ''AAA'']))"
proof -
  have "unit_embedder [py ''dummy''] = Inr ([0] # [])" by (simp add: unit_embedder_def)
  then show ?thesis
    using build_db_rerun_noop [of unit_embedder "[0]" "[]" "[]" "[py ''AAA'']"
        "fst (build_db unit_embedder [] [py ''AAA''])" "snd (build_db unit_embedder [] [py ''AAA''])"
        "[py ''AAI'']"] by simp
qed

theorem build_db_partial_witness:
  "\<exists>c'. build_db failing_embedder [] [py ''AAA''] = (Some APIError, c') \<and>
     has_collection c' collection_name \<and> collection_terms c' collection_name = []"
proof -
  have "\<not> has_collection ([] :: nat milvus) collection_name" by (simp add: has_collection_def dict_get_def)
  moreover have "failing_embedder [py ''dummy''] = Inr ([0] # [])" by (simp add: failing_embedder_def)
  moreover have "0 \<in> set (range_from 0 (length [py ''AAA'']) batch_size)"
    by (simp add: batch_size_def range_from_Cons)
  moreover have "\<forall>j \<in> set (range_from 0 0 batch_size).
      embeds_batch failing_embedder (length [0::nat]) (batch [py ''AAA''] batch_size j)" by simp
  moreover have "terms_fit [py ''AAA'']" by (simp add: terms_fit_def term_max_length_def py_def)
  moreover have "failing_embedder (batch [py ''AAA''] batch_size 0) = Inl APIError"
    by (simp add: failing_embedder_def batch_def batch_size_def py_def)
  ultimately have "\<exists>c'. build_db failing_embedder [] [py ''AAA''] = (Some APIError, c') \<and>
      has_collection c' collection_name \<and> collection_terms c' collection_name = take 0 [py ''AAA'']"
    by (rule build_db_partial)
  then show ?thesis by simp
qed

theorem insert_loop_drops_rejected_batch_witness:
  "insert_loop unit_embedder collection_name [replicate 101 97] batch_size [0] \<lparr>client = [], total_tokens = 0\<rparr> =
     (None, \<lparr>client = [], total_tokens = 2\<rparr>)"
proof -
  have bt: "batch [replicate 101 97] batch_size 0 = [replicate 101 97]" by (simp add: batch_def batch_size_def)
  have "unit_embedder (batch [replicate 101 97] batch_size 0) = Inr [[0]]" by (simp add: bt unit_embedder_def)
  moreover have "length [[0::nat]] = length (batch [replicate 101 97] batch_size 0)" by (simp add: bt)
  moreover have "batch [replicate 101 97] batch_size 0 \<noteq> []" by (simp add: bt)
  moreover have "\<not> terms_fit (batch [replicate 101 97] batch_size 0)"
    by (simp add: bt terms_fit_def term_max_length_def)
  moreover have "py_split_ws (replicate (Suc n) (97::nat)) = [replicate (Suc n) 97]" for n
    by (induction n) (simp_all add: py_isspace_def)
  from this [of 100] have "batch_tokens [replicate 101 (97::nat)] = 2"
    by (simp add: batch_tokens_def)
  ultimately show ?thesis
    using insert_loop_drops_rejected_batch [of unit_embedder "[replicate 101 97]" batch_size 0 "[[0]]"
        collection_name "[]" "\<lparr>client = [], total_tokens = 0\<rparr>"] by (simp add: bt)
qed

end
