(* ===== verification/Batch_Loop.thy ===== *)
theory Batch_Loop
  imports Create_Db "HOL-Library.Sublist"
begin

text \<open>
  The batch loop of \<open>src/HW-03/create_db.py\<close> (lines 74--110) as a state machine. A
  state is either running, with the batch starts still to process and the client and
  token count, or finished, with the exception that ended the loop, if any. One step is
  one iteration of the \<open>for\<close> loop, or its exit: the rules are the branches of
  \<open>insert_loop\<close>, the guard of each the condition of its branch. The relation is
  deterministic, no running state is stuck, and every run reaches the finished state
  \<open>insert_loop\<close> computes in at most one step per batch and one to leave the loop
  (liveness). An invariant proved by rule induction over the reachable states says what
  the collection may hold at every point of a run, whatever the embedding API and
  Milvus do: a subsequence of the terms before the next batch, in order.
\<close>

datatype 'v loop_state = Running "nat list" "'v run" | Finished "py_error option" "'v run"

text \<open>Lines 89--91: the token estimate is added before the insert is attempted.\<close>

definition add_tokens :: "'v run \<Rightarrow> pystr list \<Rightarrow> 'v run" where
  "add_tokens st bt = st\<lparr>total_tokens := total_tokens st + batch_tokens bt\<rparr>"

inductive loop_step :: "'v embedder \<Rightarrow> pystr \<Rightarrow> pystr list \<Rightarrow> nat \<Rightarrow> 'v loop_state \<Rightarrow> 'v loop_state \<Rightarrow> bool"
  for emb name terms bs where
  loop_exit: "loop_step emb name terms bs (Running [] st) (Finished None st)"
| api_error: "emb (batch terms bs i) = Inl e \<Longrightarrow>
    loop_step emb name terms bs (Running (i # ps) st) (Finished (Some e) st)"
| no_rows: "emb (batch terms bs i) = Inr vs \<Longrightarrow> zip vs (batch terms bs i) = [] \<Longrightarrow>
    loop_step emb name terms bs (Running (i # ps) st) (Finished (Some IndexError) (add_tokens st (batch terms bs i)))"
| rejected: "emb (batch terms bs i) = Inr vs \<Longrightarrow> zip vs (batch terms bs i) \<noteq> [] \<Longrightarrow>
    milvus_insert (client st) name (zip vs (batch terms bs i)) = Inl e \<Longrightarrow>
    loop_step emb name terms bs (Running (i # ps) st) (Running ps (add_tokens st (batch terms bs i)))"
| inserted: "emb (batch terms bs i) = Inr vs \<Longrightarrow> zip vs (batch terms bs i) \<noteq> [] \<Longrightarrow>
    milvus_insert (client st) name (zip vs (batch terms bs i)) = Inr c' \<Longrightarrow>
    loop_step emb name terms bs (Running (i # ps) st) (Running ps ((add_tokens st (batch terms bs i))\<lparr>client := c'\<rparr>))"

code_pred loop_step .

inductive_cases loop_step_FinishedE [elim!]: "loop_step emb name terms bs (Finished r st) s"
inductive_cases loop_step_NilE [elim!]: "loop_step emb name terms bs (Running [] st) s"
inductive_cases loop_step_ConsE: "loop_step emb name terms bs (Running (i # ps) st) s"

text \<open>The state \<open>insert_loop\<close> ends in.\<close>

definition loop_result :: "'v embedder \<Rightarrow> pystr \<Rightarrow> pystr list \<Rightarrow> nat \<Rightarrow> nat list \<Rightarrow> 'v run \<Rightarrow> 'v loop_state" where
  "loop_result emb name terms bs ps st = (case insert_loop emb name terms bs ps st of (r, st') \<Rightarrow> Finished r st')"

text \<open>
  The invariant. While running, the pending starts are the rest of the \<open>range\<close> from the
  next start, and the collection holds a subsequence of the terms before it; once
  finished, a subsequence of the terms.
\<close>

definition next_start :: "pystr list \<Rightarrow> nat list \<Rightarrow> nat" where
  "next_start terms ps = (case ps of [] \<Rightarrow> length terms | i # _ \<Rightarrow> i)"

fun loop_inv :: "pystr list \<Rightarrow> nat \<Rightarrow> pystr \<Rightarrow> 'v loop_state \<Rightarrow> bool" where
  "loop_inv terms bs name (Running ps st) \<longleftrightarrow>
     ps = range_from (next_start terms ps) (length terms) bs \<and>
     subseq (collection_terms (client st) name) (take (next_start terms ps) terms)"
| "loop_inv terms bs name (Finished r st) \<longleftrightarrow> subseq (collection_terms (client st) name) terms"

text \<open>A test run: two terms, batches of one, a collection of dimension 1 that exists.\<close>

definition demo_terms :: "pystr list" where
  "demo_terms = [py ''AAA'', py ''AAI'']"

definition demo_run :: "nat run" where
  "demo_run = \<lparr>client = [(collection_name, \<lparr>coll_dim = 1, coll_rows = [], coll_indexed = True, coll_loaded = False\<rparr>)],
     total_tokens = 0\<rparr>"

section \<open>Steps\<close>

lemma client_add_tokens [simp]: "client (add_tokens st bt) = client st"
  by (simp add: add_tokens_def)

lemma loop_step_deterministic:
  "loop_step emb name terms bs s t \<Longrightarrow> loop_step emb name terms bs s u \<Longrightarrow> u = t"
  by (induction rule: loop_step.induct) (auto elim: loop_step_ConsE)

text \<open>One iteration of \<open>insert_loop\<close> is one step.\<close>

lemma insert_loop_step:
  "\<exists>t. loop_step emb name terms bs (Running (i # ps) st) t \<and>
     (case t of Running ps' st' \<Rightarrow> ps' = ps \<and> loop_result emb name terms bs (i # ps) st = loop_result emb name terms bs ps st'
      | Finished r st' \<Rightarrow> loop_result emb name terms bs (i # ps) st = t)"
proof (cases "emb (batch terms bs i)")
  case (Inl e)
  then show ?thesis
    by (intro exI [of _ "Finished (Some e) st"]) (auto intro: loop_step.intros simp: loop_result_def)
next
  case (Inr vs)
  let ?bt = "batch terms bs i"
  let ?st = "add_tokens st ?bt"
  consider (empty) "zip vs ?bt = []"
    | (rej) e where "zip vs ?bt \<noteq> []" "milvus_insert (client st) name (zip vs ?bt) = Inl e"
    | (ins) c' where "zip vs ?bt \<noteq> []" "milvus_insert (client st) name (zip vs ?bt) = Inr c'"
    by (cases "milvus_insert (client st) name (zip vs ?bt)") auto
  then show ?thesis
  proof cases
    case empty
    with Inr have "loop_step emb name terms bs (Running (i # ps) st) (Finished (Some IndexError) ?st)"
      by (rule loop_step.no_rows)
    moreover from Inr empty have "loop_result emb name terms bs (i # ps) st = Finished (Some IndexError) ?st"
      by (simp add: loop_result_def add_tokens_def)
    ultimately show ?thesis by auto
  next
    case rej
    from Inr rej have "loop_step emb name terms bs (Running (i # ps) st) (Running ps ?st)"
      by (rule loop_step.rejected)
    moreover from Inr rej have "loop_result emb name terms bs (i # ps) st = loop_result emb name terms bs ps ?st"
      by (simp add: loop_result_def add_tokens_def)
    ultimately show ?thesis by auto
  next
    case ins
    from Inr ins have "loop_step emb name terms bs (Running (i # ps) st) (Running ps (?st\<lparr>client := c'\<rparr>))"
      by (rule loop_step.inserted)
    moreover from Inr ins have
      "loop_result emb name terms bs (i # ps) st = loop_result emb name terms bs ps (?st\<lparr>client := c'\<rparr>)"
      by (simp add: loop_result_def add_tokens_def)
    ultimately show ?thesis by auto
  qed
qed

lemma loop_step_progress: "\<exists>t. loop_step emb name terms bs (Running ps st) t"
  using insert_loop_step [of emb name terms bs _ _ st] by (cases "ps") (auto intro: loop_step.intros)

lemma loop_result_reached:
  "\<exists>n \<le> Suc (length ps). (loop_step emb name terms bs ^^ n) (Running ps st) (loop_result emb name terms bs ps st)"
proof (induction "ps" arbitrary: st)
  case Nil
  have "(loop_step emb name terms bs ^^ Suc 0) (Running [] st) (Finished None st)"
    by (rule relpowp_Suc_I2 [where y = "Finished None st"]) (auto intro: loop_step.loop_exit)
  moreover have "loop_result emb name terms bs [] st = Finished None st" by (simp add: loop_result_def)
  ultimately show ?case unfolding list.size by (metis le_refl)
next
  case (Cons i ps)
  from insert_loop_step [of emb name terms bs i "ps" st] obtain t where
    s: "loop_step emb name terms bs (Running (i # ps) st) t" and
    t: "case t of Running ps' st' \<Rightarrow> ps' = ps \<and> loop_result emb name terms bs (i # ps) st = loop_result emb name terms bs ps st'
      | Finished r st' \<Rightarrow> loop_result emb name terms bs (i # ps) st = t" by blast
  show ?case
  proof (cases t)
    case (Running ps' st')
    with Cons.IH [of st'] t obtain n where "n \<le> Suc (length ps)"
      and "(loop_step emb name terms bs ^^ n) t (loop_result emb name terms bs (i # ps) st)" by auto
    with s show ?thesis by (auto intro!: exI [of _ "Suc n"] relpowp_Suc_I2)
  next
    case (Finished r st')
    with s t show ?thesis by (auto intro!: exI [of _ 1])
  qed
qed

text \<open>A run from a running state never passes its finished state: everything reached is on the way.\<close>

lemma loop_steps_to_result:
  "(loop_step emb name terms bs)\<^sup>*\<^sup>* (Running ps st) s \<Longrightarrow>
     (loop_step emb name terms bs)\<^sup>*\<^sup>* s (loop_result emb name terms bs ps st)"
proof (induction rule: rtranclp_induct)
  case base
  from loop_result_reached [of "ps" emb name terms bs st] show ?case by (auto dest: relpowp_imp_rtranclp)
next
  case (step s t)
  from step.IH show ?case
  proof (cases rule: converse_rtranclpE)
    case base
    with step.hyps(2) have False by (auto simp: loop_result_def split: prod.splits)
    then show ?thesis ..
  next
    case (step u)
    with step.hyps(2) have "u = t" by (blast intro: loop_step_deterministic)
    with step show ?thesis by simp
  qed
qed

section \<open>The invariant\<close>

lemma range_from_ConsD:
  "range_from a b s = i # ps \<Longrightarrow> i = a \<and> a < b \<and> 0 < s \<and> ps = range_from (a + s) b s"
  by (subst (asm) range_from.simps) (auto split: if_splits)

lemma range_from_next_start:
  assumes "0 < s" and "ps = range_from a (length terms) s"
  shows "ps = range_from (next_start terms ps) (length terms) s \<and> take (next_start terms ps) terms = take a terms"
proof (cases ps)
  case Nil
  with assms have "length terms \<le> a" by (metis list.distinct(1) not_le range_from_Cons)
  with Nil show ?thesis by (simp add: next_start_def)
next
  case (Cons i ps')
  with assms(2) have "range_from a (length terms) s = i # ps'" by simp
  with Cons have "next_start terms ps = a" by (auto simp: next_start_def dest!: range_from_ConsD)
  with assms(2) show ?thesis by simp
qed

lemma subseq_take_le: "subseq xs (take a ys) \<Longrightarrow> a \<le> b \<Longrightarrow> subseq xs (take b ys)"
  by (metis le_add_diff_inverse subseq_rev_drop_many take_add)

lemma subseq_take: "subseq xs (take a ys) \<Longrightarrow> subseq xs ys"
  by (metis append_take_drop_id subseq_rev_drop_many)

lemma collection_terms_insert:
  "milvus_insert c n rows = Inr c' \<Longrightarrow> collection_terms c' n = collection_terms c n @ map snd rows"
  by (auto simp: collection_terms_def dest!: milvus_insert_Inr)

text \<open>A batch's inserted terms are a prefix of the batch, which follows the terms before it.\<close>

lemma subseq_insert_batch:
  assumes "subseq xs (take i terms)"
  shows "subseq (xs @ map snd (zip vs (batch terms bs i))) (take (i + bs) terms)"
proof -
  have "subseq (map snd (zip vs (batch terms bs i))) (batch terms bs i)"
    by (simp add: map_snd_zip_take prefix_imp_subseq take_is_prefix)
  with assms have "subseq (xs @ map snd (zip vs (batch terms bs i))) (take i terms @ batch terms bs i)"
    by (rule list_emb_append_mono)
  then show ?thesis by (simp add: batch_def take_add)
qed

lemma loop_step_inv:
  "loop_step emb name terms bs s t \<Longrightarrow> 0 < bs \<Longrightarrow> loop_inv terms bs name s \<Longrightarrow> loop_inv terms bs name t"
proof (induction rule: loop_step.induct)
  case (loop_exit st)
  then show ?case by (simp add: next_start_def)
next
  case (api_error i e ps st)
  then show ?case by (auto simp: next_start_def intro: subseq_take)
next
  case (no_rows i vs ps st)
  then show ?case by (auto simp: next_start_def intro: subseq_take)
next
  case (rejected i vs st e ps)
  then have "ps = range_from (i + bs) (length terms) bs" and c: "subseq (collection_terms (client st) name) (take i terms)"
    using range_from_ConsD [of i "length terms" bs i ps] by (simp_all add: next_start_def)
  with rejected.prems(1) show ?case using range_from_next_start [of bs ps "i + bs" terms]
    by (auto intro: subseq_take_le [OF c])
next
  case (inserted i vs st c' ps)
  then have "ps = range_from (i + bs) (length terms) bs" and c: "subseq (collection_terms (client st) name) (take i terms)"
    using range_from_ConsD [of i "length terms" bs i ps] by (simp_all add: next_start_def)
  with inserted show ?case using range_from_next_start [of bs ps "i + bs" terms]
    by (auto simp: collection_terms_insert intro: subseq_insert_batch [OF c])
qed

lemma loop_inv_steps:
  assumes "(loop_step emb name terms bs)\<^sup>*\<^sup>* s t" and "0 < bs" and "loop_inv terms bs name s"
  shows "loop_inv terms bs name t"
  using assms by (induction rule: rtranclp_induct) (auto intro: loop_step_inv)

lemma loop_inv_start:
  "0 < bs \<Longrightarrow> collection_terms (client st) name = [] \<Longrightarrow>
     loop_inv terms bs name (Running (range_from 0 (length terms) bs) st)"
  using range_from_next_start [of bs "range_from 0 (length terms) bs" 0 terms] by simp

section \<open>Properties of the loop\<close>

text \<open>
  C29: In every state a run of the loop reaches from the start \<open>build_db\<close> gives it (the
  starts \<open>range(0, total_terms, batch_size)\<close>, an empty collection), whatever the
  embedding API and Milvus answer, the collection holds a subsequence of the terms,
  in their order: of the terms before the next batch while the loop runs, of all terms
  once it has ended. No term is invented, repeated or reordered.
\<close>

theorem batch_loop_invariant:
  assumes "0 < bs" and "collection_terms (client st) name = []"
    and "(loop_step emb name terms bs)\<^sup>*\<^sup>* (Running (range_from 0 (length terms) bs) st) s"
  shows "loop_inv terms bs name s"
  using loop_inv_steps [OF assms(3,1) loop_inv_start [OF assms(1,2)]] .

section \<open>Witnesses\<close>

theorem batch_loop_invariant_witness:
  "loop_inv demo_terms 1 collection_name (loop_result unit_embedder collection_name demo_terms 1 [0, 1] demo_run)"
proof -
  have r: "range_from 0 (length demo_terms) 1 = [0, 1]" by (simp add: demo_terms_def range_from_Cons)
  have c: "collection_terms (client demo_run) collection_name = []"
    by (simp add: demo_run_def collection_terms_def dict_get_def)
  obtain n where "(loop_step unit_embedder collection_name demo_terms 1 ^^ n) (Running [0, 1] demo_run)
      (loop_result unit_embedder collection_name demo_terms 1 [0, 1] demo_run)"
    using loop_result_reached by blast
  then have "(loop_step unit_embedder collection_name demo_terms 1)\<^sup>*\<^sup>* (Running (range_from 0 (length demo_terms) 1) demo_run)
      (loop_result unit_embedder collection_name demo_terms 1 [0, 1] demo_run)"
    unfolding r by (rule relpowp_imp_rtranclp)
  from batch_loop_invariant [OF _ c this] show ?thesis by simp
qed

end
