(* ===== verification/Query.thy ===== *)
theory Query
  imports Batch_Loop
begin

text \<open>
  The similarity query \<open>src/HW-03/test.py\<close> runs against the database
  \<open>create_db.py\<close> builds: it embeds the query text, takes the first vector
  (\<open>query_embeddings[0]\<close>), asks Milvus for the five rows most similar to it and logs
  them numbered from 1. The Milvus search is modelled from the pymilvus documentation, on
  the client state of \<open>Create_Db\<close>: it raises \<open>MilvusException\<close> when the collection is
  missing or not loaded, or when the query vector has the wrong dimension, and otherwise
  returns up to \<open>limit\<close> rows by decreasing similarity under the collection's metric
  (COSINE, line 57 of \<open>create_db.py\<close>), which is a parameter here. Rows carry no id in
  the model (\<open>auto_id\<close>), so the logged \<open>ID\<close> is left out. The composition of the two
  scripts is the query run on whatever client state a build left behind.
\<close>

definition coll_searchable :: "'v milvus \<Rightarrow> pystr \<Rightarrow> bool" where
  "coll_searchable c name \<longleftrightarrow> (case dict_get c name of None \<Rightarrow> False | Some col \<Rightarrow> coll_loaded col)"

definition milvus_search ::
  "('v vector \<Rightarrow> 'v vector \<Rightarrow> 'd::linorder) \<Rightarrow> 'v milvus \<Rightarrow> pystr \<Rightarrow> 'v vector \<Rightarrow> nat \<Rightarrow> py_error + (pystr \<times> 'd) list" where
  "milvus_search sim c name q limit =
     (case dict_get c name of
        None \<Rightarrow> Inl MilvusException
      | Some col \<Rightarrow>
          if \<not> coll_loaded col \<or> length q \<noteq> coll_dim col then Inl MilvusException
          else Inr (take limit (rev (sort_key snd (map (\<lambda>(v, t). (t, sim q v)) (coll_rows col))))))"

text \<open>Lines 17, 19 and 26 of \<open>test.py\<close>.\<close>

definition query_collection :: pystr where
  "query_collection = py ''financial_concepts''"

definition test_query :: pystr where
  "test_query = py ''Triple A''"

definition search_limit :: nat where
  "search_limit = 5"

text \<open>Line 31: \<open>enumerate(search_result[0], start=1)\<close>.\<close>

definition hit_log :: "(pystr \<times> 'd) list \<Rightarrow> (nat \<times> pystr \<times> 'd) list" where
  "hit_log hits = zip [1..<Suc (length hits)] hits"

text \<open>Lines 20--32: embed, take the first vector, search, log.\<close>

definition run_query ::
  "'v embedder \<Rightarrow> ('v vector \<Rightarrow> 'v vector \<Rightarrow> 'd::linorder) \<Rightarrow> 'v milvus \<Rightarrow> pystr \<Rightarrow> py_error + (nat \<times> pystr \<times> 'd) list" where
  "run_query emb sim c query =
     bind_err (emb [query])
       (\<lambda>qs. case qs of
               [] \<Rightarrow> Inl IndexError
             | q # _ \<Rightarrow> bind_err (milvus_search sim c query_collection q search_limit) (\<lambda>hits. Inr (hit_log hits)))"

text \<open>What a logged result promises: at most five hits, numbered from 1, best first, each a stored term.\<close>

definition log_ok :: "pystr list \<Rightarrow> (nat \<times> pystr \<times> 'd::linorder) list \<Rightarrow> bool" where
  "log_ok terms logs \<longleftrightarrow>
     length logs \<le> search_limit \<and> map fst logs = [1..<Suc (length logs)] \<and>
     sorted_wrt (\<ge>) (map (snd \<circ> snd) logs) \<and> set (map (fst \<circ> snd) logs) \<subseteq> set terms"

section \<open>The search\<close>

lemma query_collection_eq [simp]: "query_collection = collection_name"
  by (simp add: query_collection_def collection_name_def)

lemma milvus_search_Inr:
  assumes "milvus_search sim c name q limit = Inr hits"
  shows "coll_searchable c name \<and> length hits \<le> limit \<and> sorted_wrt (\<ge>) (map snd hits) \<and>
    set (map fst hits) \<subseteq> set (collection_terms c name)"
proof -
  from assms obtain col where col: "dict_get c name = Some col" and l: "coll_loaded col"
    and h: "hits = take limit (rev (sort_key snd (map (\<lambda>(v, t). (t, sim q v)) (coll_rows col))))"
    by (auto simp: milvus_search_def split: option.splits if_splits)
  let ?xs = "sort_key snd (map (\<lambda>(v, t). (t, sim q v)) (coll_rows col))"
  have "sorted (map snd ?xs)" by (rule sorted_sort_key)
  then have "sorted_wrt (\<ge>) (map snd (rev ?xs))" by (simp add: rev_map [symmetric] sorted_wrt_rev)
  then have "sorted_wrt (\<ge>) (map snd hits)" unfolding h by (simp add: take_map [symmetric] sorted_wrt_take)
  moreover have "set (map fst hits) \<subseteq> set (collection_terms c name)"
    using col unfolding h by (force simp: collection_terms_def dest!: in_set_takeD)
  ultimately show ?thesis using col l h by (simp add: coll_searchable_def)
qed

lemma hit_log_ok:
  assumes "length hits \<le> search_limit" and "sorted_wrt (\<ge>) (map snd hits)" and "set (map fst hits) \<subseteq> set terms"
  shows "log_ok terms (hit_log hits)"
proof -
  have z: "map snd (hit_log hits) = hits" by (simp add: hit_log_def map_snd_zip del: upt_Suc)
  have f: "map fst (hit_log hits) = [1..<Suc (length (hit_log hits))]"
    by (simp add: hit_log_def map_fst_zip del: upt_Suc)
  have "map (snd \<circ> snd) (hit_log hits) = map snd hits" and "map (fst \<circ> snd) (hit_log hits) = map fst hits"
    using z by (metis map_map)+
  moreover have "length (hit_log hits) = length hits" by (simp add: hit_log_def del: upt_Suc)
  ultimately show ?thesis using f assms unfolding log_ok_def by presburger
qed

lemma run_query_Inr:
  assumes "run_query emb sim c query = Inr logs"
  shows "coll_searchable c collection_name \<and> log_ok (collection_terms c collection_name) logs"
proof -
  from assms obtain qs where "(case qs of [] \<Rightarrow> Inl IndexError
      | q # _ \<Rightarrow> bind_err (milvus_search sim c query_collection q search_limit) (\<lambda>hits. Inr (hit_log hits))) = Inr logs"
    by (auto simp: run_query_def bind_err_Inr_iff simp del: query_collection_eq)
  then obtain q hits where "milvus_search sim c collection_name q search_limit = Inr hits"
    and "logs = hit_log hits"
    by (cases qs) (auto simp: bind_err_Inr_iff)
  then show ?thesis by (auto dest!: milvus_search_Inr intro: hit_log_ok)
qed

lemma milvus_search_unsearchable:
  "\<not> coll_searchable c name \<Longrightarrow> milvus_search sim c name q limit = Inl MilvusException"
  by (auto simp: milvus_search_def coll_searchable_def split: option.splits)

lemma run_query_unsearchable:
  "\<not> coll_searchable c collection_name \<Longrightarrow> \<exists>e. run_query emb sim c query = Inl e"
  by (cases "emb [query]") (auto simp: run_query_def milvus_search_unsearchable split: list.splits)

lemma log_ok_mono: "log_ok xs logs \<Longrightarrow> set xs \<subseteq> set ys \<Longrightarrow> log_ok ys logs"
  by (auto simp: log_ok_def)

lemma subseq_set: "subseq xs ys \<Longrightarrow> set xs \<subseteq> set ys"
  by (induction rule: list_emb.induct) auto

section \<open>What a build leaves for the query\<close>

lemma milvus_insert_searchable:
  "milvus_insert c n rows = Inr c' \<Longrightarrow> coll_searchable c' m \<longleftrightarrow> coll_searchable c m"
  by (cases "m = n") (auto simp: coll_searchable_def dict_get_def dest!: milvus_insert_Inr)

lemma insert_loop_unsearchable:
  "\<not> coll_searchable (client st) n \<Longrightarrow> insert_loop emb n terms bs ps st = (r, st') \<Longrightarrow> \<not> coll_searchable (client st') n"
  by (induction emb n terms bs ps st rule: insert_loop.induct)
    (auto simp: Let_def milvus_insert_searchable split: sum.splits if_splits)

lemma collection_terms_load:
  "load_collection c n = Inr c' \<Longrightarrow> collection_terms c' m = collection_terms c m"
  by (cases "m = n") (auto simp: load_collection_def collection_terms_def dict_get_def split: option.splits)

lemma no_collection:
  "\<not> has_collection c n \<Longrightarrow> \<not> coll_searchable c n \<and> collection_terms c n = []"
  by (simp add: has_collection_def coll_searchable_def collection_terms_def)

text \<open>A build from a database without the collection, split at its loop.\<close>

lemma build_db_cases:
  assumes "\<not> has_collection c collection_name" and "build_db emb c terms = (r, c')"
  obtains (early) "c' = c" "r \<noteq> None"
  | (loop) v vs r1 st where "emb [py ''dummy''] = Inr (v # vs)"
      "insert_loop emb collection_name terms batch_size (range_from 0 (length terms) batch_size)
         \<lparr>client = dict_set (dict_set c collection_name
            \<lparr>coll_dim = length v, coll_rows = [], coll_indexed = False, coll_loaded = False\<rparr>) collection_name
            \<lparr>coll_dim = length v, coll_rows = [], coll_indexed = True, coll_loaded = False\<rparr>, total_tokens = 0\<rparr> = (r1, st)"
      "(r1 \<noteq> None \<and> r = r1 \<and> c' = client st) \<or>
       (r1 = None \<and> ((\<exists>e. r = Some e \<and> c' = client st \<and> load_collection (client st) collection_name = Inl e) \<or>
                     (r = None \<and> load_collection (client st) collection_name = Inr c')))"
proof (cases "emb [py ''dummy'']")
  case (Inl e)
  with assms show ?thesis using early by (auto simp: build_db_def)
next
  case (Inr vs0)
  show ?thesis
  proof (cases vs0)
    case Nil
    with Inr assms show ?thesis using early by (auto simp: build_db_def)
  next
    case (Cons v vs)
    with Inr have e: "emb [py ''dummy''] = Inr (v # vs)" by simp
    obtain r1 st where l: "insert_loop emb collection_name terms batch_size (range_from 0 (length terms) batch_size)
         \<lparr>client = dict_set (dict_set c collection_name
            \<lparr>coll_dim = length v, coll_rows = [], coll_indexed = False, coll_loaded = False\<rparr>) collection_name
            \<lparr>coll_dim = length v, coll_rows = [], coll_indexed = True, coll_loaded = False\<rparr>, total_tokens = 0\<rparr> = (r1, st)"
      by fastforce
    from assms(2) build_db_fresh [of c emb v vs terms, OF assms(1) e] l
    have "(r1 \<noteq> None \<and> r = r1 \<and> c' = client st) \<or>
       (r1 = None \<and> ((\<exists>e. r = Some e \<and> c' = client st \<and> load_collection (client st) collection_name = Inl e) \<or>
                     (r = None \<and> load_collection (client st) collection_name = Inr c')))"
      by (cases r1) (auto simp: Let_def split: sum.splits)
    with e l show ?thesis by (rule loop)
  qed
qed

lemma build_db_failed_unsearchable:
  assumes "\<not> has_collection c collection_name" and "build_db emb c terms = (r, c')" and "r \<noteq> None"
  shows "\<not> coll_searchable c' collection_name"
  using assms(1,2)
proof (cases rule: build_db_cases)
  case early
  with assms(1) show ?thesis by (simp add: no_collection)
next
  case (loop v vs r1 st)
  have "\<not> coll_searchable (client st) collection_name"
    by (rule insert_loop_unsearchable [OF _ loop(2)]) (simp add: coll_searchable_def dict_get_def)
  with loop(3) assms(3) show ?thesis by auto
qed

lemma build_db_terms_subseq:
  assumes "\<not> has_collection c collection_name" and "build_db emb c terms = (r, c')"
  shows "subseq (collection_terms c' collection_name) terms"
  using assms
proof (cases rule: build_db_cases)
  case early
  with assms(1) show ?thesis by (simp add: no_collection)
next
  case (loop v vs r1 st)
  let ?st0 = "\<lparr>client = dict_set (dict_set c collection_name
            \<lparr>coll_dim = length v, coll_rows = [], coll_indexed = False, coll_loaded = False\<rparr>) collection_name
            \<lparr>coll_dim = length v, coll_rows = [], coll_indexed = True, coll_loaded = False\<rparr>, total_tokens = 0\<rparr>"
  have bs: "0 < batch_size" by (simp add: batch_size_def)
  obtain n where "(loop_step emb collection_name terms batch_size ^^ n)
      (Running (range_from 0 (length terms) batch_size) ?st0) (Finished r1 st)"
    using loop_result_reached [of "range_from 0 (length terms) batch_size" emb collection_name terms batch_size ?st0] loop(2)
    by (auto simp: loop_result_def)
  then have "(loop_step emb collection_name terms batch_size)\<^sup>*\<^sup>*
      (Running (range_from 0 (length terms) batch_size) ?st0) (Finished r1 st)"
    by (rule relpowp_imp_rtranclp)
  moreover have "collection_terms (client ?st0) collection_name = []"
    by (simp add: collection_terms_def dict_get_def)
  ultimately have "loop_inv terms batch_size collection_name (Finished r1 st)"
    using loop_inv_steps [OF _ bs] loop_inv_start [OF bs] by blast
  with loop(3) show ?thesis by (auto simp: collection_terms_load)
qed

section \<open>The query after a build\<close>

text \<open>
  C30: Run on the database a build left, starting from a database without the
  collection: when the build raised, every query raises too (the collection was never
  loaded, and the rerun skips the build, by C24); when a query returns, it logs at most
  five hits, numbered from 1, best first, each one a term of the CSV.
\<close>

theorem query_after_build:
  assumes "\<not> has_collection c collection_name" and "build_db emb c terms = (r, c')"
  shows "(r \<noteq> None \<longrightarrow> (\<exists>e. run_query emb' sim c' q = Inl e)) \<and>
         (\<forall>logs. run_query emb' sim c' q = Inr logs \<longrightarrow> log_ok terms logs)"
proof (intro conjI impI allI)
  assume "r \<noteq> None"
  with assms show "\<exists>e. run_query emb' sim c' q = Inl e"
    by (intro run_query_unsearchable build_db_failed_unsearchable)
next
  fix logs assume "run_query emb' sim c' q = Inr logs"
  then have "log_ok (collection_terms c' collection_name) logs" by (simp add: run_query_Inr)
  moreover have "set (collection_terms c' collection_name) \<subseteq> set terms"
    using build_db_terms_subseq [OF assms] by (rule subseq_set)
  ultimately show "log_ok terms logs" by (rule log_ok_mono)
qed

section \<open>Witnesses\<close>

theorem query_after_build_witness:
  "run_query unit_embedder (\<lambda>_ _. 0::nat) (snd (build_db unit_embedder [] demo_terms)) test_query =
     Inr [(1, py ''AAI'', 0), (2, py ''AAA'', 0)] \<and>
   log_ok demo_terms [(1, py ''AAI'', 0::nat), (2, py ''AAA'', 0)] \<and>
   (\<exists>e. run_query unit_embedder (\<lambda>_ _. 0::nat) (snd (build_db failing_embedder [] demo_terms)) test_query = Inl e)"
proof -
  have nc: "\<not> has_collection ([] :: nat milvus) collection_name" by (simp add: has_collection_def dict_get_def)
  have q: "run_query unit_embedder (\<lambda>_ _. 0::nat) (snd (build_db unit_embedder [] demo_terms)) test_query =
     Inr [(1, py ''AAI'', 0), (2, py ''AAA'', 0)]"
    by (simp add: run_query_def build_db_def demo_terms_def unit_embedder_def create_collection_def
        create_index_def py_range_def batch_size_def range_from_Cons batch_def milvus_insert_def row_ok_def
        term_max_length_def load_collection_def milvus_search_def search_limit_def hit_log_def
        has_collection_def dict_get_def batch_tokens_def py_def py_isspace_def)
  have f: "fst (build_db failing_embedder [] demo_terms) \<noteq> None"
    by (simp add: build_db_def demo_terms_def failing_embedder_def create_collection_def create_index_def
        py_range_def batch_size_def range_from_Cons batch_def has_collection_def dict_get_def py_def)
  from query_after_build [OF nc, of unit_embedder demo_terms "fst (build_db unit_embedder [] demo_terms)"
      "snd (build_db unit_embedder [] demo_terms)" unit_embedder "\<lambda>_ _. 0::nat" test_query] q
  have "log_ok demo_terms [(1, py ''AAI'', 0::nat), (2, py ''AAA'', 0)]" by simp
  moreover from query_after_build [OF nc, of failing_embedder demo_terms "fst (build_db failing_embedder [] demo_terms)"
      "snd (build_db failing_embedder [] demo_terms)" unit_embedder "\<lambda>_ _. 0::nat" test_query] f
  have "\<exists>e. run_query unit_embedder (\<lambda>_ _. 0::nat) (snd (build_db failing_embedder [] demo_terms)) test_query = Inl e"
    by simp
  ultimately show ?thesis using q by simp
qed

end
