(* ===== verification/Progress.thy ===== *)
theory Progress
  imports Create_Db Complex_Main
begin

text \<open>
  The progress report of the batch loop of \<open>src/HW-03/create_db.py\<close>: the number of
  batches announced before the loop (line 65), and for each batch its number (line 76)
  and the percentage of terms handled so far (line 94), which lines 95--96 log. Python
  computes the percentage in floating point; the model uses \<open>real\<close>, the value the float
  approximates. The report is logged after the batch has been embedded, so these are the
  lines of every iteration that gets that far. The lemmas show that the batch numbers run
  from 1 to the announced total without a gap, that the percentage lies in (0, 100],
  rises strictly, and reaches 100 exactly at the last batch.
\<close>

text \<open>Line 65: \<open>(total_terms + batch_size - 1) // batch_size\<close>.\<close>

definition total_batches :: "nat \<Rightarrow> nat \<Rightarrow> nat" where
  "total_batches total_terms bs = (total_terms + bs - 1) div bs"

text \<open>Line 76: \<open>i // batch_size + 1\<close>.\<close>

definition current_batch :: "nat \<Rightarrow> nat \<Rightarrow> nat" where
  "current_batch i bs = i div bs + 1"

text \<open>Line 94: \<open>(i + len(batch_terms)) / total_terms * 100\<close>.\<close>

definition progress :: "pystr list \<Rightarrow> nat \<Rightarrow> nat \<Rightarrow> real" where
  "progress terms bs i = real (i + length (batch terms bs i)) / real (length terms) * 100"

text \<open>
  Lines 95--96: the values of the two log lines, percentage, terms handled, total terms,
  batch number and number of batches.
\<close>

definition progress_log :: "pystr list \<Rightarrow> nat \<Rightarrow> nat \<Rightarrow> real \<times> nat \<times> nat \<times> nat \<times> nat" where
  "progress_log terms bs i =
     (progress terms bs i, i + length (batch terms bs i), length terms, current_batch i bs,
      total_batches (length terms) bs)"

section \<open>The batch starts\<close>

lemma range_from_upt:
  "0 < s \<Longrightarrow> range_from a b s = map (\<lambda>k. a + k * s) [0..<(b - a + s - 1) div s]"
proof (induction a b s rule: range_from.induct)
  case (1 a b s)
  show ?case
  proof (cases "b \<le> a")
    case False
    let ?m = "(b - (a + s) + s - 1) div s"
    have m: "(b - a + s - 1) div s = Suc ?m"
      using div_round_up_step [OF "1.prems", of "b - a"] False by (simp add: diff_diff_add)
    have "map (\<lambda>k. a + k * s) [0..<Suc ?m] = a # map (\<lambda>k. a + s + k * s) [0..<?m]"
      by (simp only: upt_conv_Cons zero_less_Suc map_Suc_upt [symmetric]) (simp add: add.assoc)
    with False "1.IH" "1.prems" show ?thesis by (simp only: m range_from_Cons not_le) simp
  qed (use "1.prems" in simp)
qed

lemma batch_starts: "0 < bs \<Longrightarrow> range_from 0 n bs = map (\<lambda>k. k * bs) [0..<total_batches n bs]"
  by (simp add: range_from_upt total_batches_def)

lemma total_batches_cover: "0 < bs \<Longrightarrow> n \<le> total_batches n bs * bs"
proof -
  assume bs: "0 < bs"
  have "n + bs - 1 = total_batches n bs * bs + (n + bs - 1) mod bs"
    by (simp add: total_batches_def)
  moreover have "(n + bs - 1) mod bs < bs" using bs by simp
  ultimately show ?thesis by linarith
qed

lemma handled_upto: "i \<le> length terms \<Longrightarrow> i + length (batch terms bs i) = min (i + bs) (length terms)"
  by (simp add: batch_def min_def) arith

lemma progress_eq:
  "i \<le> length terms \<Longrightarrow> progress terms bs i = real (min (i + bs) (length terms)) / real (length terms) * 100"
  unfolding progress_def by (simp only: handled_upto)

lemma sorted_wrt_upt_rel: "(\<And>i j. i < j \<Longrightarrow> j < m \<Longrightarrow> P i j) \<Longrightarrow> sorted_wrt P [0..<m]"
  by (simp add: sorted_wrt_iff_nth_less)

lemma progress_bounds:
  assumes "0 < bs" and "i < length terms"
  shows "0 < progress terms bs i \<and> progress terms bs i \<le> 100"
proof -
  have n: "0 < real (length terms)" and ne: "0 < length terms" using assms(2) by (cases terms, auto)+
  have "0 < min (i + bs) (length terms)" and "min (i + bs) (length terms) \<le> length terms"
    using assms(1) ne by simp_all
  then show ?thesis using n unfolding progress_eq [OF less_imp_le [OF assms(2)]]
    by (simp add: field_simps)
qed

lemma progress_less:
  assumes "0 < bs" and "i + bs \<le> j" and "j < length terms"
  shows "progress terms bs i < progress terms bs j"
proof -
  have n: "0 < real (length terms)" using assms(3) by (cases terms) auto
  have "real (min (i + bs) (length terms)) < real (min (j + bs) (length terms))" using assms by simp
  then have "real (min (i + bs) (length terms)) / real (length terms) < real (min (j + bs) (length terms)) / real (length terms)"
    using n by (rule divide_strict_right_mono)
  moreover have "i \<le> length terms" and "j \<le> length terms" using assms by simp_all
  ultimately show ?thesis by (simp only: progress_eq) (rule mult_strict_right_mono, simp_all)
qed

lemma progress_last:
  assumes "i < length terms" and "length terms \<le> i + bs"
  shows "progress terms bs i = 100"
proof -
  have "0 < real (length terms)" using assms(1) by (cases terms) auto
  with assms show ?thesis by (simp add: progress_eq)
qed

text \<open>
  The \<open>:.1f\<close> format of line 95 rounds to one decimal, so any percentage of at least
  99.95 is shown as \<open>100.0%\<close>: with 20001 terms, the batch before the last already
  reports it.
\<close>

lemma progress_shows_full_early:
  "19000 + batch_size < 20001 \<and> 99.95 < progress (replicate 20001 (py ''t'')) batch_size 19000"
  by (simp add: progress_def batch_def batch_size_def)

section \<open>Properties of the report\<close>

text \<open>
  C28: For a positive batch size, the batch numbers the loop logs are \<open>1, 2, ...\<close> up to
  the announced \<open>total_batches\<close>, with no gap; every logged percentage lies in (0, 100];
  the percentages rise strictly from batch to batch; and the last batch logs exactly 100.
\<close>

theorem progress_log_bounds:
  assumes bs: "0 < bs"
  shows "map (\<lambda>i. current_batch i bs) (range_from 0 (length terms) bs) = [1..<Suc (total_batches (length terms) bs)] \<and>
    (\<forall>i \<in> set (range_from 0 (length terms) bs). 0 < progress terms bs i \<and> progress terms bs i \<le> 100) \<and>
    sorted_wrt (<) (map (progress terms bs) (range_from 0 (length terms) bs)) \<and>
    (terms \<noteq> [] \<longrightarrow> progress terms bs (last (range_from 0 (length terms) bs)) = 100)"
proof (intro conjI ballI impI)
  let ?tb = "total_batches (length terms) bs"
  have starts: "range_from 0 (length terms) bs = map (\<lambda>k. k * bs) [0..<?tb]"
    using bs by (rule batch_starts)
  have lt: "k < ?tb \<Longrightarrow> k * bs < length terms" for k
  proof -
    assume "k < ?tb"
    then have "k * bs \<in> set (range_from 0 (length terms) bs)" by (auto simp: starts)
    then show ?thesis by (simp add: set_range_from)
  qed
  have "map (\<lambda>i. current_batch i bs) (range_from 0 (length terms) bs) = map Suc [0..<?tb]"
    using bs by (simp add: starts current_batch_def comp_def)
  then show "map (\<lambda>i. current_batch i bs) (range_from 0 (length terms) bs) = [1..<Suc ?tb]"
    by (simp only: map_Suc_upt One_nat_def)
  show "0 < progress terms bs i" and "progress terms bs i \<le> 100"
    if "i \<in> set (range_from 0 (length terms) bs)" for i
    using progress_bounds [OF bs] set_range_from [OF that] by simp_all
  show "sorted_wrt (<) (map (progress terms bs) (range_from 0 (length terms) bs))"
    unfolding starts sorted_wrt_map
  proof (rule sorted_wrt_upt_rel)
    fix k k' assume "k < k'" and "k' < ?tb"
    then have "k * bs + bs \<le> k' * bs" by (metis Suc_leI mult_Suc mult_le_mono1 add.commute)
    with bs lt [OF \<open>k' < ?tb\<close>] show "((\<lambda>x. progress terms bs (x * bs)) k) < ((\<lambda>x. progress terms bs (x * bs)) k')"
      using progress_less by simp
  qed
  assume "terms \<noteq> []"
  then have "0 < ?tb" using bs total_batches_cover [OF bs, of "length terms"] by (cases "?tb") simp_all
  then have "last (range_from 0 (length terms) bs) = (?tb - 1) * bs" by (simp add: starts last_map)
  moreover have "(?tb - 1) * bs < length terms" using lt \<open>0 < ?tb\<close> by simp
  moreover have "length terms \<le> (?tb - 1) * bs + bs"
    using total_batches_cover [OF bs, of "length terms"] \<open>0 < ?tb\<close> by (cases "?tb") simp_all
  ultimately show "progress terms bs (last (range_from 0 (length terms) bs)) = 100"
    using progress_last by simp
qed

section \<open>Witnesses\<close>

theorem progress_log_bounds_witness:
  "map (\<lambda>i. current_batch i batch_size) (range_from 0 2500 batch_size) = [1, 2, 3] \<and>
   progress (replicate 2500 (py ''t'')) batch_size 2000 = 100"
proof -
  have "0 < batch_size" by (simp add: batch_size_def)
  from progress_log_bounds [OF this, of "replicate 2500 (py ''t'')"]
  show ?thesis by (simp add: batch_size_def total_batches_def range_from_Cons upt_rec)
qed

end
