(* ===== verification/Load_File.thy ===== *)
theory Load_File
  imports Prelude
begin

text \<open>
  The document loader \<open>src/HW-05/load_file.py\<close>. \<open>load_file\<close> reads one file with a
  directory reader, falls back to LlamaParse for a PDF whose text came out blank, and
  packages the documents as a JSON object: the document count and, per document, a
  1-based index, five metadata fields with a default, the text's length, the text and the
  whole metadata. \<open>chunk_file\<close> is a stub that returns the module-level \<open>result\<close>. The two
  readers are external libraries and appear as parameters that may fail; JSON values are
  a datatype; \<open>os.path.splitext\<close> is modelled from the standard library's definition.
\<close>

section \<open>JSON values and documents\<close>

datatype json = JNull | JBool bool | JInt int | JStr pystr | JList "json list"
  | JObj "(pystr \<times> json) list"

text \<open>A llama-index \<open>Document\<close>: its text and its metadata dictionary.\<close>

record document =
  doc_text :: pystr
  doc_meta :: "(pystr, json) pydict"

type_synonym reader = "pystr \<Rightarrow> py_error + document list"

section \<open>The file extension\<close>

text \<open>
  \<open>os.path.splitext\<close> (POSIX): the extension starts at the last dot of the last path
  component, unless every character of the component before that dot is a dot (so
  \<open>.bashrc\<close> and \<open>..\<close> have none); the root is everything before it.
\<close>

definition path_base :: "pystr \<Rightarrow> pystr" where
  "path_base p = rev (takeWhile (\<lambda>c. c \<noteq> 47) (rev p))"

definition last_dot :: "pystr \<Rightarrow> nat" where
  "last_dot b = length b - Suc (length (takeWhile (\<lambda>c. c \<noteq> 46) (rev b)))"

definition splitext :: "pystr \<Rightarrow> pystr \<times> pystr" where
  "splitext p =
     (let b = path_base p; d = take (length p - length b) p; k = last_dot b in
      if 46 \<in> set b \<and> (\<exists>c \<in> set (take k b). c \<noteq> 46) then (d @ take k b, drop k b) else (p, []))"

text \<open>Line 33: \<open>os.path.splitext(input_file)[1].lower()\<close>.\<close>

definition file_ext :: "pystr \<Rightarrow> pystr" where
  "file_ext p = py_lower (snd (splitext p))"

section \<open>Loading\<close>

text \<open>Line 42: \<open>any(doc.text.strip() for doc in documents)\<close>.\<close>

definition any_text :: "document list \<Rightarrow> bool" where
  "any_text docs \<longleftrightarrow> list_ex (\<lambda>d. py_strip (doc_text d) \<noteq> []) docs"

text \<open>Lines 36--45: the directory reader, then LlamaParse for a blank PDF.\<close>

definition load_documents :: "reader \<Rightarrow> reader \<Rightarrow> pystr \<Rightarrow> py_error + document list" where
  "load_documents dir_reader llama_parse p =
     bind_err (dir_reader p)
       (\<lambda>docs. if file_ext p = py ''.pdf'' \<and> (docs = [] \<or> \<not> any_text docs) then llama_parse p else Inr docs)"

text \<open>The default of the metadata lookups, the two code points U+672A U+77E5 (``unknown'').\<close>

definition unknown :: pystr where
  "unknown = [26410, 30693]"

definition meta_get :: "document \<Rightarrow> string \<Rightarrow> json" where
  "meta_get d k = dict_get_default (doc_meta d) (py k) (JStr unknown)"

text \<open>Lines 54--64: one document's entry.\<close>

definition doc_info :: "int \<Rightarrow> document \<Rightarrow> json" where
  "doc_info i d = JObj
     [(py ''index'', JInt i),
      (py ''file_name'', meta_get d ''file_name''),
      (py ''file_type'', meta_get d ''file_type''),
      (py ''file_size'', meta_get d ''file_size''),
      (py ''creation_date'', meta_get d ''creation_date''),
      (py ''last_modified_date'', meta_get d ''last_modified_date''),
      (py ''content_length'', JInt (int (length (doc_text d)))),
      (py ''content'', JStr (doc_text d)),
      (py ''metadata'', JObj (doc_meta d))]"

text \<open>Lines 22--67: \<open>load_file\<close>; \<open>enumerate(documents, 1)\<close> numbers from 1.\<close>

definition load_file :: "reader \<Rightarrow> reader \<Rightarrow> pystr \<Rightarrow> py_error + json" where
  "load_file dir_reader llama_parse p =
     bind_err (load_documents dir_reader llama_parse p)
       (\<lambda>docs. Inr (JObj [(py ''file_count'', JInt (int (length docs))),
                         (py ''documents'', JList (map2 doc_info [1..int (length docs)] docs))]))"

text \<open>
  Lines 69--79: \<open>chunk_file\<close> ignores its argument and returns the global \<open>result\<close>,
  raising \<open>NameError\<close> when the module has not bound it. The module's globals are a
  dictionary.
\<close>

definition chunk_file :: "(pystr, json) pydict \<Rightarrow> json \<Rightarrow> py_error + json" where
  "chunk_file globals loaded_response =
     (case dict_get globals (py ''result'') of None \<Rightarrow> Inl NameError | Some r \<Rightarrow> Inr r)"

text \<open>Lines 81--84: the script binds \<open>result\<close> to the loaded file.\<close>

definition main_globals :: "reader \<Rightarrow> reader \<Rightarrow> pystr \<Rightarrow> py_error + (pystr, json) pydict" where
  "main_globals dir_reader llama_parse p =
     bind_err (load_file dir_reader llama_parse p) (\<lambda>r. Inr [(py ''result'', r)])"

section \<open>What the output promises\<close>

text \<open>The keys of a document entry, in order.\<close>

definition doc_keys :: "pystr list" where
  "doc_keys = map py [''index'', ''file_name'', ''file_type'', ''file_size'', ''creation_date'',
     ''last_modified_date'', ''content_length'', ''content'', ''metadata'']"

fun doc_ok :: "int \<Rightarrow> json \<Rightarrow> bool" where
  "doc_ok i (JObj kvs) \<longleftrightarrow>
     map fst kvs = doc_keys \<and> map_of kvs (py ''index'') = Some (JInt i) \<and>
     (case (map_of kvs (py ''content''), map_of kvs (py ''content_length'')) of
        (Some (JStr c), Some (JInt l)) \<Rightarrow> l = int (length c)
      | _ \<Rightarrow> False)"
| "doc_ok i _ \<longleftrightarrow> False"

text \<open>
  The schema of \<open>load_file\<close>'s result: \<open>file_count\<close> is the number of entries, the
  entries are numbered 1, 2, ... in order, and each \<open>content_length\<close> is the length of its
  \<open>content\<close>.
\<close>

fun result_ok :: "json \<Rightarrow> bool" where
  "result_ok (JObj [(k1, JInt n), (k2, JList ds)]) \<longleftrightarrow>
     k1 = py ''file_count'' \<and> k2 = py ''documents'' \<and> n = int (length ds) \<and>
     list_all (\<lambda>(i, d). doc_ok i d) (zip [1..int (length ds)] ds)"
| "result_ok _ \<longleftrightarrow> False"

text \<open>Test readers: one returning a blank document, one returning a text.\<close>

definition blank_reader :: reader where
  "blank_reader p = Inr [\<lparr>doc_text = py '' '', doc_meta = []\<rparr>]"

definition text_reader :: reader where
  "text_reader p = Inr [\<lparr>doc_text = py ''text'', doc_meta = [(py ''file_name'', JStr p)]\<rparr>]"

section \<open>Lemmas\<close>

lemma path_base_suffix: "\<exists>d. p = d @ path_base p \<and> (d = [] \<or> last d = 47)"
proof -
  let ?P = "\<lambda>c. c \<noteq> (47::nat)"
  have "rev p = takeWhile ?P (rev p) @ dropWhile ?P (rev p)" by simp
  then have p: "p = rev (dropWhile ?P (rev p)) @ path_base p"
    unfolding path_base_def by (metis rev_append rev_rev_ident)
  have "dropWhile ?P (rev p) = [] \<or> hd (dropWhile ?P (rev p)) = 47"
    using hd_dropWhile [of ?P "rev p"] by blast
  then have "rev (dropWhile ?P (rev p)) = [] \<or> last (rev (dropWhile ?P (rev p))) = 47"
    by (auto simp: last_rev)
  with p show ?thesis by blast
qed

lemma path_base_append: "47 \<notin> set b \<Longrightarrow> d = [] \<or> last d = 47 \<Longrightarrow> path_base (d @ b) = b"
proof -
  assume b: "47 \<notin> set b" and d: "d = [] \<or> last d = 47"
  have "takeWhile (\<lambda>c. c \<noteq> 47) (rev b @ rev d) = rev b @ takeWhile (\<lambda>c. c \<noteq> 47) (rev d)"
    using b by (subst takeWhile_append2) auto
  moreover from d have "takeWhile (\<lambda>c. c \<noteq> 47) (rev d) = []"
    by (cases d rule: rev_cases) auto
  ultimately show ?thesis by (simp add: path_base_def)
qed

text \<open>\<open>splitext\<close> splits a path without losing anything.\<close>

lemma splitext_roundtrip: "fst (splitext p) @ snd (splitext p) = p"
proof -
  obtain d where p: "p = d @ path_base p" using path_base_suffix by blast
  then have "take (length p - length (path_base p)) p = d"
    by (metis append_eq_conv_conj diff_add_inverse2 length_append)
  with p show ?thesis by (simp add: splitext_def Let_def)
qed

lemma last_dot_ext: "46 \<notin> set x \<Longrightarrow> last_dot (n @ 46 # x) = length n"
proof -
  assume "46 \<notin> set x"
  then have "takeWhile (\<lambda>c. c \<noteq> 46) (rev x @ 46 # rev n) = rev x" by (subst takeWhile_append2) auto
  then show ?thesis by (simp add: last_dot_def)
qed

lemma splitext_ext:
  assumes "d = [] \<or> last d = 47" and "47 \<notin> set n" and "47 \<notin> set x" and "46 \<notin> set x"
    and "\<exists>c \<in> set n. c \<noteq> 46"
  shows "splitext (d @ n @ 46 # x) = (d @ n, 46 # x)"
proof -
  have b: "path_base (d @ n @ 46 # x) = n @ 46 # x"
    using assms(1-3) by (intro path_base_append) auto
  have k: "last_dot (n @ 46 # x) = length n" using assms(4) by (rule last_dot_ext)
  show ?thesis using assms(5) by (simp add: splitext_def Let_def b k)
qed

lemma load_file_Inr:
  "load_file rd lp p = Inr j \<Longrightarrow> \<exists>docs. load_documents rd lp p = Inr docs \<and>
     j = JObj [(py ''file_count'', JInt (int (length docs))),
               (py ''documents'', JList (map2 doc_info [1..int (length docs)] docs))]"
  by (auto simp: load_file_def bind_err_Inr_iff)

lemma doc_info_ok: "doc_ok i (doc_info i d)"
  by (simp add: doc_info_def doc_keys_def py_def)

lemma zip_upto_map2:
  "length ds = n \<Longrightarrow> list_all (\<lambda>(i, d). doc_ok i d) (zip [a..a + int n - 1] (map2 doc_info [a..a + int n - 1] ds))"
proof (induction ds arbitrary: a n)
  case (Cons d ds)
  then obtain m where n: "n = Suc m" and m: "length ds = m" by auto
  have "[a..a + int n - 1] = a # [a + 1..a + 1 + int m - 1]"
    using n by (simp add: upto_rec1)
  with Cons.IH [OF m, of "a + 1"] show ?case by (simp add: doc_info_ok)
qed simp

section \<open>Properties of the loader\<close>

text \<open>C27: Every result \<open>load_file\<close> returns has the promised shape: \<open>file_count\<close> is the number of entries, the entries are numbered from 1 in order, each has the nine keys in order, and each \<open>content_length\<close> is the length of its \<open>content\<close>.\<close>

theorem load_file_result_ok:
  assumes "load_file rd lp p = Inr j"
  shows "result_ok j"
proof -
  from load_file_Inr [OF assms] obtain docs where
    j: "j = JObj [(py ''file_count'', JInt (int (length docs))),
               (py ''documents'', JList (map2 doc_info [1..int (length docs)] docs))]" by blast
  have "list_all (\<lambda>(i, d). doc_ok i d) (zip [1..int (length docs)] (map2 doc_info [1..int (length docs)] docs))"
    using zip_upto_map2 [of docs "length docs" 1] by simp
  then show ?thesis by (simp add: j)
qed

text \<open>A PDF whose reader output has no non-blank text is re-read with LlamaParse, whatever the case of its extension; any other file keeps the reader's output.\<close>

lemma load_documents_pdf_fallback:
  "load_documents blank_reader text_reader (py ''scan.PDF'') = text_reader (py ''scan.PDF'') \<and>
   load_documents blank_reader text_reader (py ''scan.txt'') = blank_reader (py ''scan.txt'')"
  by (simp add: load_documents_def blank_reader_def any_text_def file_ext_def splitext_def path_base_def
      last_dot_def py_lower_def py_strip_def py_isspace_def py_def)

section \<open>Witnesses\<close>

theorem load_file_result_ok_witness:
  "\<exists>j. load_file text_reader text_reader (py ''a.txt'') = Inr j \<and> result_ok j"
proof -
  have "\<exists>j. load_file text_reader text_reader (py ''a.txt'') = Inr j"
    by (simp add: load_file_def load_documents_def text_reader_def)
  then obtain j where "load_file text_reader text_reader (py ''a.txt'') = Inr j" by blast
  with load_file_result_ok [OF this] show ?thesis by blast
qed

end
