(* ===== verification/Spec2Isabelle.thy ===== *)
theory Spec2Isabelle
  imports Tree_Text Markdown Query Progress Load_File
begin

text \<open>
  \<^bold>\<open>A verification development for rag-in-action.\<close>

  The repository holds two homework scripts. \<open>src/HW-05/parse_file.py\<close> rebuilds the
  hierarchy of a PDF from the flat list of elements \<open>partition_pdf\<close> returns and
  renders it as an indented tree (\<open>elements_to_visual_tree\<close>) or as Markdown
  (\<open>elements_to_markdown\<close>); \<open>src/HW-05/load_file.py\<close> loads a document and
  packages it as JSON. \<open>src/HW-03/create_db.py\<close> embeds a list of financial terms in
  batches and inserts them into a Milvus collection, and \<open>src/HW-03/test.py\<close> queries
  it.

  \<^bold>\<open>Theories.\<close>
  \<^item> \<open>Prelude\<close>: Python strings as lists of code points with \<open>strip\<close>,
    \<open>replace\<close>, \<open>split\<close> and \<open>join\<close>; Python dictionaries as insertion-ordered
    association lists (\<open>dict_set\<close>, \<open>dict_get\<close>, \<open>dict_append\<close> for
    \<open>setdefault(k, []).append(x)\<close>); the exceptions as \<open>py_error\<close>, with
    \<open>bind_err\<close> and \<open>seq_err\<close> propagating them. Round trips of \<open>split\<close> and
    \<open>join\<close>, and the lookup laws of the dictionary model.
  \<^item> \<open>Elements\<close>: the element record (\<open>eid\<close>, \<open>category\<close>, \<open>etext\<close>, and a
    \<open>metadata\<close> record with \<open>parent_id\<close> and \<open>text_as_html\<close>), the closed
    \<open>category\<close> datatype, and \<open>set_parent\<close>, the one mutation of the script.
  \<^item> \<open>Reparent\<close>: the element map of lines 25/59 (\<open>element_map\<close>,
    \<open>element_map_kept\<close>), the backward scan of lines 52--55 (\<open>scan_back\<close>), one
    loop iteration (\<open>reparent_step\<close>) and the loop over \<open>enumerate(elements)\<close>
    (\<open>reparent_loop\<close>, \<open>reparent\<close>) of lines 31--56. The loop rewrites the list it
    reads, as the Python mutates \<open>element.metadata.parent_id\<close> in place; the theorems
    show that this is the same as computing every correction on a snapshot
    (\<open>reparent_two_pass\<close>), that the pass refines the specification of section 4.1
    (\<open>reparent_refines\<close>, with \<open>AttributeError\<close> exactly when the nearest Title
    has no id), the three rules one by one (C1--C6).

  \<^item> \<open>Forest_Index\<close>: the parent-to-children index of lines 61--64 and 132--136
    (\<open>index_acc\<close>, \<open>parent_child_map\<close>, read through \<open>children\<close> as
    \<open>get(key, [])\<close>) and \<open>prepare\<close>, the preprocessing lines 24--59 and 99--136 share.
    Lemmas: children keep document order (C7), Headers and Footers are dropped and no key
    is a Header (C8, C9), children of a Footer are orphaned (C10), and a dangling parent id
    makes an element unreachable (C11).
  \<^item> \<open>Forest_Paths\<close>: why every recursion over the index ends. A run of a renderer follows
    a path from a root down child links (\<open>is_chain\<close>); in a \<open>well_keyed\<close> map such a path
    never repeats an element, so it is no longer than the map. This is the argument for the
    fuel of both renderers.
  \<^item> \<open>Tree_Text\<close>: \<open>elements_to_visual_tree\<close> (lines 66--93): \<open>display_text\<close>,
    \<open>node_line\<close>, \<open>connector\<close>, the recursion \<open>build_node\<close> for \<open>_build_node\<close>,
    \<open>build_roots\<close> and \<open>elements_to_visual_tree\<close>. Lemmas: fuel of at least the number of elements
    never runs out (C12), a rendered subtree is one newline-free line per node, so the
    parent's \<open>split('\n')\<close> gives back exactly those lines (C13), a single root (C14)
    and the 45-character truncation (C15, C16).
  \<^item> \<open>Html_Table\<close>: the part of BeautifulSoup \<open>_handle_table\<close> calls, modelled from the
    specification: a tokenizer \<open>html_tokens\<close> and a row scan \<open>scan_rows\<close> giving
    \<open>html_rows\<close>; reading back a printed table gives its rows.
  \<^item> \<open>Markdown\<close>: \<open>elements_to_markdown\<close> (lines 95--226): \<open>md_sep_blank\<close>,
    \<open>format_row\<close>, \<open>separator\<close>, the two branches of \<open>_handle_table\<close>
    (\<open>html_table_lines\<close>, \<open>fallback_table_lines\<close>, \<open>handle_table\<close>), \<open>md_block\<close> and
    the mutual recursion \<open>build_md\<close>/\<open>build_md_children\<close> for \<open>_build_markdown\<close>, which
    threads the list \<open>markdown_lines\<close> the code extends. Lemmas: enough fuel (C17), no two
    consecutive blank lines when every Table has markup (C18), the separator's width
    (C19), two consecutive blank lines before every Table rendered by the fallback branch
    after other output (C20), and a single root (C21).
  \<^item> \<open>Create_Db\<close>: \<open>src/HW-03/create_db.py\<close>. The Milvus client is an explicit state, a
    dictionary from collection names to \<open>collection\<close> records, with \<open>create_collection\<close>,
    \<open>create_index\<close>, \<open>milvus_insert\<close> and \<open>load_collection\<close>; the embedding API is a
    parameter that may fail. \<open>read_terms\<close> models the NA handling of lines 24--29,
    \<open>insert_loop\<close> the batch loop of lines 72--110 (threading the client and the token
    count in the record \<open>run\<close>), \<open>build_db\<close> the guarded build of lines 35--121. An
    outcome is the exception raised, if any, with the client state left behind. Lemmas:
    a fresh build inserts every term in order and loads the collection (C22), the batch
    count and sizes (C23), a second run changes nothing (C24), a failing batch leaves a
    partial collection (C25), and a rejected batch is silently skipped (C26).
  \<^item> \<open>Load_File\<close>: \<open>src/HW-05/load_file.py\<close>: \<open>splitext\<close> and \<open>file_ext\<close>,
    \<open>load_documents\<close> with the LlamaParse fallback, \<open>doc_info\<close>, \<open>load_file\<close>,
    \<open>chunk_file\<close> and the script's globals. Lemma: the shape of the JSON result (C27); an
    example shows the LlamaParse fallback for a blank PDF whatever the case of its
    extension.
  \<^item> \<open>Progress\<close>: the progress report of the batch loop of \<open>create_db.py\<close>:
    \<open>total_batches\<close> (line 65), \<open>current_batch\<close> (line 76), \<open>progress\<close> (line 94, a
    float read as \<open>real\<close>) and the logged values \<open>progress_log\<close> (lines 95--96). Lemma:
    the batch numbers run from 1 to the announced total without a gap, the percentage lies
    in (0, 100], rises strictly and is exactly 100 at the last batch (C28); an example
    shows the one-decimal display reaching \<open>100.0%\<close> a batch early.
  \<^item> \<open>Batch_Loop\<close>: the batch loop of \<open>create_db.py\<close> (lines 74--110) as a state machine:
    \<open>loop_state\<close> (running with the pending batch starts, or finished with the exception),
    the inductive step relation \<open>loop_step\<close> with one rule per branch of an iteration,
    its inversion rules, determinism and progress. Lemmas: every run ends in the state
    \<open>insert_loop\<close> computes, within one step per batch and one more; by rule induction
    over the reachable states, the collection only ever holds a subsequence of the
    terms, in order (C29).
  \<^item> \<open>Query\<close>: \<open>src/HW-03/test.py\<close>: \<open>run_query\<close> embeds the query, takes the first
    vector, searches with \<open>milvus_search\<close> (limit 5) and logs the hits numbered from 1
    (\<open>hit_log\<close>). It runs on the client state \<open>build_db\<close> leaves, which is how the two
    scripts interact. Lemma: after a failed build every query raises, after any build a
    returned log has at most five hits, best first, all terms of the CSV (C30).
  \<^item> This theory: the header; it imports every component.

  \<^bold>\<open>Fuel.\<close> The two renderers recurse once per element on a path from a root. Python
  allows about a thousand frames; the models take the number of frames as a fuel argument
  and return \<open>RecursionError\<close> at 0. C12 and C17 show that a fuel equal to the number of
  elements always suffices, for every input: paths in the index never repeat an element.
  The other loops (the re-parenting pass, the batch loop, the tokenizer) are structural
  recursions or have a measure, so they are total functions.

  \<^bold>\<open>External code.\<close> Libraries the scripts call are not repository code and are
  modelled from the specification and their documentation, as far as the scripts use
  them: BeautifulSoup (\<open>Html_Table\<close>), the Milvus client and pandas' NA strings
  (\<open>Create_Db\<close>), the Milvus search (\<open>Query\<close>, with the similarity a parameter), \<open>os.path.splitext\<close>, the llama-index document and JSON values
  (\<open>Load_File\<close>). The readers of \<open>load_file\<close> and the embedding API are parameters.

  \<^bold>\<open>Not modelled.\<close> \<open>partition_pdf\<close> and the printing and file writing of
  \<open>parse_file.py\<close>'s main block are I/O around the modelled functions;
  the other logging calls (the hit ids of \<open>test.py\<close>, the per-batch counts and sample
  rows of \<open>create_db.py\<close>) have no effect on the results, and only the values of the
  progress lines are modelled; the
  CSV tokenizer of pandas is replaced by rows given as cells; the readers
  (\<open>SimpleDirectoryReader\<close>, LlamaParse) are arbitrary functions.
\<close>

end
